theory Spec2Isabelle
  imports Complex_Main
begin

section \<open>Values, exceptions and the library the two stages call\<close>

text \<open>
  Both stages are Python scripts over values that \<^verbatim>\<open>json.load\<close> and pandas produce.
  A loaded JSON value is a \<open>json\<close>: \<open>JNull\<close> is Python's \<^verbatim>\<open>None\<close> (what
  \<^verbatim>\<open>json.load\<close> gives for \<^verbatim>\<open>null\<close>, and what \<^verbatim>\<open>dict.get\<close> gives for a missing key),
  \<open>JObj\<close> is a \<^verbatim>\<open>dict\<close> given by its items (a dict has each key once, so the first
  match of \<open>map_of\<close> is the only one). JSON numbers are the integers: the inputs hold ids
  and counts. A character of a \<open>string\<close> stands for one character of the Python \<^verbatim>\<open>str\<close>,
  so \<open>length\<close> is \<^verbatim>\<open>len\<close>; the characters are the code points below 256.
\<close>

datatype json =
    JNull
  | JBool bool
  | JInt int
  | JStr string
  | JArr "json list"
  | JObj "(string \<times> json) list"

text \<open>
  The exceptions that end a run. \<open>Unmodelled\<close> marks an input on which what pandas does
  is outside this model (a count that is not an integer of the int64 range, a key that is
  a number but not an integer literal, a difference of timestamps beyond the range of
  \<^verbatim>\<open>Timedelta\<close>); nothing is claimed about such a run.
\<close>

datatype py_error =
  KeyError | TypeError | ValueError | AttributeError | OverflowError | Unmodelled

text \<open>
  A datetime column as \<^verbatim>\<open>pd.to_datetime\<close> returns it: whether its dtype carries a time
  zone, and its cells, each the instant in nanoseconds since the epoch or \<^verbatim>\<open>NaT\<close>
  (\<open>None\<close>).
\<close>

record datetime_column =
  tz_aware :: bool
  stamps :: "int option list"

text \<open>
  What \<^verbatim>\<open>pd.to_numeric\<close> with \<^verbatim>\<open>errors='coerce'\<close> reads in one string cell:
  \<^item> \<open>IntLit n x\<close> for an integer literal: \<open>n\<close> is the integer it denotes (\<^verbatim>\<open>int(val)\<close>),
    kept in an integer column, and \<open>x\<close> is the float that pandas' parser reads in the
    same string, kept in a float64 column. A float that large is an integer too; it is
    \<open>n\<close> itself below \<open>2 ^ 53\<close> and a float near \<open>n\<close> above;
  \<^item> \<open>OtherNumber\<close> for another number (a float literal, \<^verbatim>\<open>inf\<close>);
  \<^item> \<open>NotNumeric\<close> for a string that becomes \<^verbatim>\<open>NaN\<close>: one that is not numeric, which is
    coerced, and a spelling of \<^verbatim>\<open>nan\<close>.
\<close>

datatype pd_numeric = NotNumeric | IntLit int int | OtherNumber

text \<open>
  Library functions that the scripts call and do not define are parameters of the model:
  \<^item> \<open>json_loads\<close> is \<^verbatim>\<open>json.loads\<close> on a string; \<open>None\<close> is \<^verbatim>\<open>json.JSONDecodeError\<close>;
  \<^item> \<open>int_of_str\<close> is \<^verbatim>\<open>int(s)\<close> on a \<^verbatim>\<open>str\<close>; \<open>None\<close> is \<^verbatim>\<open>ValueError\<close>;
  \<^item> \<open>to_datetime\<close> is \<^verbatim>\<open>pd.to_datetime\<close> on a whole column of cells (strings and
    \<^verbatim>\<open>None\<close>): the exception it raises, or the datetime column. pandas infers one format
    and one time zone for the column and decides by itself which strings are \<^verbatim>\<open>NaT\<close>,
    so the cells are not parsed one by one here;
  \<^item> \<open>to_numeric\<close> is how \<^verbatim>\<open>pd.to_numeric\<close> reads one string cell. What becomes of
    the column (its dtype, the rounding, the cast) is modelled below.
\<close>

record pylib =
  json_loads :: "string \<Rightarrow> json option"
  int_of_str :: "string \<Rightarrow> int option"
  to_datetime :: "json list \<Rightarrow> py_error + datetime_column"
  to_numeric :: "string \<Rightarrow> pd_numeric"

text \<open>\<^verbatim>\<open>v[k]\<close> for a string key: a dict without the key raises \<^verbatim>\<open>KeyError\<close>, any other
  value raises \<^verbatim>\<open>TypeError\<close>.\<close>

fun py_getitem :: "json \<Rightarrow> string \<Rightarrow> py_error + json" where
  "py_getitem (JObj kvs) k = (case map_of kvs k of None \<Rightarrow> Inl KeyError | Some v \<Rightarrow> Inr v)"
| "py_getitem _ k = Inl TypeError"

text \<open>\<^verbatim>\<open>d.get(k)\<close> on a dict: the value, or \<^verbatim>\<open>None\<close> when the key is missing.\<close>

definition dict_get :: "(string \<times> json) list \<Rightarrow> string \<Rightarrow> json" where
  "dict_get kvs k = (case map_of kvs k of None \<Rightarrow> JNull | Some v \<Rightarrow> v)"

text \<open>\<^verbatim>\<open>v.get(k, dflt)\<close>: a value that is not a dict has no \<^verbatim>\<open>get\<close>
  (\<^verbatim>\<open>AttributeError\<close>); the default stands in for a missing key only.\<close>

fun py_get_default :: "json \<Rightarrow> string \<Rightarrow> json \<Rightarrow> py_error + json" where
  "py_get_default (JObj kvs) k dflt =
     (case map_of kvs k of None \<Rightarrow> Inr dflt | Some v \<Rightarrow> Inr v)"
| "py_get_default _ k dflt = Inl AttributeError"

text \<open>\<^verbatim>\<open>int(v)\<close>.\<close>

fun py_int :: "pylib \<Rightarrow> json \<Rightarrow> py_error + int" where
  "py_int lib (JInt n) = Inr n"
| "py_int lib (JBool b) = Inr (if b then 1 else 0)"
| "py_int lib (JStr s) =
     (case int_of_str lib s of None \<Rightarrow> Inl ValueError | Some n \<Rightarrow> Inr n)"
| "py_int lib _ = Inl TypeError"

text \<open>\<^verbatim>\<open>len(v)\<close>: numbers, booleans and \<^verbatim>\<open>None\<close> have no length.\<close>

fun py_len :: "json \<Rightarrow> py_error + nat" where
  "py_len (JStr s) = Inr (length s)"
| "py_len (JArr xs) = Inr (length xs)"
| "py_len (JObj kvs) = Inr (length kvs)"
| "py_len _ = Inl TypeError"

text \<open>A value used as a number (\<^verbatim>\<open>bool\<close> is a subclass of \<^verbatim>\<open>int\<close>); \<open>None\<close> when
  arithmetic or comparison with a number raises \<^verbatim>\<open>TypeError\<close>.\<close>

fun py_number :: "json \<Rightarrow> int option" where
  "py_number (JInt n) = Some n"
| "py_number (JBool b) = Some (if b then 1 else 0)"
| "py_number _ = None"

section \<open>Stage A: feature extraction (etl.py)\<close>

subsection \<open>Selected ids and user profiles\<close>

text \<open>\<^verbatim>\<open>set([int(uid) for uid in selected_ids_list])\<close>; the set is kept as the list of
  its elements and only tested for membership.\<close>

fun load_selected_ids :: "pylib \<Rightarrow> json list \<Rightarrow> py_error + int list" where
  "load_selected_ids lib [] = Inr []"
| "load_selected_ids lib (v # vs) =
     (case py_int lib v of
        Inl e \<Rightarrow> Inl e
      | Inr n \<Rightarrow> (case load_selected_ids lib vs of Inl e \<Rightarrow> Inl e | Inr ns \<Rightarrow> Inr (n # ns)))"

text \<open>Lines 40--58 of \<^verbatim>\<open>main\<close>: the value of \<^verbatim>\<open>score\<close>, the column
  \<^verbatim>\<open>profile_completeness_score\<close>, for the dict \<open>u\<close>.\<close>

definition profile_score :: "(string \<times> json) list \<Rightarrow> py_error + int" where
  "profile_score u =
     (let score = 0;
          score = (if dict_get u ''verified'' = JBool True then score + 1 else score);
          desc = dict_get u ''description''
      in case (if desc \<noteq> JNull
               then (case py_len desc of
                       Inl e \<Rightarrow> Inl e
                     | Inr n \<Rightarrow> Inr (if n > 0 then score + 1 + 1 else score + 1))
               else Inr score) of
           Inl e \<Rightarrow> Inl e
         | Inr score \<Rightarrow>
             (let score = (if dict_get u ''profile_image_url'' \<noteq> JNull then score + 1 else score);
                  score = (if dict_get u ''location'' \<noteq> JNull then score + 1 else score)
              in Inr score))"

text \<open>Python's \<^verbatim>\<open>a / b\<close> on two integers, \<open>b\<close> positive: the quotient rounded to a float,
  or \<^verbatim>\<open>OverflowError\<close> when it is too large for one, that is when it rounds to
  \<open>2 ^ 1024\<close>: from half an ulp above the largest float, \<open>2 ^ 1024 - 2 ^ 970\<close>. A
  quotient that is returned is the rational here; its rounding is not modelled.\<close>

definition py_truediv :: "int \<Rightarrow> int \<Rightarrow> py_error + rat" where
  "py_truediv a b =
     (if \<bar>a\<bar> \<ge> (2 ^ 1024 - 2 ^ 970) * b then Inl OverflowError
      else Inr (of_int a / of_int b))"

text \<open>Lines 61--68: the follower/following ratio.\<close>

definition follower_following_ratio_of :: "(string \<times> json) list \<Rightarrow> py_error + rat" where
  "follower_following_ratio_of u =
     (case py_get_default (JObj u) ''public_metrics'' (JObj []) of
        Inl e \<Rightarrow> Inl e
      | Inr metrics \<Rightarrow>
          (case py_get_default metrics ''followers_count'' (JInt 0) of
             Inl e \<Rightarrow> Inl e
           | Inr followers \<Rightarrow>
               (case py_get_default metrics ''following_count'' (JInt 0) of
                  Inl e \<Rightarrow> Inl e
                | Inr following \<Rightarrow>
                    (case py_number following of
                       None \<Rightarrow> Inl TypeError
                     | Some fg \<Rightarrow>
                         if fg > 0
                         then (case py_number followers of
                                 None \<Rightarrow> Inl TypeError
                               | Some fr \<Rightarrow> py_truediv fr fg)
                         else Inr 0))))"

text \<open>One element of \<^verbatim>\<open>users_data\<close>.\<close>

record user_row =
  u_user_id :: int
  u_profile_completeness_score :: int
  u_follower_following_ratio :: rat
  u_user_created_at :: json

text \<open>The body of the loop over \<^verbatim>\<open>all_users\<close> (lines 27--79): \<open>None\<close> when the user is
  not selected.\<close>

definition process_user :: "pylib \<Rightarrow> int list \<Rightarrow> json \<Rightarrow> py_error + user_row option" where
  "process_user lib selected_ids u =
     (case py_getitem u ''id'' of
        Inl e \<Rightarrow> Inl e
      | Inr idv \<Rightarrow>
          (case py_int lib idv of
             Inl e \<Rightarrow> Inl e
           | Inr uid \<Rightarrow>
               if uid \<in> set selected_ids
               then (case u of
                       JObj kvs \<Rightarrow>
                         (case profile_score kvs of
                            Inl e \<Rightarrow> Inl e
                          | Inr score \<Rightarrow>
                              (case follower_following_ratio_of kvs of
                                 Inl e \<Rightarrow> Inl e
                               | Inr ratio \<Rightarrow>
                                   Inr (Some \<lparr>u_user_id = uid,
                                              u_profile_completeness_score = score,
                                              u_follower_following_ratio = ratio,
                                              u_user_created_at = dict_get kvs ''created_at''\<rparr>)))
                     | _ \<Rightarrow> Inl TypeError)
               else Inr None))"

fun process_users :: "pylib \<Rightarrow> int list \<Rightarrow> json list \<Rightarrow> py_error + user_row list" where
  "process_users lib selected_ids [] = Inr []"
| "process_users lib selected_ids (u # us) =
     (case process_user lib selected_ids u of
        Inl e \<Rightarrow> Inl e
      | Inr r \<Rightarrow>
          (case process_users lib selected_ids us of
             Inl e \<Rightarrow> Inl e
           | Inr rs \<Rightarrow> Inr (case r of None \<Rightarrow> rs | Some row \<Rightarrow> row # rs)))"

subsection \<open>The tweet stream\<close>

text \<open>\<^verbatim>\<open>str.isspace\<close>, the characters \<^verbatim>\<open>str.strip()\<close> removes, among the code points
  below 256: tab, line feed, vertical tab, form feed, carriage return, the four
  separators 0x1C--0x1F, the space, the next-line control U+0085 and the no-break space
  U+00A0.\<close>

definition py_isspace :: "char \<Rightarrow> bool" where
  "py_isspace c \<longleftrightarrow>
     c \<in> set [CHR 0x09, CHR 0x0A, CHR 0x0B, CHR 0x0C, CHR 0x0D,
              CHR 0x1C, CHR 0x1D, CHR 0x1E, CHR 0x1F, CHR 0x20, CHR 0x85, CHR 0xA0]"

text \<open>\<^verbatim>\<open>line.strip()\<close>.\<close>

definition py_strip :: "string \<Rightarrow> string" where
  "py_strip s = rev (dropWhile py_isspace (rev (dropWhile py_isspace s)))"

text \<open>\<^verbatim>\<open>parse_line\<close> (lines 90--101). The result \<open>JNull\<close> is the helper's
  \<^verbatim>\<open>None\<close>: a bracket line, a line \<^verbatim>\<open>json.loads\<close> refuses, and also a line holding
  the JSON value \<^verbatim>\<open>null\<close>.\<close>

definition parse_line :: "pylib \<Rightarrow> string \<Rightarrow> json" where
  "parse_line lib line =
     (let line = py_strip line;
          line = (if line \<noteq> [] \<and> last line = CHR '','' then butlast line else line)
      in if line = ''['' \<or> line = '']'' then JNull
         else (case json_loads lib line of None \<Rightarrow> JNull | Some v \<Rightarrow> v))"

text \<open>One element of \<^verbatim>\<open>csv_rows\<close>, a row of the intermediate table.\<close>

record tweet_row =
  t_user_id :: int
  t_tweet_id :: json
  t_tweet_text :: json
  t_created_at :: json
  t_like_count :: json
  t_reply_count :: json

text \<open>The body of the loop over the lines, for a line that parsed (lines 110--131):
  \<open>None\<close> when the author is not selected.\<close>

definition process_tweet :: "pylib \<Rightarrow> int list \<Rightarrow> json \<Rightarrow> py_error + tweet_row option" where
  "process_tweet lib selected_ids tweet =
     (case py_getitem tweet ''author_id'' of
        Inl e \<Rightarrow> Inl e
      | Inr a \<Rightarrow>
     (case py_int lib a of
        Inl e \<Rightarrow> Inl e
      | Inr author_id \<Rightarrow>
          if author_id \<in> set selected_ids
          then
     (case py_get_default tweet ''public_metrics'' (JObj []) of
        Inl e \<Rightarrow> Inl e
      | Inr metrics \<Rightarrow>
     (case py_get_default metrics ''like_count'' JNull of
        Inl e \<Rightarrow> Inl e
      | Inr like_count \<Rightarrow>
     (case py_get_default metrics ''reply_count'' JNull of
        Inl e \<Rightarrow> Inl e
      | Inr reply_count \<Rightarrow>
     (case py_getitem tweet ''id'' of
        Inl e \<Rightarrow> Inl e
      | Inr tid \<Rightarrow>
     (case py_getitem tweet ''text'' of
        Inl e \<Rightarrow> Inl e
      | Inr txt \<Rightarrow>
     (case py_getitem tweet ''created_at'' of
        Inl e \<Rightarrow> Inl e
      | Inr cr \<Rightarrow>
          Inr (Some \<lparr>t_user_id = author_id, t_tweet_id = tid, t_tweet_text = txt,
                     t_created_at = cr,
                     t_like_count = (if like_count = JNull then JInt 0 else like_count),
                     t_reply_count = (if reply_count = JNull then JInt 0 else reply_count)\<rparr>)))))))
          else Inr None))"

text \<open>The loop over the lines of the tweet file (lines 104--131): the rows collected,
  or the first exception raised.\<close>

fun stream_tweets :: "pylib \<Rightarrow> int list \<Rightarrow> string list \<Rightarrow> py_error + tweet_row list" where
  "stream_tweets lib selected_ids [] = Inr []"
| "stream_tweets lib selected_ids (line # rest) =
     (let tweet = parse_line lib line
      in if tweet = JNull then stream_tweets lib selected_ids rest
         else (case process_tweet lib selected_ids tweet of
                 Inl e \<Rightarrow> Inl e
               | Inr r \<Rightarrow>
                   (case stream_tweets lib selected_ids rest of
                      Inl e \<Rightarrow> Inl e
                    | Inr rows \<Rightarrow> Inr (case r of None \<Rightarrow> rows | Some row \<Rightarrow> row # rows))))"

subsection \<open>Aggregation, merge and rates\<close>

text \<open>A function that may raise, applied to the elements of a column in order: the
  results, or the first exception.\<close>

fun map_err :: "('a \<Rightarrow> py_error + 'b) \<Rightarrow> 'a list \<Rightarrow> py_error + 'b list" where
  "map_err f [] = Inr []"
| "map_err f (x # xs) =
     (case f x of
        Inl e \<Rightarrow> Inl e
      | Inr y \<Rightarrow> (case map_err f xs of Inl e \<Rightarrow> Inl e | Inr ys \<Rightarrow> Inr (y # ys)))"

text \<open>\<^verbatim>\<open>pd.to_datetime\<close> on a column of a frame: the library's answer, which has a
  cell for each cell of the column.\<close>

definition to_datetime_column :: "pylib \<Rightarrow> json list \<Rightarrow> py_error + datetime_column" where
  "to_datetime_column lib cells =
     (case to_datetime lib cells of
        Inl e \<Rightarrow> Inl e
      | Inr col \<Rightarrow> if length (stamps col) = length cells then Inr col else Inl Unmodelled)"

text \<open>\<^verbatim>\<open>Series.max()\<close> of a datetime column: \<^verbatim>\<open>NaT\<close> cells are skipped, and the
  maximum of no cell is \<^verbatim>\<open>NaT\<close>.\<close>

fun series_max :: "int option list \<Rightarrow> int option" where
  "series_max [] = None"
| "series_max (None # xs) = series_max xs"
| "series_max (Some t # xs) =
     (case series_max xs of None \<Rightarrow> Some t | Some m \<Rightarrow> Some (max t m))"

text \<open>Lines 136--146. \<^verbatim>\<open>pd.DataFrame(csv_rows)\<close> of an empty list has no columns, so
  \<^verbatim>\<open>df_tweets['created_at']\<close> on line 146 raises \<^verbatim>\<open>KeyError\<close>.\<close>

definition created_at_dt :: "pylib \<Rightarrow> tweet_row list \<Rightarrow> py_error + datetime_column" where
  "created_at_dt lib csv_rows =
     (if csv_rows = [] then Inl KeyError
      else to_datetime_column lib (map t_created_at csv_rows))"

text \<open>Lines 150--153 on the column of line 146. \<open>now\<close> is the clock read by
  \<^verbatim>\<open>datetime.now(timezone.utc)\<close>.\<close>

definition reference_date :: "int \<Rightarrow> tweet_row list \<Rightarrow> datetime_column \<Rightarrow> int option" where
  "reference_date now csv_rows col =
     (if csv_rows \<noteq> [] then series_max (stamps col) else Some now)"

text \<open>Lines 136--153: the value of \<^verbatim>\<open>dataset_end_date\<close>.\<close>

definition dataset_end_date :: "pylib \<Rightarrow> int \<Rightarrow> tweet_row list \<Rightarrow> py_error + int option" where
  "dataset_end_date lib now csv_rows =
     (case created_at_dt lib csv_rows of
        Inl e \<Rightarrow> Inl e
      | Inr col \<Rightarrow> Inr (reference_date now csv_rows col))"

text \<open>Line 160: \<^verbatim>\<open>fillna("").apply(len)\<close> on one cell of \<^verbatim>\<open>tweet_text\<close>.\<close>

definition text_len :: "json \<Rightarrow> py_error + nat" where
  "text_len v = (if v = JNull then py_len (JStr []) else py_len v)"

text \<open>The range of a 64-bit signed integer, and the value a sum takes in it: numpy
  adds int64 cells without a check, so the sum wraps.\<close>

definition in_int64 :: "int \<Rightarrow> bool" where
  "in_int64 n \<longleftrightarrow> - (2 ^ 63) \<le> n \<and> n < 2 ^ 63"

definition wrap_int64 :: "int \<Rightarrow> int" where
  "wrap_int64 n = (n + 2 ^ 63) mod 2 ^ 64 - 2 ^ 63"

text \<open>\<^verbatim>\<open>int.bit_length\<close> of a positive integer: the number of its binary digits.\<close>

function bit_length :: "int \<Rightarrow> nat" where
  "bit_length n = (if n \<le> 0 then 0 else Suc (bit_length (n div 2)))"
  by auto

termination bit_length
  by (relation "measure nat") auto

declare bit_length.simps [simp del]

text \<open>An integer stored in a float64 cell: the nearest number with 53 significant
  binary digits, a tie going to the even one. Integers of at most 53 digits are kept;
  the integers of the int64 range are far from the largest float.\<close>

definition float64_round_int :: "int \<Rightarrow> int" where
  "float64_round_int n =
     (let a = \<bar>n\<bar>;
          e = bit_length a
      in if e \<le> 53 then n
         else (let k = e - 53;
                   q = a div 2 ^ k;
                   r = a mod 2 ^ k;
                   half = 2 ^ (k - 1);
                   q = (if r > half \<or> (r = half \<and> odd q) then q + 1 else q)
               in sgn n * (q * 2 ^ k)))"

text \<open>A cell of a count column of \<^verbatim>\<open>df_tweets\<close>. The column is an int64 column when
  every cell is an integer of that range; other columns are outside the model.\<close>

fun count_cell :: "json \<Rightarrow> py_error + int" where
  "count_cell (JInt n) = (if in_int64 n then Inr n else Inl Unmodelled)"
| "count_cell _ = Inl Unmodelled"

text \<open>One row of \<^verbatim>\<open>tweet_features\<close>, after the renaming of lines 170--175.\<close>

record tweet_feature =
  g_user_id :: int
  g_total_likes_received :: int
  g_total_replies_received :: int
  g_avg_tweet_text_length :: rat
  g_obs_tweet_count :: nat

text \<open>The aggregation of one group (lines 163--168), over the rows of \<^verbatim>\<open>df_tweets\<close>
  paired with their \<^verbatim>\<open>text_len\<close>: the int64 sums of the two counts, the mean of the
  text lengths (in the rationals) and pandas' \<^verbatim>\<open>count\<close> of \<^verbatim>\<open>tweet_id\<close>, which counts
  the cells that are not null.\<close>

definition group_agg :: "(tweet_row \<times> nat) list \<Rightarrow> int \<Rightarrow> py_error + tweet_feature" where
  "group_agg df k =
     (let g = filter (\<lambda>(r, n). t_user_id r = k) df
      in case map_err count_cell (map (\<lambda>(r, n). t_like_count r) g) of
           Inl e \<Rightarrow> Inl e
         | Inr likes \<Rightarrow>
        (case map_err count_cell (map (\<lambda>(r, n). t_reply_count r) g) of
           Inl e \<Rightarrow> Inl e
         | Inr replies \<Rightarrow>
             Inr \<lparr>g_user_id = k,
                  g_total_likes_received = wrap_int64 (sum_list likes),
                  g_total_replies_received = wrap_int64 (sum_list replies),
                  g_avg_tweet_text_length = of_nat (sum_list (map snd g)) / of_nat (length g),
                  g_obs_tweet_count = length (filter (\<lambda>(r, n). t_tweet_id r \<noteq> JNull) g)\<rparr>))"

text \<open>\<^verbatim>\<open>groupby('user_id').agg(...).reset_index()\<close>: one row per user id of the frame, in
  ascending order of the id.\<close>

definition groupby_agg :: "(tweet_row \<times> nat) list \<Rightarrow> py_error + tweet_feature list" where
  "groupby_agg df = map_err (group_agg df) (sort (remdups (map (\<lambda>(r, n). t_user_id r) df)))"

text \<open>\<^verbatim>\<open>left.merge(right, on='user_id', how='left')\<close>, for both stages: every left
  row, in order, once for each right row with its key, and once with no right row when
  there is none. A right key may be \<^verbatim>\<open><NA>\<close> (\<open>None\<close>), which matches no left key.\<close>

definition merge_left :: "('a \<Rightarrow> int) \<Rightarrow> ('b \<Rightarrow> int option) \<Rightarrow> 'a list \<Rightarrow> 'b list \<Rightarrow> ('a \<times> 'b option) list" where
  "merge_left lkey rkey left right =
     concat (map (\<lambda>x. case filter (\<lambda>y. rkey y = Some (lkey x)) right of
                         [] \<Rightarrow> [(x, None)]
                       | ms \<Rightarrow> map (\<lambda>y. (x, Some y)) ms) left)"

text \<open>A row of \<^verbatim>\<open>final_df\<close> with every column the script gives it. \<open>None\<close> in a
  datetime or float column is \<^verbatim>\<open>NaT\<close> or \<^verbatim>\<open>NaN\<close>.\<close>

record final_row =
  f_user_id :: int
  f_profile_completeness_score :: int
  f_follower_following_ratio :: rat
  f_user_created_at :: json
  f_total_likes_received :: int
  f_total_replies_received :: int
  f_avg_tweet_text_length :: rat
  f_obs_tweet_count :: nat
  f_user_created_at_dt :: "int option"
  f_account_age_days :: "int option"
  f_avg_tweets_per_day :: "rat option"

text \<open>A sum column of \<^verbatim>\<open>tweet_features\<close> after the left merge and the fill of lines
  179--188. When some user has no row of \<^verbatim>\<open>tweet_features\<close> the merge puts \<^verbatim>\<open>NaN\<close> in the
  column, which makes it a float64 column: every sum is then stored as a float, and the
  fill writes 0 for \<^verbatim>\<open>NaN\<close>. When every user has a row the column stays int64.\<close>

definition merged_sum :: "bool \<Rightarrow> int option \<Rightarrow> int" where
  "merged_sum has_nan v =
     (case v of None \<Rightarrow> 0 | Some n \<Rightarrow> if has_nan then float64_round_int n else n)"

text \<open>Line 199 on one cell: \<^verbatim>\<open>(dataset_end_date - created).dt.days\<close>, the whole days of
  the difference, rounded down; \<^verbatim>\<open>NaN\<close> when either side is \<^verbatim>\<open>NaT\<close>. A difference
  outside the range of \<^verbatim>\<open>Timedelta\<close> is outside the model.\<close>

definition timedelta_days :: "int option \<Rightarrow> int option \<Rightarrow> py_error + int option" where
  "timedelta_days end_date created =
     (case (end_date, created) of
        (Some e, Some c) \<Rightarrow>
          if \<bar>e - c\<bar> < 2 ^ 63 then Inr (Some ((e - c) div 86400000000000))
          else Inl Unmodelled
      | _ \<Rightarrow> Inr None)"

text \<open>Line 202: \<^verbatim>\<open>clip(lower=1)\<close>, which leaves \<^verbatim>\<open>NaN\<close> as it is.\<close>

definition clip_lower :: "int \<Rightarrow> int option \<Rightarrow> int option" where
  "clip_lower lo v = map_option (max lo) v"

text \<open>Lines 179--204 for one merged row, its parsed \<^verbatim>\<open>user_created_at\<close> and the days of
  line 199. The count of tweets is kept as it is in a float64 column: a frame has fewer
  than \<open>2 ^ 53\<close> rows.\<close>

definition final_row_of :: "bool \<Rightarrow> (user_row \<times> tweet_feature option) \<times> int option \<times> int option \<Rightarrow> final_row" where
  "final_row_of has_nan x =
     (case x of ((u, g), created_dt, days) \<Rightarrow>
        (let likes = merged_sum has_nan (map_option g_total_likes_received g);
             replies = merged_sum has_nan (map_option g_total_replies_received g);
             avg_len = (case g of None \<Rightarrow> 0 | Some f \<Rightarrow> g_avg_tweet_text_length f);
             obs = (case g of None \<Rightarrow> 0 | Some f \<Rightarrow> g_obs_tweet_count f);
             age = clip_lower 1 days
         in \<lparr>f_user_id = u_user_id u,
             f_profile_completeness_score = u_profile_completeness_score u,
             f_follower_following_ratio = u_follower_following_ratio u,
             f_user_created_at = u_user_created_at u,
             f_total_likes_received = likes,
             f_total_replies_received = replies,
             f_avg_tweet_text_length = avg_len,
             f_obs_tweet_count = obs,
             f_user_created_at_dt = created_dt,
             f_account_age_days = age,
             f_avg_tweets_per_day = map_option (\<lambda>d. of_nat obs / of_int d) age\<rparr>))"

text \<open>Lines 136--204: from \<^verbatim>\<open>users_data\<close> and \<^verbatim>\<open>csv_rows\<close> to \<^verbatim>\<open>final_df\<close>.
  \<^verbatim>\<open>pd.DataFrame(users_data)\<close> of an empty list has no column \<^verbatim>\<open>user_id\<close>, so the merge
  on it raises \<^verbatim>\<open>KeyError\<close>. The subtraction of line 199 raises \<^verbatim>\<open>TypeError\<close> when one
  of the reference date and the column carries a time zone and the other does not; the
  reference date carries the time zone of the tweets' column, and \<^verbatim>\<open>NaT\<close> carries
  none.\<close>

definition compute_features :: "pylib \<Rightarrow> int \<Rightarrow> user_row list \<Rightarrow> tweet_row list \<Rightarrow> py_error + final_row list" where
  "compute_features lib now users_data csv_rows =
     (case created_at_dt lib csv_rows of
        Inl e \<Rightarrow> Inl e
      | Inr tweets_dt \<Rightarrow>
     (let end_date = reference_date now csv_rows tweets_dt
      in case map_err text_len (map t_tweet_text csv_rows) of
        Inl e \<Rightarrow> Inl e
      | Inr lens \<Rightarrow>
     (case groupby_agg (zip csv_rows lens) of
        Inl e \<Rightarrow> Inl e
      | Inr tweet_features \<Rightarrow>
          if users_data = [] then Inl KeyError
          else
            (let merged = merge_left u_user_id (\<lambda>g. Some (g_user_id g)) users_data tweet_features;
                 has_nan = list_ex (\<lambda>(u, g). g = None) merged
             in case to_datetime_column lib (map (\<lambda>(u, g). u_user_created_at u) merged) of
                  Inl e \<Rightarrow> Inl e
                | Inr users_dt \<Rightarrow>
                    if end_date \<noteq> None \<and> tz_aware tweets_dt \<noteq> tz_aware users_dt
                    then Inl TypeError
                    else (case map_err (timedelta_days end_date) (stamps users_dt) of
                            Inl e \<Rightarrow> Inl e
                          | Inr days \<Rightarrow>
                              Inr (map (final_row_of has_nan)
                                     (zip merged (zip (stamps users_dt) days))))))))"

text \<open>The whole of \<^verbatim>\<open>main\<close> up to \<^verbatim>\<open>final_df\<close>: the ids file and the users file as the
  JSON arrays they hold, the tweet file as its lines. Printing is not modelled, and the
  intermediate file the script writes on line 139 is the result of \<open>stream_tweets\<close>.\<close>

definition stage_a_frame :: "pylib \<Rightarrow> int \<Rightarrow> json list \<Rightarrow> json list \<Rightarrow> string list \<Rightarrow> py_error + final_row list" where
  "stage_a_frame lib now selected_ids_list all_users tweet_lines =
     (case load_selected_ids lib selected_ids_list of
        Inl e \<Rightarrow> Inl e
      | Inr selected_ids \<Rightarrow>
     (case process_users lib selected_ids all_users of
        Inl e \<Rightarrow> Inl e
      | Inr users_data \<Rightarrow>
     (case stream_tweets lib selected_ids tweet_lines of
        Inl e \<Rightarrow> Inl e
      | Inr csv_rows \<Rightarrow> compute_features lib now users_data csv_rows)))"

text \<open>A row of the final Stage A table, \<^verbatim>\<open>final_features.csv\<close>: \<^verbatim>\<open>user_id\<close> and the six
  feature columns in the order of \<^verbatim>\<open>feature_columns\<close>.\<close>

record feature_row =
  user_id :: int
  profile_completeness_score :: int
  total_likes_received :: int
  total_replies_received :: int
  avg_tweets_per_day :: "rat option"
  avg_tweet_text_length :: rat
  follower_following_ratio :: rat

definition output_row :: "final_row \<Rightarrow> feature_row" where
  "output_row r =
     \<lparr>user_id = f_user_id r,
      profile_completeness_score = f_profile_completeness_score r,
      total_likes_received = f_total_likes_received r,
      total_replies_received = f_total_replies_received r,
      avg_tweets_per_day = f_avg_tweets_per_day r,
      avg_tweet_text_length = f_avg_tweet_text_length r,
      follower_following_ratio = f_follower_following_ratio r\<rparr>"

definition stage_a :: "pylib \<Rightarrow> int \<Rightarrow> json list \<Rightarrow> json list \<Rightarrow> string list \<Rightarrow> py_error + feature_row list" where
  "stage_a lib now selected_ids_list all_users tweet_lines =
     (case stage_a_frame lib now selected_ids_list all_users tweet_lines of
        Inl e \<Rightarrow> Inl e
      | Inr final_df \<Rightarrow> Inr (map output_row final_df))"

section \<open>Stage B: split and label augmentation (augment_features.py)\<close>

subsection \<open>Key normalization\<close>

text \<open>\<^verbatim>\<open>str.replace('u', '', regex=False)\<close> on one key: every occurrence of the letter
  \<^verbatim>\<open>u\<close> is removed, wherever it stands.\<close>

definition replace_u :: "string \<Rightarrow> string" where
  "replace_u s = filter (\<lambda>c. c \<noteq> CHR ''u'') s"

text \<open>The integers among the cells of a column, in order.\<close>

primrec int_lits :: "pd_numeric list \<Rightarrow> int list" where
  "int_lits [] = []"
| "int_lits (c # cs) = (case c of IntLit n x \<Rightarrow> n # int_lits cs | _ \<Rightarrow> int_lits cs)"

text \<open>A cell of a float64 column cast by \<^verbatim>\<open>.astype('Int64')\<close>: \<^verbatim>\<open>NaN\<close> becomes
  \<^verbatim>\<open><NA>\<close>, and the float read in an integer literal becomes the integer it is. A float
  outside the int64 range is outside the model.\<close>

definition float_cell_Int64 :: "pd_numeric \<Rightarrow> py_error + int option" where
  "float_cell_Int64 c =
     (case c of
        IntLit n x \<Rightarrow> if in_int64 x then Inr (Some x) else Inl Unmodelled
      | _ \<Rightarrow> Inr None)"

text \<open>\<^verbatim>\<open>pd.to_numeric(column, errors='coerce').astype('Int64')\<close> (line 21) on a column
  of strings, given what each cell reads as. pandas converts the column as a whole:
  \<^item> a cell that is not numeric is coerced to \<^verbatim>\<open>NaN\<close>, and one \<^verbatim>\<open>NaN\<close> makes the column
    float64, so that every integer of the column is the float read in it, a rounded
    value above \<open>2 ^ 53\<close>, before the cast;
  \<^item> a column of integers of the int64 range is an int64 column, cast as it is;
  \<^item> a column of integers that are not negative and below \<open>2 ^ 64\<close>, one of them
    \<open>2 ^ 63\<close> or more, is a uint64 column, and the cast raises \<^verbatim>\<open>TypeError\<close>;
  \<^item> other columns (a float literal, \<^verbatim>\<open>inf\<close>, larger integers) are outside the model.\<close>

definition to_numeric_Int64 :: "pd_numeric list \<Rightarrow> py_error + int option list" where
  "to_numeric_Int64 cells =
     (if OtherNumber \<in> set cells then Inl Unmodelled
      else if NotNumeric \<in> set cells then map_err float_cell_Int64 cells
      else if list_all in_int64 (int_lits cells) then Inr (map Some (int_lits cells))
      else if list_all (\<lambda>n. 0 \<le> n \<and> n < 2 ^ 64) (int_lits cells) then Inl TypeError
      else Inl Unmodelled)"

text \<open>\<^verbatim>\<open>normalize_id\<close> (lines 14--22) on the key column of a table of (key, value) rows.
  The keys are strings already: line 19 applies \<^verbatim>\<open>astype(str)\<close> first.\<close>

definition normalize_id :: "pylib \<Rightarrow> (string \<times> 'v) list \<Rightarrow> py_error + (int option \<times> 'v) list" where
  "normalize_id lib df =
     (case to_numeric_Int64 (map (\<lambda>(k, v). to_numeric lib (replace_u k)) df) of
        Inl e \<Rightarrow> Inl e
      | Inr ids \<Rightarrow> Inr (zip ids (map snd df)))"

subsection \<open>Join, fill and partition\<close>

text \<open>A row of the augmented table: the columns of the feature table, then
  \<^verbatim>\<open>split\<close> and \<^verbatim>\<open>label\<close>.\<close>

record augmented_row = feature_row +
  split :: string
  label :: string

text \<open>\<^verbatim>\<open>fillna('unknown')\<close> on one cell; \<open>None\<close> is \<^verbatim>\<open>NaN\<close>.\<close>

definition fillna_unknown :: "string option \<Rightarrow> string" where
  "fillna_unknown v = (case v of None \<Rightarrow> ''unknown'' | Some s \<Rightarrow> s)"

text \<open>The cell a left join gives a row: the cell of the matched right row (which may
  itself be empty), or \<^verbatim>\<open>NaN\<close> without a match.\<close>

definition joined_cell :: "(int option \<times> string option) option \<Rightarrow> string option" where
  "joined_cell m = (case m of None \<Rightarrow> None | Some (k, v) \<Rightarrow> v)"

text \<open>Lines 54--61: the two left joins and the two fills.\<close>

definition merge_and_fill ::
  "feature_row list \<Rightarrow> (int option \<times> string option) list \<Rightarrow> (int option \<times> string option) list
     \<Rightarrow> augmented_row list" where
  "merge_and_fill df_features df_split df_label =
     (let df_merged = merge_left user_id fst df_features df_split;
          df_merged = merge_left (\<lambda>(f, s). user_id f) fst df_merged df_label
      in map (\<lambda>((f, s), l).
                \<lparr>user_id = user_id f,
                 profile_completeness_score = profile_completeness_score f,
                 total_likes_received = total_likes_received f,
                 total_replies_received = total_replies_received f,
                 avg_tweets_per_day = avg_tweets_per_day f,
                 avg_tweet_text_length = avg_tweet_text_length f,
                 follower_following_ratio = follower_following_ratio f,
                 split = fillna_unknown (joined_cell s),
                 label = fillna_unknown (joined_cell l)\<rparr>) df_merged)"

text \<open>What the script prints: a line of text, or the head of a frame.\<close>

datatype printed = Msg string | Head "augmented_row list"

text \<open>\<^verbatim>\<open>str(n)\<close> for a length.\<close>

fun str_nat :: "nat \<Rightarrow> string" where
  "str_nat n =
     (if n < 10 then [char_of (48 + n)]
      else str_nat (n div 10) @ [char_of (48 + n mod 10)])"

text \<open>The effects of a run: the lines printed and the files written, in order.\<close>

record run_b =
  stdout :: "printed list"
  files :: "(string \<times> augmented_row list) list"

text \<open>The paths of lines 5--12 and the lists of lines 71--72.\<close>

definition FINAL_FEATURES_PATH :: string where "FINAL_FEATURES_PATH = ''final_features.csv''"
definition SPLIT_PATH :: string where "SPLIT_PATH = ''../TwiBot-22/split.csv''"
definition LABEL_PATH :: string where "LABEL_PATH = ''../TwiBot-22/label.csv''"
definition OUTPUT_FULL :: string where "OUTPUT_FULL = ''final_features_with_split_and_label.csv''"
definition OUTPUT_TRAIN :: string where "OUTPUT_TRAIN = ''train_features.csv''"
definition OUTPUT_VAL :: string where "OUTPUT_VAL = ''val_features.csv''"
definition OUTPUT_TEST :: string where "OUTPUT_TEST = ''test_features.csv''"

definition splits :: "string list" where "splits = [''train'', ''val'', ''test'']"
definition files_list :: "string list" where "files_list = [OUTPUT_TRAIN, OUTPUT_VAL, OUTPUT_TEST]"

text \<open>The loop of lines 74--77 over \<^verbatim>\<open>zip(splits, files)\<close>.\<close>

fun save_subsets :: "augmented_row list \<Rightarrow> (string \<times> string) list \<Rightarrow> run_b \<Rightarrow> run_b" where
  "save_subsets df_merged [] st = st"
| "save_subsets df_merged ((split_name, file_name) # rest) st =
     (let subset = filter (\<lambda>r. split r = split_name) df_merged
      in save_subsets df_merged rest
           \<lparr>stdout = stdout st @
              [Msg (''Saving '' @ split_name @ '' subset ('' @ str_nat (length subset) @
                    '' rows) to '' @ file_name @ ''...'')],
            files = files st @ [(file_name, subset)]\<rparr>)"

text \<open>One of the two optional tables (lines 33--40 and 42--49): \<open>None\<close> is a file that
  does not exist. The table with its key column normalized, and what is printed;
  \<open>what\<close> and \<open>warning\<close> are the words of the two messages.\<close>

definition load_optional ::
  "pylib \<Rightarrow> string \<Rightarrow> string \<Rightarrow> (string \<times> string option) list option
     \<Rightarrow> py_error + (int option \<times> string option) list \<times> printed list" where
  "load_optional lib what warning file =
     (case file of
        Some df \<Rightarrow>
          (case normalize_id lib df of
             Inl e \<Rightarrow> Inl e
           | Inr df' \<Rightarrow> Inr (df', [Msg (''Loaded '' @ what @ '': '' @ str_nat (length df) @ '' rows'')]))
      | None \<Rightarrow> Inr ([], [Msg warning]))"

definition split_warning :: string where
  "split_warning = ''Warning: '' @ SPLIT_PATH @ '' not found. Splits will be unknown.''"

definition label_warning :: string where
  "label_warning = ''Warning: '' @ LABEL_PATH @ '' not found. Labels will be unknown.''"

text \<open>\<^verbatim>\<open>main\<close> of Stage B. \<open>features\<close> is \<^verbatim>\<open>final_features.csv\<close> as \<^verbatim>\<open>read_csv\<close> gives
  it, \<open>split_file\<close> and \<open>label_file\<close> are the (id, split) and (id, label) tables with their
  empty cells as \<open>None\<close>; each of the three is \<open>None\<close> when the file does not exist.\<close>

definition stage_b ::
  "pylib \<Rightarrow> feature_row list option \<Rightarrow> (string \<times> string option) list option
     \<Rightarrow> (string \<times> string option) list option \<Rightarrow> py_error + run_b" where
  "stage_b lib features split_file label_file =
     (case features of
        None \<Rightarrow>
          Inr \<lparr>stdout = [Msg ''Loading files...'',
                         Msg (''Error: '' @ FINAL_FEATURES_PATH @ '' not found.'')],
               files = []\<rparr>
      | Some df_features \<Rightarrow>
     (case load_optional lib ''split'' split_warning split_file of
        Inl e \<Rightarrow> Inl e
      | Inr (df_split, out_split) \<Rightarrow>
     (case load_optional lib ''labels'' label_warning label_file of
        Inl e \<Rightarrow> Inl e
      | Inr (df_label, out_label) \<Rightarrow>
          (let df_merged = merge_and_fill df_features df_split df_label;
               st = save_subsets df_merged (zip splits files_list)
                     \<lparr>stdout =
                        [Msg ''Loading files...'',
                         Msg (''Loaded features: '' @ str_nat (length df_features) @ '' rows'')]
                        @ out_split @ out_label @
                        [Msg ''Merging data...'', Msg ''Sample of merged data:'',
                         Head (take 5 df_merged),
                         Msg (''Saving merged data to '' @ OUTPUT_FULL @ ''...'')],
                      files = [(OUTPUT_FULL, df_merged)]\<rparr>
           in Inr (st\<lparr>stdout := stdout st @ [Msg ''Done.'']\<rparr>)))))"

section \<open>Notions the properties are stated with\<close>

text \<open>A profile field is present when \<^verbatim>\<open>u.get(k)\<close> is not \<^verbatim>\<open>None\<close>: the key is there
  and its value is not \<^verbatim>\<open>null\<close>.\<close>

definition field_present :: "(string \<times> json) list \<Rightarrow> string \<Rightarrow> bool" where
  "field_present u k \<longleftrightarrow> dict_get u k \<noteq> JNull"

definition plus_one_if :: "bool \<Rightarrow> int" where
  "plus_one_if b = (if b then 1 else 0)"

text \<open>A value is non-empty when it has a length and the length is positive.\<close>

definition nonempty :: "json \<Rightarrow> bool" where
  "nonempty v \<longleftrightarrow> (case py_len v of Inl e \<Rightarrow> False | Inr n \<Rightarrow> 0 < n)"

text \<open>The completeness score as the specification words it: one point for each of
  verified being exactly true, a description that is present, a description that is
  present and non-empty, a profile image URL that is present, a location that is
  present.\<close>

definition completeness_points :: "(string \<times> json) list \<Rightarrow> int" where
  "completeness_points u =
     plus_one_if (dict_get u ''verified'' = JBool True)
     + plus_one_if (field_present u ''description'')
     + plus_one_if (field_present u ''description'' \<and> nonempty (dict_get u ''description''))
     + plus_one_if (field_present u ''profile_image_url'')
     + plus_one_if (field_present u ''location'')"

text \<open>Line 30: the id of a user record, \<^verbatim>\<open>int(u['id'])\<close>.\<close>

definition user_id_of :: "pylib \<Rightarrow> json \<Rightarrow> py_error + int" where
  "user_id_of lib u =
     (case py_getitem u ''id'' of Inl e \<Rightarrow> Inl e | Inr idv \<Rightarrow> py_int lib idv)"

text \<open>The selected records of the users file, in order: the records whose id line 30
  reads and line 31 finds in the selected set.\<close>

definition selected_records :: "pylib \<Rightarrow> int list \<Rightarrow> json list \<Rightarrow> (int \<times> (string \<times> json) list) list" where
  "selected_records lib selected_ids all_users =
     concat (map (\<lambda>u. case u of
                         JObj kvs \<Rightarrow>
                           (case user_id_of lib u of
                              Inr uid \<Rightarrow> if uid \<in> set selected_ids then [(uid, kvs)] else []
                            | Inl e \<Rightarrow> [])
                       | _ \<Rightarrow> []) all_users)"

text \<open>The feature columns of an augmented row.\<close>

definition features_of :: "augmented_row \<Rightarrow> feature_row" where
  "features_of r =
     \<lparr>user_id = user_id r,
      profile_completeness_score = profile_completeness_score r,
      total_likes_received = total_likes_received r,
      total_replies_received = total_replies_received r,
      avg_tweets_per_day = avg_tweets_per_day r,
      avg_tweet_text_length = avg_tweet_text_length r,
      follower_following_ratio = follower_following_ratio r\<rparr>"

text \<open>An optional table as the joins use it (lines 33--49), apart from what is printed:
  the table with its key column normalized, the empty table for a missing file.\<close>

definition normalized_table ::
  "pylib \<Rightarrow> (string \<times> string option) list option \<Rightarrow> py_error + (int option \<times> string option) list" where
  "normalized_table lib file = (case file of None \<Rightarrow> Inr [] | Some df \<Rightarrow> normalize_id lib df)"

text \<open>The keys of a normalized table that are integers.\<close>

definition int_keys :: "(int option \<times> 'v) list \<Rightarrow> int list" where
  "int_keys tbl = concat (map (\<lambda>(k, v). case k of None \<Rightarrow> [] | Some n \<Rightarrow> [n]) tbl)"

text \<open>The user ids an optional table has a row for, after the normalization of its key
  column; none for a missing file.\<close>

definition table_keys :: "pylib \<Rightarrow> (string \<times> string option) list option \<Rightarrow> int list" where
  "table_keys lib file =
     (case normalized_table lib file of Inl e \<Rightarrow> [] | Inr tbl \<Rightarrow> int_keys tbl)"

text \<open>How many rows a left join gives a feature row: one for each row of the table
  with its key, and one when there is none. \<open>join_count\<close> counts on the table as read,
  \<open>matches\<close> on the table with its keys normalized.\<close>

definition join_count :: "pylib \<Rightarrow> (string \<times> string option) list option \<Rightarrow> int \<Rightarrow> nat" where
  "join_count lib file k = max 1 (count_list (table_keys lib file) k)"

definition matches :: "(int option \<times> string option) list \<Rightarrow> feature_row \<Rightarrow> nat" where
  "matches tbl f = max 1 (length (filter (\<lambda>y. fst y = Some (user_id f)) tbl))"

text \<open>What is read as a number in a key, as the specification words it, for comparison
  with \<open>normalize_id\<close>: a one-character alphabetic prefix is dropped, whatever the letter.\<close>

definition is_alpha :: "char \<Rightarrow> bool" where
  "is_alpha c \<longleftrightarrow>
     (97 \<le> (of_char c :: nat) \<and> (of_char c :: nat) \<le> 122) \<or>
     (65 \<le> (of_char c :: nat) \<and> (of_char c :: nat) \<le> 90)"

definition prefix_strip_spec :: "string \<Rightarrow> string" where
  "prefix_strip_spec s = (case s of c # rest \<Rightarrow> if is_alpha c then rest else s | [] \<Rightarrow> s)"

text \<open>The same as the docstring of \<^verbatim>\<open>normalize_id\<close> words it: the prefix is the letter
  \<^verbatim>\<open>u\<close>.\<close>

definition strip_u_prefix :: "string \<Rightarrow> string" where
  "strip_u_prefix s = (case s of c # rest \<Rightarrow> if c = CHR ''u'' then rest else s | [] \<Rightarrow> s)"

text \<open>The integer a cell reads as; \<open>None\<close>, the marker \<^verbatim>\<open><NA>\<close>, for a cell that is not an
  integer literal.\<close>

definition lit_value :: "pd_numeric \<Rightarrow> int option" where
  "lit_value c = (case c of IntLit n x \<Rightarrow> Some n | _ \<Rightarrow> None)"

text \<open>The key of a table row as a number, after the prefix \<^verbatim>\<open>u\<close> is stripped.\<close>

definition key_number :: "pylib \<Rightarrow> string \<Rightarrow> pd_numeric" where
  "key_number lib k = to_numeric lib (strip_u_prefix k)"

text \<open>The author of the tweet a line of the stream holds: \<open>None\<close> for a line that is
  skipped and for one without an author id that \<^verbatim>\<open>int\<close> accepts.\<close>

definition line_author :: "pylib \<Rightarrow> string \<Rightarrow> int option" where
  "line_author lib line =
     (let tweet = parse_line lib line
      in if tweet = JNull then None
         else (case py_getitem tweet ''author_id'' of
                 Inl e \<Rightarrow> None
               | Inr a \<Rightarrow> (case py_int lib a of Inl e \<Rightarrow> None | Inr n \<Rightarrow> Some n)))"

text \<open>The whole days from the creation of an account to the reference date, rounded
  down; \<open>None\<close> when one of the two is \<^verbatim>\<open>NaT\<close>.\<close>

definition whole_days :: "int option \<Rightarrow> int option \<Rightarrow> int option" where
  "whole_days end_date created =
     (case (end_date, created) of
        (Some e, Some c) \<Rightarrow> Some ((e - c) div 86400000000000)
      | _ \<Rightarrow> None)"

text \<open>The tweet id of the tweet a line of the stream holds, \<^verbatim>\<open>tweet['id']\<close>; \<open>JNull\<close> is
  the id \<^verbatim>\<open>null\<close>, and stands for a line without one too.\<close>

definition line_tweet_id :: "pylib \<Rightarrow> string \<Rightarrow> json" where
  "line_tweet_id lib line =
     (case py_getitem (parse_line lib line) ''id'' of Inl e \<Rightarrow> JNull | Inr v \<Rightarrow> v)"

text \<open>The intermediate table that line 139 writes in a run that gets that far: the rows
  collected from the stream.\<close>

definition stage_a_intermediate :: "pylib \<Rightarrow> json list \<Rightarrow> json list \<Rightarrow> string list \<Rightarrow> py_error + tweet_row list" where
  "stage_a_intermediate lib selected_ids_list all_users tweet_lines =
     (case load_selected_ids lib selected_ids_list of
        Inl e \<Rightarrow> Inl e
      | Inr selected_ids \<Rightarrow>
     (case process_users lib selected_ids all_users of
        Inl e \<Rightarrow> Inl e
      | Inr users_data \<Rightarrow> stream_tweets lib selected_ids tweet_lines))"

section \<open>Example inputs\<close>

text \<open>Two lines of a tweet file, each with the value \<^verbatim>\<open>json.loads\<close> returns on it. The
  second tweet gives its author as a string and has no \<^verbatim>\<open>public_metrics\<close>.\<close>

definition tweet_a_text :: string where
  \<open>tweet_a_text = ''{"id": 10, "author_id": 1, "text": "hello", "created_at": "2020-01-03 00:00:00+00:00", "public_metrics": {"like_count": 3, "reply_count": 1}}''\<close>

definition tweet_a :: json where
  "tweet_a = JObj [(''id'', JInt 10), (''author_id'', JInt 1), (''text'', JStr ''hello''),
     (''created_at'', JStr ''2020-01-03 00:00:00+00:00''),
     (''public_metrics'', JObj [(''like_count'', JInt 3), (''reply_count'', JInt 1)])]"

definition tweet_b_text :: string where
  \<open>tweet_b_text = ''{"id": 11, "author_id": "1", "text": "bye", "created_at": "2020-01-02 00:00:00+00:00"}''\<close>

definition tweet_b :: json where
  "tweet_b = JObj [(''id'', JInt 11), (''author_id'', JStr ''1''), (''text'', JStr ''bye''),
     (''created_at'', JStr ''2020-01-02 00:00:00+00:00'')]"

text \<open>A third line: a tweet of user 1 whose id is \<^verbatim>\<open>null\<close>.\<close>

definition tweet_c_text :: string where
  \<open>tweet_c_text = ''{"id": null, "author_id": 1, "text": "again", "created_at": "2020-01-03 00:00:00+00:00"}''\<close>

definition tweet_c :: json where
  "tweet_c = JObj [(''id'', JNull), (''author_id'', JInt 1), (''text'', JStr ''again''),
     (''created_at'', JStr ''2020-01-03 00:00:00+00:00'')]"

text \<open>\<^verbatim>\<open>pd.to_datetime\<close> on the columns of the examples, whose cells are \<^verbatim>\<open>None\<close> or
  one of three strings, all of the format of the comment of line 71 and with the offset
  of UTC: \<^verbatim>\<open>None\<close> becomes \<^verbatim>\<open>NaT\<close>, and the column carries a time zone when it has a
  string.\<close>

definition example_to_datetime :: "json list \<Rightarrow> py_error + datetime_column" where
  "example_to_datetime cells =
     (case map_err (\<lambda>c. case c of
                          JNull \<Rightarrow> Inr None
                        | JStr s \<Rightarrow>
                            (case map_of [(''2020-01-01 00:00:00+00:00'', 1577836800000000000),
                                          (''2020-01-02 00:00:00+00:00'', 1577923200000000000),
                                          (''2020-01-03 00:00:00+00:00'', 1578009600000000000)] s of
                               None \<Rightarrow> Inl ValueError
                             | Some t \<Rightarrow> Inr (Some t))
                        | _ \<Rightarrow> Inl Unmodelled) cells of
        Inl e \<Rightarrow> Inl e
      | Inr ts \<Rightarrow> Inr \<lparr>tz_aware = list_ex (\<lambda>c. c \<noteq> JNull) cells, stamps = ts\<rparr>)"

text \<open>The library on the strings of the examples: each entry is what the Python function
  returns on that string. The examples apply \<open>json_loads\<close> and \<open>int_of_str\<close> to these strings
  and to strings that the function refuses, and \<open>to_numeric\<close> to these strings and to
  strings that are not numeric.\<close>

definition example_lib :: pylib where
  "example_lib =
     \<lparr>json_loads = map_of [(tweet_a_text, tweet_a), (tweet_b_text, tweet_b),
                           (tweet_c_text, tweet_c), (''{}'', JObj [])],
      int_of_str = map_of [(''1'', 1), (''2'', 2)],
      to_datetime = example_to_datetime,
      to_numeric =
        (\<lambda>s. case map_of [(''1'', (1, 1)), (''2'', (2, 2)), (''7'', (7, 7)), (''12'', (12, 12)),
                            (''9007199254740992'', (9007199254740992, 9007199254740992)),
                            (''9007199254740993'', (9007199254740993, 9007199254740992)),
                            (''9223372036854775808'',
                               (9223372036854775808, 9223372036854775808))] s of
                None \<Rightarrow> NotNumeric
              | Some (n, x) \<Rightarrow> IntLit n x)\<rparr>"

text \<open>Three user records: the first has every profile field, the second was created at
  the time of the last tweet and follows nobody, the third has an id and nothing else.\<close>

definition user_1_fields :: "(string \<times> json) list" where
  "user_1_fields = [(''id'', JInt 1), (''verified'', JBool True), (''description'', JStr ''bot hunter''),
     (''profile_image_url'', JStr ''http://x/1.png''), (''location'', JStr ''Kingston''),
     (''public_metrics'', JObj [(''followers_count'', JInt 10), (''following_count'', JInt 4)]),
     (''created_at'', JStr ''2020-01-01 00:00:00+00:00'')]"

definition user_1 :: json where
  "user_1 = JObj user_1_fields"

definition user_2 :: json where
  "user_2 = JObj [(''id'', JStr ''2''), (''verified'', JBool False), (''description'', JStr []),
     (''public_metrics'', JObj [(''followers_count'', JInt 5), (''following_count'', JInt 0)]),
     (''created_at'', JStr ''2020-01-03 00:00:00+00:00'')]"

definition user_3 :: json where
  "user_3 = JObj [(''id'', JInt 3)]"

text \<open>A tweet file of five lines: the opening bracket, a tweet of user 1 with a trailing
  comma, a line cut off in the middle of a record, a second tweet of user 1 and the closing
  bracket.\<close>

definition example_lines :: "string list" where
  \<open>example_lines = [''['' @ [CHR 0x0A], ''  '' @ tweet_a_text @ '','' @ [CHR 0x0A],
      ''{"id": 12, "author_id": 1, "te'', tweet_b_text @ [CHR 0x0A], '']'']\<close>

text \<open>The feature table and a split table for Stage B.\<close>

definition example_features :: "feature_row list" where
  "example_features =
     [\<lparr>user_id = 1, profile_completeness_score = 5, total_likes_received = 3,
       total_replies_received = 1, avg_tweets_per_day = Some 1, avg_tweet_text_length = 4,
       follower_following_ratio = 5 / 2\<rparr>,
      \<lparr>user_id = 2, profile_completeness_score = 1, total_likes_received = 0,
       total_replies_received = 0, avg_tweets_per_day = Some 0, avg_tweet_text_length = 0,
       follower_following_ratio = 0\<rparr>,
      \<lparr>user_id = 12, profile_completeness_score = 2, total_likes_received = 0,
       total_replies_received = 0, avg_tweets_per_day = Some 0, avg_tweet_text_length = 0,
       follower_following_ratio = 0\<rparr>]"

definition example_split :: "(string \<times> string option) list" where
  "example_split = [(''u1'', Some ''train''), (''t12'', Some ''test''), (''u7'', Some ''val'')]"

text \<open>A feature row and a split table with an id above \<open>2 ^ 53\<close> and a key that is not
  numeric.\<close>

definition example_large_features :: "feature_row list" where
  "example_large_features =
     [\<lparr>user_id = 9007199254740992, profile_completeness_score = 0, total_likes_received = 0,
       total_replies_received = 0, avg_tweets_per_day = Some 0, avg_tweet_text_length = 0,
       follower_following_ratio = 0\<rparr>]"

definition example_large_split :: "(string \<times> string option) list" where
  "example_large_split = [(''u9007199254740993'', Some ''train''), (''x'', Some ''val'')]"

text \<open>The same table with a row for the id of the feature row.\<close>

definition example_large_split2 :: "(string \<times> string option) list" where
  "example_large_split2 =
     [(''u9007199254740993'', Some ''train''), (''u9007199254740992'', Some ''val''),
      (''x'', Some ''test'')]"

section \<open>Auxiliary facts\<close>

lemma map_err_Cons_Inr:
  "map_err f (x # xs) = Inr ys \<longleftrightarrow>
     (\<exists>y ys'. f x = Inr y \<and> map_err f xs = Inr ys' \<and> ys = y # ys')"
  by (auto split: sum.splits)

lemma map_err_Inr_iff:
  "map_err f xs = Inr ys \<longleftrightarrow> list_all2 (\<lambda>x y. f x = Inr y) xs ys"
proof (induction xs arbitrary: ys)
  case Nil
  then show ?case by auto
next
  case (Cons x xs)
  show ?case
    unfolding map_err_Cons_Inr Cons.IH
    by (cases ys) auto
qed

lemma merge_left_fst:
  "(x, y) \<in> set (merge_left lk rk l r) \<Longrightarrow> x \<in> set l"
proof -
  assume "(x, y) \<in> set (merge_left lk rk l r)"
  then obtain x' where x': "x' \<in> set l"
    and mem: "(x, y) \<in> set (case filter (\<lambda>y. rk y = Some (lk x')) r of
                         [] \<Rightarrow> [(x', None)]
                       | ms \<Rightarrow> map (\<lambda>y. (x', Some y)) ms)"
    by (auto simp: merge_left_def)
  then have "x' = x"
    by (cases "filter (\<lambda>y. rk y = Some (lk x')) r") auto
  with x' show ?thesis by simp
qed

lemma merge_left_covers:
  "x \<in> set l \<Longrightarrow> \<exists>y. (x, y) \<in> set (merge_left lk rk l r)"
proof -
  assume x: "x \<in> set l"
  show ?thesis
  proof (cases "filter (\<lambda>y. rk y = Some (lk x)) r")
    case Nil
    with x have "(x, None) \<in> set (merge_left lk rk l r)"
      by (force simp: merge_left_def)
    then show ?thesis ..
  next
    case (Cons m ms)
    with x have "(x, Some m) \<in> set (merge_left lk rk l r)"
      by (force simp: merge_left_def)
    then show ?thesis ..
  qed
qed

lemma merge_left_Some:
  "(x, Some y) \<in> set (merge_left lk rk l r) \<Longrightarrow> y \<in> set r \<and> rk y = Some (lk x)"
proof -
  assume "(x, Some y) \<in> set (merge_left lk rk l r)"
  then obtain x' where x': "x' \<in> set l"
    and mem: "(x, Some y) \<in> set (case filter (\<lambda>y. rk y = Some (lk x')) r of
                         [] \<Rightarrow> [(x', None)]
                       | ms \<Rightarrow> map (\<lambda>y. (x', Some y)) ms)"
    by (auto simp: merge_left_def)
  then have "x' = x \<and> y \<in> set (filter (\<lambda>y. rk y = Some (lk x')) r)"
    by (cases "filter (\<lambda>y. rk y = Some (lk x')) r") auto
  then show ?thesis by auto
qed

lemma merge_left_None:
  "(x, None) \<in> set (merge_left lk rk l r) \<Longrightarrow> \<forall>y\<in>set r. rk y \<noteq> Some (lk x)"
proof -
  assume "(x, None) \<in> set (merge_left lk rk l r)"
  then obtain x' where x': "x' \<in> set l"
    and mem: "(x, None) \<in> set (case filter (\<lambda>y. rk y = Some (lk x')) r of
                         [] \<Rightarrow> [(x', None)]
                       | ms \<Rightarrow> map (\<lambda>y. (x', Some y)) ms)"
    by (auto simp: merge_left_def)
  then have "x' = x \<and> filter (\<lambda>y. rk y = Some (lk x')) r = []"
    by (cases "filter (\<lambda>y. rk y = Some (lk x')) r") auto
  then show ?thesis by (auto simp: filter_empty_conv)
qed

text \<open>Every row of the merged table comes from a feature row, with the cells of matching rows.\<close>
lemma merge_and_fill_row:
  assumes "r \<in> set (merge_and_fill fs sp lb)"
  shows "features_of r \<in> set fs \<and>
         ((\<exists>v. (Some (user_id r), v) \<in> set sp \<and> split r = fillna_unknown v) \<or>
          (Some (user_id r) \<notin> fst ` set sp \<and> split r = ''unknown'')) \<and>
         ((\<exists>v. (Some (user_id r), v) \<in> set lb \<and> label r = fillna_unknown v) \<or>
          (Some (user_id r) \<notin> fst ` set lb \<and> label r = ''unknown''))"
proof -
  from assms obtain f s l where
    mem: "((f, s), l) \<in> set (merge_left (\<lambda>(f, s). user_id f) fst (merge_left user_id fst fs sp) lb)"
    and r: "r = \<lparr>user_id = user_id f,
                 profile_completeness_score = profile_completeness_score f,
                 total_likes_received = total_likes_received f,
                 total_replies_received = total_replies_received f,
                 avg_tweets_per_day = avg_tweets_per_day f,
                 avg_tweet_text_length = avg_tweet_text_length f,
                 follower_following_ratio = follower_following_ratio f,
                 split = fillna_unknown (joined_cell s),
                 label = fillna_unknown (joined_cell l)\<rparr>"
    by (auto simp: merge_and_fill_def Let_def)
  from mem have fs: "(f, s) \<in> set (merge_left user_id fst fs sp)"
    by (rule merge_left_fst)
  then have f: "f \<in> set fs" by (rule merge_left_fst)
  have feat: "features_of r = f" by (simp add: r features_of_def)
  have uid: "user_id r = user_id f" by (simp add: r)
  have sp: "(\<exists>v. (Some (user_id r), v) \<in> set sp \<and> split r = fillna_unknown v) \<or>
          (Some (user_id r) \<notin> fst ` set sp \<and> split r = ''unknown'')"
  proof (cases s)
    case None
    with fs have "\<forall>y\<in>set sp. fst y \<noteq> Some (user_id f)"
      using merge_left_None [of f user_id fst fs sp] by simp
    then show ?thesis using None by (auto simp: r joined_cell_def fillna_unknown_def)
  next
    case (Some y)
    with fs have "y \<in> set sp \<and> fst y = Some (user_id f)"
      using merge_left_Some [of f y user_id fst fs sp] by simp
    then show ?thesis using Some
      by (cases y) (auto simp: r joined_cell_def)
  qed
  have lb: "(\<exists>v. (Some (user_id r), v) \<in> set lb \<and> label r = fillna_unknown v) \<or>
          (Some (user_id r) \<notin> fst ` set lb \<and> label r = ''unknown'')"
  proof (cases l)
    case None
    with mem have "\<forall>y\<in>set lb. fst y \<noteq> Some (user_id f)"
      using merge_left_None [of "(f, s)" "\<lambda>(f, s). user_id f" fst _ lb] by simp
    then show ?thesis using None by (auto simp: r joined_cell_def fillna_unknown_def)
  next
    case (Some y)
    with mem have "y \<in> set lb \<and> fst y = Some (user_id f)"
      using merge_left_Some [of "(f, s)" y "\<lambda>(f, s). user_id f" fst _ lb] by simp
    then show ?thesis using Some
      by (cases y) (auto simp: r joined_cell_def)
  qed
  from f feat sp lb show ?thesis by simp
qed

lemma merge_and_fill_covers:
  assumes "f \<in> set fs"
  shows "\<exists>r\<in>set (merge_and_fill fs sp lb). features_of r = f"
proof -
  from assms obtain s where s: "(f, s) \<in> set (merge_left user_id fst fs sp)"
    using merge_left_covers by fastforce
  then obtain l where l: "((f, s), l) \<in> set (merge_left (\<lambda>(f, s). user_id f) fst (merge_left user_id fst fs sp) lb)"
    using merge_left_covers by fastforce
  then show ?thesis
    by (force simp: merge_and_fill_def Let_def features_of_def)
qed


declare str_nat.simps [simp del]

lemma save_subsets_stdout:
  "set (stdout st) \<subseteq> set (stdout (save_subsets m xs st))"
proof (induction xs arbitrary: st)
  case Nil
  then show ?case by simp
next
  case (Cons x xs)
  obtain split_name file_name where x: "x = (split_name, file_name)" by (cases x)
  have "set (stdout st) \<subseteq> set (stdout st @
              [Msg (''Saving '' @ split_name @ '' subset ('' @
                    str_nat (length (filter (\<lambda>r. split r = split_name) m)) @
                    '' rows) to '' @ file_name @ ''...'')])"
    by auto
  also have "\<dots> \<subseteq> set (stdout (save_subsets m (x # xs) st))"
    unfolding x save_subsets.simps Let_def
    using Cons.IH by (metis select_convs(1))
  finally show ?case .
qed

lemma save_subsets_files:
  "files (save_subsets m xs st) =
     files st @ map (\<lambda>(split_name, file_name). (file_name, filter (\<lambda>r. split r = split_name) m)) xs"
proof (induction xs arbitrary: st)
  case Nil
  then show ?case by simp
next
  case (Cons x xs)
  obtain split_name file_name where x: "x = (split_name, file_name)" by (cases x)
  show ?case
    unfolding x save_subsets.simps Let_def Cons.IH by simp
qed

lemma stage_b_Inr:
  assumes "load_optional lib ''split'' split_warning sf = Inr (sp, out_s)"
    and "load_optional lib ''labels'' label_warning lf = Inr (lb, out_l)"
  shows "\<exists>st. stage_b lib (Some fs) sf lf = Inr st \<and>
           set out_s \<union> set out_l \<subseteq> set (stdout st) \<and>
           files st =
             [(OUTPUT_FULL, merge_and_fill fs sp lb),
              (OUTPUT_TRAIN, filter (\<lambda>r. split r = ''train'') (merge_and_fill fs sp lb)),
              (OUTPUT_VAL, filter (\<lambda>r. split r = ''val'') (merge_and_fill fs sp lb)),
              (OUTPUT_TEST, filter (\<lambda>r. split r = ''test'') (merge_and_fill fs sp lb))]"
proof -
  define st0 :: run_b where "st0 =
                     \<lparr>stdout =
                        [Msg ''Loading files...'',
                         Msg (''Loaded features: '' @ str_nat (length fs) @ '' rows'')]
                        @ out_s @ out_l @
                        [Msg ''Merging data...'', Msg ''Sample of merged data:'',
                         Head (take 5 (merge_and_fill fs sp lb)),
                         Msg (''Saving merged data to '' @ OUTPUT_FULL @ ''...'')],
                      files = [(OUTPUT_FULL, merge_and_fill fs sp lb)]\<rparr>"
  define st1 where "st1 = save_subsets (merge_and_fill fs sp lb) (zip splits files_list) st0"
  have run: "stage_b lib (Some fs) sf lf = Inr (st1\<lparr>stdout := stdout st1 @ [Msg ''Done.'']\<rparr>)"
    unfolding stage_b_def st1_def st0_def Let_def
    by (simp only: assms option.case sum.case prod.case)
  have out0: "set out_s \<union> set out_l \<subseteq> set (stdout st0)"
    by (auto simp: st0_def)
  have f0: "files st0 = [(OUTPUT_FULL, merge_and_fill fs sp lb)]"
    by (simp add: st0_def)
  have out1: "set (stdout st0) \<subseteq> set (stdout st1)"
    unfolding st1_def by (rule save_subsets_stdout)
  have f1: "files st1 = files st0 @
        [(OUTPUT_TRAIN, filter (\<lambda>r. split r = ''train'') (merge_and_fill fs sp lb)),
         (OUTPUT_VAL, filter (\<lambda>r. split r = ''val'') (merge_and_fill fs sp lb)),
         (OUTPUT_TEST, filter (\<lambda>r. split r = ''test'') (merge_and_fill fs sp lb))]"
    unfolding st1_def save_subsets_files by (simp add: splits_def files_list_def)
  from out0 out1 have "set out_s \<union> set out_l \<subseteq> set (stdout (st1\<lparr>stdout := stdout st1 @ [Msg ''Done.'']\<rparr>))"
    by auto
  moreover from f0 f1 have "files (st1\<lparr>stdout := stdout st1 @ [Msg ''Done.'']\<rparr>) =
             [(OUTPUT_FULL, merge_and_fill fs sp lb),
              (OUTPUT_TRAIN, filter (\<lambda>r. split r = ''train'') (merge_and_fill fs sp lb)),
              (OUTPUT_VAL, filter (\<lambda>r. split r = ''val'') (merge_and_fill fs sp lb)),
              (OUTPUT_TEST, filter (\<lambda>r. split r = ''test'') (merge_and_fill fs sp lb))]"
    by simp
  ultimately show ?thesis using run by blast
qed

lemma stage_b_Inl1:
  "load_optional lib ''split'' split_warning sf = Inl e \<Longrightarrow> stage_b lib (Some fs) sf lf = Inl e"
  by (simp add: stage_b_def)

lemma stage_b_Inl2:
  "load_optional lib ''split'' split_warning sf = Inr a \<Longrightarrow>
   load_optional lib ''labels'' label_warning lf = Inl e \<Longrightarrow> stage_b lib (Some fs) sf lf = Inl e"
  by (cases a) (simp add: stage_b_def)

lemma stage_b_files:
  assumes "stage_b lib (Some fs) sf lf = Inr st"
  shows "\<exists>sp lb out_s out_l.
           load_optional lib ''split'' split_warning sf = Inr (sp, out_s) \<and>
           load_optional lib ''labels'' label_warning lf = Inr (lb, out_l) \<and>
           set out_s \<union> set out_l \<subseteq> set (stdout st) \<and>
           files st =
             [(OUTPUT_FULL, merge_and_fill fs sp lb),
              (OUTPUT_TRAIN, filter (\<lambda>r. split r = ''train'') (merge_and_fill fs sp lb)),
              (OUTPUT_VAL, filter (\<lambda>r. split r = ''val'') (merge_and_fill fs sp lb)),
              (OUTPUT_TEST, filter (\<lambda>r. split r = ''test'') (merge_and_fill fs sp lb))]"
proof (cases "load_optional lib ''split'' split_warning sf")
  case (Inl e)
  with assms show ?thesis by (simp add: stage_b_Inl1)
next
  case (Inr a)
  obtain sp out_s where a: "a = (sp, out_s)" by (cases a)
  show ?thesis
  proof (cases "load_optional lib ''labels'' label_warning lf")
    case (Inl e)
    with assms Inr show ?thesis by (simp add: stage_b_Inl2)
  next
    case Inr2: (Inr b)
    obtain lb out_l where b: "b = (lb, out_l)" by (cases b)
    from stage_b_Inr [OF Inr [unfolded a] Inr2 [unfolded b], of fs] assms
    show ?thesis using Inr a Inr2 b by auto
  qed
qed

lemma example_run_b:
  "case stage_b example_lib (Some example_features) (Some example_split) None of
     Inl e \<Rightarrow> False
   | Inr st \<Rightarrow>
       map (\<lambda>(name, t). (name, map (\<lambda>r. (user_id r, split r, label r)) t)) (files st) =
         [(OUTPUT_FULL, [(1, ''train'', ''unknown''), (2, ''unknown'', ''unknown''),
                         (12, ''unknown'', ''unknown'')]),
          (OUTPUT_TRAIN, [(1, ''train'', ''unknown'')]), (OUTPUT_VAL, []), (OUTPUT_TEST, [])]"
  by code_simp

lemma example_run_b_missing:
  "case stage_b example_lib (Some example_features) None None of
     Inl e \<Rightarrow> False
   | Inr st \<Rightarrow>
       map (\<lambda>(name, t). (name, map (\<lambda>r. (user_id r, split r, label r)) t)) (files st) =
         [(OUTPUT_FULL, [(1, ''unknown'', ''unknown''), (2, ''unknown'', ''unknown''),
                         (12, ''unknown'', ''unknown'')]),
          (OUTPUT_TRAIN, []), (OUTPUT_VAL, []), (OUTPUT_TEST, [])]"
  by code_simp

lemma filter_three_lengths:
  assumes "a \<noteq> b" "a \<noteq> c" "b \<noteq> c"
  shows "length (filter (\<lambda>r. f r = a) xs) + length (filter (\<lambda>r. f r = b) xs)
           + length (filter (\<lambda>r. f r = c) xs)
         = length (filter (\<lambda>r. f r \<in> {a, b, c}) xs)"
  using assms by (induction xs) auto

lemma load_optional_None:
  "load_optional lib what warning None = Inr ([], [Msg warning])"
  by (simp add: load_optional_def)

lemma load_optional_Some:
  "load_optional lib what warning (Some df) = Inr (sp, out) \<Longrightarrow> normalize_id lib df = Inr sp"
  by (auto simp: load_optional_def split: sum.splits)

lemma load_optional_Inl:
  "load_optional lib what warning file = Inl e \<Longrightarrow> \<exists>df. file = Some df \<and> normalize_id lib df = Inl e"
  by (cases "file") (auto simp: load_optional_def split: sum.splits)

lemma int_keys_mem:
  "k \<in> set (int_keys tbl) \<longleftrightarrow> Some k \<in> fst ` set tbl"
  by (induction tbl) (auto simp: int_keys_def split: option.splits)

lemma load_optional_normalized:
  "load_optional lib what warning file = Inr (sp, out) \<Longrightarrow> normalized_table lib file = Inr sp"
  by (cases "file") (auto simp: load_optional_def normalized_table_def split: sum.splits)

lemma normalized_table_load:
  "normalized_table lib file = Inr sp \<Longrightarrow> \<exists>out. load_optional lib what warning file = Inr (sp, out)"
  by (cases "file") (auto simp: load_optional_def normalized_table_def split: sum.splits)

lemma load_optional_keys:
  assumes "load_optional lib what warning file = Inr (sp, out)"
  shows "Some k \<in> fst ` set sp \<longleftrightarrow> k \<in> set (table_keys lib file)"
  using load_optional_normalized [OF assms] by (simp add: table_keys_def int_keys_mem)

lemma replace_u_id:
  "CHR ''u'' \<notin> set ds \<Longrightarrow> replace_u ds = ds"
  unfolding replace_u_def by (induction ds) auto

lemma merge_left_drop_None_key:
  "merge_left lk fst left ((None, v) # right) = merge_left lk fst left right"
  by (simp add: merge_left_def)

lemma process_user_Some:
  "process_user lib sel u = Inr (Some row) \<Longrightarrow>
     user_id_of lib u = Inr (u_user_id row) \<and> u_user_id row \<in> set sel"
  by (auto simp: process_user_def user_id_of_def split: sum.splits if_splits json.splits)

lemma process_user_None:
  "process_user lib sel u = Inr None \<Longrightarrow> \<exists>uid. user_id_of lib u = Inr uid \<and> uid \<notin> set sel"
  by (auto simp: process_user_def user_id_of_def split: sum.splits if_splits json.splits)

lemma process_users_ids:
  "process_users lib sel users = Inr ud \<Longrightarrow>
     \<exists>uids. map_err (user_id_of lib) users = Inr uids \<and>
            map u_user_id ud = filter (\<lambda>i. i \<in> set sel) uids"
proof (induction users arbitrary: ud)
  case Nil
  then show ?case by simp
next
  case (Cons u us)
  from Cons.prems obtain r rs where
    r: "process_user lib sel u = Inr r" and rs: "process_users lib sel us = Inr rs"
    and ud: "ud = (case r of None \<Rightarrow> rs | Some row \<Rightarrow> row # rs)"
    by (auto split: sum.splits)
  from Cons.IH [OF rs] obtain uids where
    uids: "map_err (user_id_of lib) us = Inr uids"
    and m: "map u_user_id rs = filter (\<lambda>i. i \<in> set sel) uids"
    by blast
  show ?case
  proof (cases r)
    case None
    with r obtain uid where "user_id_of lib u = Inr uid" "uid \<notin> set sel"
      using process_user_None by blast
    with uids m ud None show ?thesis by simp
  next
    case (Some row)
    with r have "user_id_of lib u = Inr (u_user_id row)" "u_user_id row \<in> set sel"
      using process_user_Some by blast+
    with uids m ud Some show ?thesis by simp
  qed
qed

lemma distinct_filter_le1:
  "distinct (map f xs) \<Longrightarrow> length (filter (\<lambda>y. f y = k) xs) \<le> 1"
proof (induction xs)
  case Nil
  then show ?case by simp
next
  case (Cons x xs)
  then show ?case
    by (auto simp: filter_empty_conv image_iff)
qed

lemma merge_left_unique:
  assumes "\<And>x. length (filter (\<lambda>y. rk y = Some (lk x)) r) \<le> 1"
  shows "map fst (merge_left lk rk l r) = l"
proof (induction l)
  case Nil
  then show ?case by (simp add: merge_left_def)
next
  case (Cons x l)
  have one: "map fst (case filter (\<lambda>y. rk y = Some (lk x)) r of
                         [] \<Rightarrow> [(x, None)]
                       | ms \<Rightarrow> map (\<lambda>y. (x, Some y)) ms) = [x]"
  proof (cases "filter (\<lambda>y. rk y = Some (lk x)) r")
    case Nil
    then show ?thesis by simp
  next
    case (Cons m ms)
    with assms [of x] have "ms = []" by simp
    with Cons show ?thesis by simp
  qed
  from Cons.IH have "map fst (merge_left lk rk l r) = l" .
  with one show ?case
    by (simp add: merge_left_def)
qed

lemma map_err_length:
  "map_err f xs = Inr ys \<Longrightarrow> length ys = length xs"
  by (simp add: map_err_Inr_iff list_all2_lengthD)

lemma map_err_zip:
  "map_err f xs = Inr ys \<Longrightarrow> (x, y) \<in> set (zip xs ys) \<Longrightarrow> f x = Inr y"
  by (auto simp: map_err_Inr_iff list_all2_iff)

lemma filter_zip_fst_length:
  "length xs = length ys \<Longrightarrow>
     length (filter (\<lambda>(r, n). P r) (zip xs ys)) = length (filter P xs)"
  by (induction xs ys rule: list_induct2) auto

lemma group_agg_Inr:
  assumes "group_agg df k = Inr g"
  shows "g_user_id g = k \<and>
         g_obs_tweet_count g =
           length (filter (\<lambda>(r, n). t_user_id r = k \<and> t_tweet_id r \<noteq> JNull) df)"
proof -
  have "filter (\<lambda>(r, n). t_tweet_id r \<noteq> JNull) (filter (\<lambda>(r, n). t_user_id r = k) df) =
        filter (\<lambda>(r, n). t_user_id r = k \<and> t_tweet_id r \<noteq> JNull) df"
    by (induction df) auto
  with assms show ?thesis
    by (auto simp: group_agg_def Let_def split: sum.splits)
qed

lemma groupby_agg_Inr:
  assumes "groupby_agg df = Inr feats"
  shows "map g_user_id feats = sort (remdups (map (\<lambda>(r, n). t_user_id r) df)) \<and>
         (\<forall>g\<in>set feats. group_agg df (g_user_id g) = Inr g)"
proof -
  let ?keys = "sort (remdups (map (\<lambda>(r, n). t_user_id r) df))"
  from assms have all2: "list_all2 (\<lambda>k g. group_agg df k = Inr g) ?keys feats"
    by (simp add: groupby_agg_def map_err_Inr_iff)
  then have "list_all2 (\<lambda>k g. g_user_id g = k) ?keys feats"
    by (rule list_all2_mono) (simp add: group_agg_Inr)
  then have keys: "map g_user_id feats = ?keys"
    by (induction rule: list_all2_induct) auto
  have "\<forall>g\<in>set feats. group_agg df (g_user_id g) = Inr g"
  proof
    fix g assume "g \<in> set feats"
    then obtain i where i: "i < length feats" "feats ! i = g"
      by (auto simp: in_set_conv_nth)
    with all2 have "group_agg df (?keys ! i) = Inr g"
      by (auto simp: list_all2_conv_all_nth)
    then show "group_agg df (g_user_id g) = Inr g"
      using group_agg_Inr by fastforce
  qed
  with keys show ?thesis by simp
qed

lemma groupby_agg_distinct:
  assumes "groupby_agg df = Inr feats"
  shows "distinct (map g_user_id feats)" and "g_user_id ` set feats = (\<lambda>(r, n). t_user_id r) ` set df"
proof -
  from groupby_agg_Inr [OF assms]
  have keys: "map g_user_id feats = sort (remdups (map (\<lambda>(r, n). t_user_id r) df))" by simp
  then show "distinct (map g_user_id feats)" by simp
  from keys have "set (map g_user_id feats) = set (sort (remdups (map (\<lambda>(r, n). t_user_id r) df)))"
    by simp
  then show "g_user_id ` set feats = (\<lambda>(r, n). t_user_id r) ` set df" by simp
qed

lemma profile_score_points:
  "profile_score u = Inr n \<Longrightarrow> n = completeness_points u"
  by (auto simp: profile_score_def completeness_points_def field_present_def nonempty_def
        plus_one_if_def Let_def split: sum.splits if_splits)

lemma profile_score_range:
  "0 \<le> completeness_points u \<and> completeness_points u \<le> 5"
  by (simp add: completeness_points_def plus_one_if_def)

lemma process_user_row:
  "process_user lib sel u = Inr (Some row) \<Longrightarrow>
     \<exists>kvs. u = JObj kvs \<and> user_id_of lib u = Inr (u_user_id row) \<and> u_user_id row \<in> set sel \<and>
           profile_score kvs = Inr (u_profile_completeness_score row) \<and>
           follower_following_ratio_of kvs = Inr (u_follower_following_ratio row) \<and>
           u_user_created_at row = dict_get kvs ''created_at''"
  by (auto simp: process_user_def user_id_of_def split: sum.splits if_splits json.splits)

lemma process_user_None_records:
  "process_user lib sel u = Inr None \<Longrightarrow> selected_records lib sel [u] = []"
  by (auto simp: process_user_def user_id_of_def selected_records_def split: sum.splits if_splits json.splits)

lemma selected_records_Cons:
  "selected_records lib sel (u # us) = selected_records lib sel [u] @ selected_records lib sel us"
  by (simp add: selected_records_def)

lemma process_users_records:
  "process_users lib sel users = Inr ud \<Longrightarrow>
     map (\<lambda>r. (u_user_id r, u_profile_completeness_score r)) ud =
       map (\<lambda>(uid, kvs). (uid, completeness_points kvs)) (selected_records lib sel users)"
proof (induction users arbitrary: ud)
  case Nil
  then show ?case by (simp add: selected_records_def)
next
  case (Cons u us)
  from Cons.prems obtain r rs where
    r: "process_user lib sel u = Inr r" and rs: "process_users lib sel us = Inr rs"
    and ud: "ud = (case r of None \<Rightarrow> rs | Some row \<Rightarrow> row # rs)"
    by (auto split: sum.splits)
  note IH = Cons.IH [OF rs]
  show ?case
  proof (cases r)
    case None
    with r have "selected_records lib sel [u] = []" by (simp add: process_user_None_records)
    with IH ud None show ?thesis by (simp add: selected_records_Cons [of lib sel u us])
  next
    case (Some row)
    with r obtain kvs where u: "u = JObj kvs" and uid: "user_id_of lib u = Inr (u_user_id row)"
      and sel: "u_user_id row \<in> set sel"
      and sc: "profile_score kvs = Inr (u_profile_completeness_score row)"
      using process_user_row by blast
    from u uid sel have "selected_records lib sel [u] = [(u_user_id row, kvs)]"
      by (simp add: selected_records_def)
    with IH ud Some profile_score_points [OF sc] show ?thesis
      by (simp add: selected_records_Cons [of lib sel u us])
  qed
qed

lemma to_datetime_column_length:
  "to_datetime_column lib cells = Inr col \<Longrightarrow> length (stamps col) = length cells"
  by (auto simp: to_datetime_column_def split: sum.splits if_splits)

lemma created_at_dt_Inr:
  "created_at_dt lib rows = Inr col \<Longrightarrow>
     rows \<noteq> [] \<and> to_datetime_column lib (map t_created_at rows) = Inr col \<and>
     length (stamps col) = length rows"
  by (auto simp: created_at_dt_def to_datetime_column_length split: if_splits)

lemma dataset_end_date_Inr:
  "dataset_end_date lib now rows = Inr d \<longleftrightarrow>
     (\<exists>col. created_at_dt lib rows = Inr col \<and> d = series_max (stamps col))"
  by (auto simp: dataset_end_date_def reference_date_def created_at_dt_def split: sum.splits if_splits)

lemma timedelta_days_Inr:
  "timedelta_days end_date created = Inr d \<Longrightarrow> d = whole_days end_date created"
  by (auto simp: timedelta_days_def whole_days_def split: option.splits if_splits)

lemma compute_features_Inr:
  assumes "compute_features lib now ud rows = Inr final_df"
  shows "\<exists>tcol lens feats ucol days.
           created_at_dt lib rows = Inr tcol \<and>
           map_err text_len (map t_tweet_text rows) = Inr lens \<and>
           groupby_agg (zip rows lens) = Inr feats \<and>
           ud \<noteq> [] \<and>
           to_datetime_column lib
             (map (\<lambda>(u, g). u_user_created_at u)
                (merge_left u_user_id (\<lambda>g. Some (g_user_id g)) ud feats)) = Inr ucol \<and>
           map_err (timedelta_days (series_max (stamps tcol))) (stamps ucol) = Inr days \<and>
           final_df =
             map (final_row_of
                    (list_ex (\<lambda>(u, g). g = None)
                       (merge_left u_user_id (\<lambda>g. Some (g_user_id g)) ud feats)))
               (zip (merge_left u_user_id (\<lambda>g. Some (g_user_id g)) ud feats)
                  (zip (stamps ucol) days))"
proof (cases "created_at_dt lib rows")
  case (Inl e)
  with assms show ?thesis by (simp add: compute_features_def)
next
  case (Inr tcol)
  then have ne: "rows \<noteq> []" by (simp add: created_at_dt_Inr)
  then have rd: "reference_date now rows tcol = series_max (stamps tcol)"
    by (simp add: reference_date_def)
  from assms show ?thesis
    by (auto simp: compute_features_def Inr Let_def rd split: sum.splits if_splits)
qed

lemma final_row_of_fields:
  "f_user_id (final_row_of hn x) = u_user_id (fst (fst x))"
  "f_profile_completeness_score (final_row_of hn x) = u_profile_completeness_score (fst (fst x))"
  "f_follower_following_ratio (final_row_of hn x) = u_follower_following_ratio (fst (fst x))"
  "f_user_created_at (final_row_of hn x) = u_user_created_at (fst (fst x))"
  "f_user_created_at_dt (final_row_of hn x) = fst (snd x)"
  by (cases x, cases "fst x", cases "snd x", simp add: final_row_of_def Let_def)+

lemma map_fst_fst_zip:
  "length xs = length ys \<Longrightarrow> map (\<lambda>x. h (fst (fst x))) (zip xs ys) = map (\<lambda>p. h (fst p)) xs"
  by (induction xs ys rule: list_induct2) auto

lemma map_fst_snd_zip:
  "length xs = length ys \<Longrightarrow> length ys = length zs \<Longrightarrow>
     map (\<lambda>x. fst (snd x)) (zip xs (zip ys zs)) = ys"
  by (induction xs ys zs rule: list_induct3) auto

lemma compute_features_rows:
  assumes "compute_features lib now ud rows = Inr final_df"
  shows "\<exists>tcol ucol.
           created_at_dt lib rows = Inr tcol \<and>
           to_datetime_column lib (map u_user_created_at ud) = Inr ucol \<and>
           map f_user_id final_df = map u_user_id ud \<and>
           map f_profile_completeness_score final_df = map u_profile_completeness_score ud \<and>
           map f_user_created_at final_df = map u_user_created_at ud \<and>
           map f_user_created_at_dt final_df = stamps ucol \<and>
           (\<forall>r\<in>set final_df.
              f_obs_tweet_count r =
                length (filter (\<lambda>t. t_user_id t = f_user_id r \<and> t_tweet_id t \<noteq> JNull) rows) \<and>
              f_account_age_days r =
                clip_lower 1 (whole_days (series_max (stamps tcol)) (f_user_created_at_dt r)) \<and>
              f_avg_tweets_per_day r =
                map_option (\<lambda>d. of_nat (f_obs_tweet_count r) / of_int d) (f_account_age_days r) \<and>
              ((\<forall>t\<in>set rows. t_user_id t \<noteq> f_user_id r) \<longrightarrow>
                 f_total_likes_received r = 0 \<and> f_total_replies_received r = 0 \<and>
                 f_avg_tweet_text_length r = 0 \<and> f_obs_tweet_count r = 0))"
proof -
  from compute_features_Inr [OF assms] obtain tcol lens feats ucol days where
    tcol: "created_at_dt lib rows = Inr tcol" and
    lens: "map_err text_len (map t_tweet_text rows) = Inr lens" and
    feats: "groupby_agg (zip rows lens) = Inr feats" and
    ucol: "to_datetime_column lib
             (map (\<lambda>(u, g). u_user_created_at u)
                (merge_left u_user_id (\<lambda>g. Some (g_user_id g)) ud feats)) = Inr ucol" and
    days: "map_err (timedelta_days (series_max (stamps tcol))) (stamps ucol) = Inr days" and
    fd: "final_df =
             map (final_row_of
                    (list_ex (\<lambda>(u, g). g = None)
                       (merge_left u_user_id (\<lambda>g. Some (g_user_id g)) ud feats)))
               (zip (merge_left u_user_id (\<lambda>g. Some (g_user_id g)) ud feats)
                  (zip (stamps ucol) days))"
    by blast
  define merged where "merged = merge_left u_user_id (\<lambda>g. Some (g_user_id g)) ud feats"
  define hn where "hn = list_ex (\<lambda>(u, g). g = None) merged"
  define end_date where "end_date = series_max (stamps tcol)"
  have fd': "final_df = map (final_row_of hn) (zip merged (zip (stamps ucol) days))"
    by (simp add: fd merged_def hn_def)
  have len_lens: "length rows = length lens"
    using map_err_length [OF lens] by simp
  have len_st: "length (stamps ucol) = length merged"
    using to_datetime_column_length [OF ucol] by (simp add: merged_def)
  have len_days: "length days = length (stamps ucol)"
    using map_err_length [OF days] .
  have len_z: "length merged = length (zip (stamps ucol) days)"
    using len_st len_days by simp
  have dist: "distinct (map g_user_id feats)"
    by (rule groupby_agg_distinct [OF feats])
  have keys: "g_user_id ` set feats = t_user_id ` set rows"
  proof -
    have "g_user_id ` set feats = (\<lambda>(r, n). t_user_id r) ` set (zip rows lens)"
      by (rule groupby_agg_distinct [OF feats])
    also have "\<dots> = t_user_id ` fst ` set (zip rows lens)"
      by (simp add: image_image case_prod_beta)
    also have "fst ` set (zip rows lens) = set rows"
      using len_lens by (metis map_fst_zip set_map)
    finally show ?thesis .
  qed
  have le1: "\<And>x. length (filter (\<lambda>g. Some (g_user_id g) = Some (u_user_id x)) feats) \<le> 1"
    using distinct_filter_le1 [OF dist] by simp
  have fst_merged: "map fst merged = ud"
    unfolding merged_def by (rule merge_left_unique) (rule le1)
  have proj: "\<And>h. map (\<lambda>p. h (fst p)) merged = map h ud"
  proof -
    fix h :: "user_row \<Rightarrow> 'x"
    have "map (\<lambda>p. h (fst p)) merged = map h (map fst merged)" by (simp add: comp_def)
    then show "map (\<lambda>p. h (fst p)) merged = map h ud" by (simp add: fst_merged)
  qed
  have cells: "map (\<lambda>(u, g). u_user_created_at u) merged = map u_user_created_at ud"
    unfolding case_prod_beta by (rule proj)
  from ucol have ucol': "to_datetime_column lib (map u_user_created_at ud) = Inr ucol"
    by (simp add: merged_def [symmetric] cells)
  have ids: "map f_user_id final_df = map u_user_id ud"
    using map_fst_fst_zip [OF len_z, of u_user_id] proj [of u_user_id]
    by (simp add: fd' final_row_of_fields comp_def)
  have scores: "map f_profile_completeness_score final_df = map u_profile_completeness_score ud"
    using map_fst_fst_zip [OF len_z, of u_profile_completeness_score]
      proj [of u_profile_completeness_score]
    by (simp add: fd' final_row_of_fields comp_def)
  have created: "map f_user_created_at final_df = map u_user_created_at ud"
    using map_fst_fst_zip [OF len_z, of u_user_created_at] proj [of u_user_created_at]
    by (simp add: fd' final_row_of_fields comp_def)
  have dts: "map f_user_created_at_dt final_df = stamps ucol"
    using map_fst_snd_zip [of merged "stamps ucol" days] len_st len_days
    by (simp add: fd' final_row_of_fields comp_def)
  have rows: "\<forall>r\<in>set final_df.
              f_obs_tweet_count r =
                length (filter (\<lambda>t. t_user_id t = f_user_id r \<and> t_tweet_id t \<noteq> JNull) rows) \<and>
              f_account_age_days r =
                clip_lower 1 (whole_days end_date (f_user_created_at_dt r)) \<and>
              f_avg_tweets_per_day r =
                map_option (\<lambda>d. of_nat (f_obs_tweet_count r) / of_int d) (f_account_age_days r) \<and>
              ((\<forall>t\<in>set rows. t_user_id t \<noteq> f_user_id r) \<longrightarrow>
                 f_total_likes_received r = 0 \<and> f_total_replies_received r = 0 \<and>
                 f_avg_tweet_text_length r = 0 \<and> f_obs_tweet_count r = 0)"
  proof
    fix r assume "r \<in> set final_df"
    then obtain u g dt d where
      z: "((u, g), (dt, d)) \<in> set (zip merged (zip (stamps ucol) days))"
      and r: "r = final_row_of hn ((u, g), (dt, d))"
      by (auto simp: fd')
    from z have ug: "(u, g) \<in> set merged" by (rule set_zip_leftD)
    from z have "(dt, d) \<in> set (zip (stamps ucol) days)" by (rule set_zip_rightD)
    with days have "timedelta_days end_date dt = Inr d"
      unfolding end_date_def by (rule map_err_zip)
    then have d: "d = whole_days end_date dt" by (rule timedelta_days_Inr)
    have uid: "f_user_id r = u_user_id u" by (simp add: r final_row_of_def Let_def)
    have norows: "g = None \<Longrightarrow> \<forall>t\<in>set rows. t_user_id t \<noteq> u_user_id u"
    proof -
      assume "g = None"
      with ug have "\<forall>y\<in>set feats. Some (g_user_id y) \<noteq> Some (u_user_id u)"
        unfolding merged_def using merge_left_None by fastforce
      then have "u_user_id u \<notin> g_user_id ` set feats" by auto
      with keys have "u_user_id u \<notin> t_user_id ` set rows" by simp
      then show ?thesis by (metis imageI)
    qed
    have obs: "f_obs_tweet_count r =
                length (filter (\<lambda>t. t_user_id t = f_user_id r \<and> t_tweet_id t \<noteq> JNull) rows)"
    proof (cases g)
      case None
      from norows [OF None] have "filter (\<lambda>t. t_user_id t = u_user_id u \<and> t_tweet_id t \<noteq> JNull) rows = []"
        by (auto simp: filter_empty_conv)
      with None show ?thesis by (simp add: r final_row_of_def Let_def)
    next
      case (Some f)
      with ug have "f \<in> set feats" "g_user_id f = u_user_id u"
        unfolding merged_def using merge_left_Some [of u f u_user_id "\<lambda>g. Some (g_user_id g)" ud feats]
        by auto
      with groupby_agg_Inr [OF feats] have "group_agg (zip rows lens) (u_user_id u) = Inr f"
        by auto
      then have "g_obs_tweet_count f =
           length (filter (\<lambda>(r, n). t_user_id r = u_user_id u \<and> t_tweet_id r \<noteq> JNull) (zip rows lens))"
        by (simp add: group_agg_Inr)
      also have "\<dots> = length (filter (\<lambda>t. t_user_id t = u_user_id u \<and> t_tweet_id t \<noteq> JNull) rows)"
        using len_lens by (rule filter_zip_fst_length)
      finally show ?thesis using Some by (simp add: r final_row_of_def Let_def)
    qed
    have zero: "(\<forall>t\<in>set rows. t_user_id t \<noteq> f_user_id r) \<longrightarrow>
                 f_total_likes_received r = 0 \<and> f_total_replies_received r = 0 \<and>
                 f_avg_tweet_text_length r = 0 \<and> f_obs_tweet_count r = 0"
    proof
      assume no: "\<forall>t\<in>set rows. t_user_id t \<noteq> f_user_id r"
      have "g = None"
      proof (cases g)
        case None
        then show ?thesis .
      next
        case (Some f)
        with ug have "f \<in> set feats" "g_user_id f = u_user_id u"
          unfolding merged_def using merge_left_Some [of u f u_user_id "\<lambda>g. Some (g_user_id g)" ud feats]
          by auto
        then have "u_user_id u \<in> g_user_id ` set feats" by force
        with keys have "u_user_id u \<in> t_user_id ` set rows" by simp
        with no uid show ?thesis by (auto simp: image_iff)
      qed
      then show "f_total_likes_received r = 0 \<and> f_total_replies_received r = 0 \<and>
                 f_avg_tweet_text_length r = 0 \<and> f_obs_tweet_count r = 0"
        by (simp add: r final_row_of_def Let_def merged_sum_def)
    qed
    have rest: "f_account_age_days r =
                clip_lower 1 (whole_days end_date (f_user_created_at_dt r)) \<and>
              f_avg_tweets_per_day r =
                map_option (\<lambda>d. of_nat (f_obs_tweet_count r) / of_int d) (f_account_age_days r)"
      using d by (simp add: r final_row_of_def Let_def)
    from obs zero rest show "f_obs_tweet_count r =
                length (filter (\<lambda>t. t_user_id t = f_user_id r \<and> t_tweet_id t \<noteq> JNull) rows) \<and>
              f_account_age_days r =
                clip_lower 1 (whole_days end_date (f_user_created_at_dt r)) \<and>
              f_avg_tweets_per_day r =
                map_option (\<lambda>d. of_nat (f_obs_tweet_count r) / of_int d) (f_account_age_days r) \<and>
              ((\<forall>t\<in>set rows. t_user_id t \<noteq> f_user_id r) \<longrightarrow>
                 f_total_likes_received r = 0 \<and> f_total_replies_received r = 0 \<and>
                 f_avg_tweet_text_length r = 0 \<and> f_obs_tweet_count r = 0)"
      by blast
  qed
  from tcol ucol' ids scores created dts rows show ?thesis
    unfolding end_date_def by blast
qed

lemma stream_tweets_skip:
  "parse_line lib line = JNull \<Longrightarrow>
     stream_tweets lib sel (pre @ line # post) = stream_tweets lib sel (pre @ post)"
  by (induction pre) (simp_all add: Let_def cong: sum.case_cong)

lemma process_tweet_Some:
  "process_tweet lib sel tweet = Inr (Some row) \<Longrightarrow>
     (\<exists>a. py_getitem tweet ''author_id'' = Inr a \<and> py_int lib a = Inr (t_user_id row)) \<and>
     t_user_id row \<in> set sel \<and> py_getitem tweet ''id'' = Inr (t_tweet_id row)"
  by (auto simp: process_tweet_def split: sum.splits if_splits)

lemma process_tweet_None:
  "process_tweet lib sel tweet = Inr None \<Longrightarrow>
     \<exists>a n. py_getitem tweet ''author_id'' = Inr a \<and> py_int lib a = Inr n \<and> n \<notin> set sel"
  by (auto simp: process_tweet_def split: sum.splits if_splits)

lemma stream_tweets_rows:
  "stream_tweets lib sel lines = Inr rows \<Longrightarrow>
     (\<forall>t\<in>set rows. t_user_id t \<in> set sel) \<and>
     (\<forall>uid\<in>set sel. length (filter (\<lambda>t. t_user_id t = uid) rows) =
                      length (filter (\<lambda>l. line_author lib l = Some uid) lines) \<and>
                    length (filter (\<lambda>t. t_user_id t = uid \<and> t_tweet_id t \<noteq> JNull) rows) =
                      length (filter (\<lambda>l. line_author lib l = Some uid \<and>
                                           line_tweet_id lib l \<noteq> JNull) lines))"
proof (induction lines arbitrary: rows)
  case Nil
  then show ?case by simp
next
  case (Cons line rest)
  show ?case
  proof (cases "parse_line lib line = JNull")
    case True
    with Cons.prems have "stream_tweets lib sel rest = Inr rows" by simp
    from Cons.IH [OF this] True show ?thesis by (simp add: line_author_def)
  next
    case False
    with Cons.prems obtain r rows' where
      r: "process_tweet lib sel (parse_line lib line) = Inr r" and
      rest: "stream_tweets lib sel rest = Inr rows'" and
      rows: "rows = (case r of None \<Rightarrow> rows' | Some row \<Rightarrow> row # rows')"
      by (auto simp: Let_def split: sum.splits)
    note IH = Cons.IH [OF rest]
    show ?thesis
    proof (cases r)
      case None
      with r obtain a n where "py_getitem (parse_line lib line) ''author_id'' = Inr a"
        "py_int lib a = Inr n" "n \<notin> set sel"
        using process_tweet_None by blast
      with False have "line_author lib line = Some n" "n \<notin> set sel"
        by (simp_all add: line_author_def)
      with IH rows None show ?thesis by auto
    next
      case (Some row)
      with r obtain a where "py_getitem (parse_line lib line) ''author_id'' = Inr a"
        "py_int lib a = Inr (t_user_id row)" and sel: "t_user_id row \<in> set sel"
        and tid: "py_getitem (parse_line lib line) ''id'' = Inr (t_tweet_id row)"
        using process_tweet_Some by blast
      with False have "line_author lib line = Some (t_user_id row)"
        by (simp add: line_author_def)
      moreover from tid have "line_tweet_id lib line = t_tweet_id row"
        by (simp add: line_tweet_id_def)
      ultimately show ?thesis using IH rows Some sel by auto
    qed
  qed
qed

lemma stage_a_frame_Inr:
  assumes "stage_a_frame lib now ids users lines = Inr final_df"
  shows "\<exists>sel ud rows.
           load_selected_ids lib ids = Inr sel \<and> process_users lib sel users = Inr ud \<and>
           stream_tweets lib sel lines = Inr rows \<and>
           stage_a_intermediate lib ids users lines = Inr rows \<and>
           compute_features lib now ud rows = Inr final_df"
  using assms
  by (auto simp: stage_a_frame_def stage_a_intermediate_def split: sum.splits)

lemma stage_a_Inr:
  "stage_a lib now ids users lines = Inr out \<longleftrightarrow>
     (\<exists>final_df. stage_a_frame lib now ids users lines = Inr final_df \<and> out = map output_row final_df)"
  by (auto simp: stage_a_def split: sum.splits)

lemma series_max_None:
  "series_max dts = None \<longleftrightarrow> (\<forall>t. Some t \<notin> set dts)"
  by (induction dts rule: series_max.induct) (auto split: option.splits)

lemma series_max_Some:
  "series_max dts = Some m \<Longrightarrow> Some m \<in> set dts \<and> (\<forall>t. Some t \<in> set dts \<longrightarrow> t \<le> m)"
proof (induction dts arbitrary: m rule: series_max.induct)
  case 1
  then show ?case by simp
next
  case (2 xs)
  then show ?case by auto
next
  case (3 t xs)
  show ?case
  proof (cases "series_max xs")
    case None
    with 3 series_max_None [of xs] show ?thesis by auto
  next
    case (Some m')
    with "3.IH" have "Some m' \<in> set xs \<and> (\<forall>t. Some t \<in> set xs \<longrightarrow> t \<le> m')" by simp
    with "3.prems" Some show ?thesis by (auto simp: max_def split: if_splits)
  qed
qed

lemma example_run_a:
  "stage_a_frame example_lib 0 [JInt 1, JStr ''2''] [user_1, user_2] example_lines =
     Inr [\<lparr>f_user_id = 1, f_profile_completeness_score = 5, f_follower_following_ratio = 5 / 2,
           f_user_created_at = JStr ''2020-01-01 00:00:00+00:00'',
           f_total_likes_received = 3, f_total_replies_received = 1,
           f_avg_tweet_text_length = 4, f_obs_tweet_count = 2,
           f_user_created_at_dt = Some 1577836800000000000,
           f_account_age_days = Some 2, f_avg_tweets_per_day = Some 1\<rparr>,
          \<lparr>f_user_id = 2, f_profile_completeness_score = 1, f_follower_following_ratio = 0,
           f_user_created_at = JStr ''2020-01-03 00:00:00+00:00'',
           f_total_likes_received = 0, f_total_replies_received = 0,
           f_avg_tweet_text_length = 0, f_obs_tweet_count = 0,
           f_user_created_at_dt = Some 1578009600000000000,
           f_account_age_days = Some 1, f_avg_tweets_per_day = Some 0\<rparr>]"
  by code_simp

lemma example_rows_a:
  "stage_a_intermediate example_lib [JInt 1, JStr ''2''] [user_1, user_2] example_lines =
     Inr [\<lparr>t_user_id = 1, t_tweet_id = JInt 10, t_tweet_text = JStr ''hello'',
           t_created_at = JStr ''2020-01-03 00:00:00+00:00'',
           t_like_count = JInt 3, t_reply_count = JInt 1\<rparr>,
          \<lparr>t_user_id = 1, t_tweet_id = JInt 11, t_tweet_text = JStr ''bye'',
           t_created_at = JStr ''2020-01-02 00:00:00+00:00'',
           t_like_count = JInt 0, t_reply_count = JInt 0\<rparr>]"
  by code_simp

lemma example_run_a3:
  "stage_a_frame example_lib 0 [JInt 1, JStr ''2'', JInt 3] [user_1, user_2, user_3] example_lines =
     Inr [\<lparr>f_user_id = 1, f_profile_completeness_score = 5, f_follower_following_ratio = 5 / 2,
           f_user_created_at = JStr ''2020-01-01 00:00:00+00:00'',
           f_total_likes_received = 3, f_total_replies_received = 1,
           f_avg_tweet_text_length = 4, f_obs_tweet_count = 2,
           f_user_created_at_dt = Some 1577836800000000000,
           f_account_age_days = Some 2, f_avg_tweets_per_day = Some 1\<rparr>,
          \<lparr>f_user_id = 2, f_profile_completeness_score = 1, f_follower_following_ratio = 0,
           f_user_created_at = JStr ''2020-01-03 00:00:00+00:00'',
           f_total_likes_received = 0, f_total_replies_received = 0,
           f_avg_tweet_text_length = 0, f_obs_tweet_count = 0,
           f_user_created_at_dt = Some 1578009600000000000,
           f_account_age_days = Some 1, f_avg_tweets_per_day = Some 0\<rparr>,
          \<lparr>f_user_id = 3, f_profile_completeness_score = 0, f_follower_following_ratio = 0,
           f_user_created_at = JNull,
           f_total_likes_received = 0, f_total_replies_received = 0,
           f_avg_tweet_text_length = 0, f_obs_tweet_count = 0,
           f_user_created_at_dt = None,
           f_account_age_days = None, f_avg_tweets_per_day = None\<rparr>]"
  by code_simp

lemma example_run_a_null:
  "stage_a_frame example_lib 0 [JInt 1, JStr ''2''] [user_1, user_2] [tweet_a_text, tweet_c_text] =
     Inr [\<lparr>f_user_id = 1, f_profile_completeness_score = 5, f_follower_following_ratio = 5 / 2,
           f_user_created_at = JStr ''2020-01-01 00:00:00+00:00'',
           f_total_likes_received = 3, f_total_replies_received = 1,
           f_avg_tweet_text_length = 5, f_obs_tweet_count = 1,
           f_user_created_at_dt = Some 1577836800000000000,
           f_account_age_days = Some 2, f_avg_tweets_per_day = Some (1 / 2)\<rparr>,
          \<lparr>f_user_id = 2, f_profile_completeness_score = 1, f_follower_following_ratio = 0,
           f_user_created_at = JStr ''2020-01-03 00:00:00+00:00'',
           f_total_likes_received = 0, f_total_replies_received = 0,
           f_avg_tweet_text_length = 0, f_obs_tweet_count = 0,
           f_user_created_at_dt = Some 1578009600000000000,
           f_account_age_days = Some 1, f_avg_tweets_per_day = Some 0\<rparr>]"
  by code_simp

lemma example_rows_a_null:
  "stage_a_intermediate example_lib [JInt 1, JStr ''2''] [user_1, user_2]
       [tweet_a_text, tweet_c_text] =
     Inr [\<lparr>t_user_id = 1, t_tweet_id = JInt 10, t_tweet_text = JStr ''hello'',
           t_created_at = JStr ''2020-01-03 00:00:00+00:00'',
           t_like_count = JInt 3, t_reply_count = JInt 1\<rparr>,
          \<lparr>t_user_id = 1, t_tweet_id = JNull, t_tweet_text = JStr ''again'',
           t_created_at = JStr ''2020-01-03 00:00:00+00:00'',
           t_like_count = JInt 0, t_reply_count = JInt 0\<rparr>]"
  by code_simp

lemma clip_lower_ge:
  "clip_lower lo v = Some d \<Longrightarrow> lo \<le> d"
  by (auto simp: clip_lower_def)

lemma count_list_filter:
  "count_list (filter P xs) x = (if P x then count_list xs x else 0)"
  by (induction xs) auto

lemma count_list_distinct:
  "distinct xs \<Longrightarrow> x \<in> set xs \<Longrightarrow> count_list xs x = 1"
  by (induction xs) (auto simp: count_list_0_iff)

lemma output_row_user_id:
  "map user_id (map output_row final_df) = map f_user_id final_df"
  by (simp add: output_row_def comp_def)

lemma stage_a_frame_ids:
  assumes "stage_a_frame lib now ids users lines = Inr final_df"
  shows "\<exists>sel uids rows tcol.
           load_selected_ids lib ids = Inr sel \<and>
           map_err (user_id_of lib) users = Inr uids \<and>
           stage_a_intermediate lib ids users lines = Inr rows \<and>
           stream_tweets lib sel lines = Inr rows \<and>
           created_at_dt lib rows = Inr tcol \<and>
           map f_user_id final_df = filter (\<lambda>i. i \<in> set sel) uids \<and>
           (\<forall>r\<in>set final_df.
              f_user_id r \<in> set sel \<and>
              f_obs_tweet_count r =
                length (filter (\<lambda>t. t_user_id t = f_user_id r \<and> t_tweet_id t \<noteq> JNull) rows) \<and>
              f_account_age_days r =
                clip_lower 1 (whole_days (series_max (stamps tcol)) (f_user_created_at_dt r)) \<and>
              f_avg_tweets_per_day r =
                map_option (\<lambda>d. of_nat (f_obs_tweet_count r) / of_int d) (f_account_age_days r) \<and>
              ((\<forall>t\<in>set rows. t_user_id t \<noteq> f_user_id r) \<longrightarrow>
                 f_total_likes_received r = 0 \<and> f_total_replies_received r = 0 \<and>
                 f_avg_tweet_text_length r = 0 \<and> f_obs_tweet_count r = 0))"
proof -
  from stage_a_frame_Inr [OF assms] obtain sel ud rows where
    sel: "load_selected_ids lib ids = Inr sel" and
    ud: "process_users lib sel users = Inr ud" and
    st: "stream_tweets lib sel lines = Inr rows" and
    inter: "stage_a_intermediate lib ids users lines = Inr rows" and
    cf: "compute_features lib now ud rows = Inr final_df"
    by blast
  from process_users_ids [OF ud] obtain uids where
    uids: "map_err (user_id_of lib) users = Inr uids" and
    m: "map u_user_id ud = filter (\<lambda>i. i \<in> set sel) uids"
    by blast
  from compute_features_rows [OF cf] obtain tcol where
    tcol: "created_at_dt lib rows = Inr tcol" and
    ids: "map f_user_id final_df = map u_user_id ud" and
    rows: "\<forall>r\<in>set final_df.
              f_obs_tweet_count r =
                length (filter (\<lambda>t. t_user_id t = f_user_id r \<and> t_tweet_id t \<noteq> JNull) rows) \<and>
              f_account_age_days r =
                clip_lower 1 (whole_days (series_max (stamps tcol)) (f_user_created_at_dt r)) \<and>
              f_avg_tweets_per_day r =
                map_option (\<lambda>d. of_nat (f_obs_tweet_count r) / of_int d) (f_account_age_days r) \<and>
              ((\<forall>t\<in>set rows. t_user_id t \<noteq> f_user_id r) \<longrightarrow>
                 f_total_likes_received r = 0 \<and> f_total_replies_received r = 0 \<and>
                 f_avg_tweet_text_length r = 0 \<and> f_obs_tweet_count r = 0)"
    by blast
  from ids m have fm: "map f_user_id final_df = filter (\<lambda>i. i \<in> set sel) uids" by simp
  have insel: "\<forall>r\<in>set final_df. f_user_id r \<in> set sel"
  proof
    fix r assume "r \<in> set final_df"
    then have "f_user_id r \<in> set (map f_user_id final_df)" by simp
    then show "f_user_id r \<in> set sel" unfolding fm by simp
  qed
  from sel uids inter st tcol fm rows insel show ?thesis by blast
qed

lemma map_pair_eq:
  "map f xs = map f' ys \<Longrightarrow> map g xs = map g' ys \<Longrightarrow>
     map (\<lambda>x. (f x, g x)) xs = map (\<lambda>y. (f' y, g' y)) ys"
proof (induction xs arbitrary: ys)
  case Nil
  then show ?case by simp
next
  case (Cons x xs)
  then show ?case by (cases ys) auto
qed

lemma stage_a_frame_scores:
  assumes "stage_a_frame lib now ids users lines = Inr final_df"
  shows "\<exists>sel. load_selected_ids lib ids = Inr sel \<and>
           map (\<lambda>r. (f_user_id r, f_profile_completeness_score r)) final_df =
             map (\<lambda>(uid, kvs). (uid, completeness_points kvs)) (selected_records lib sel users)"
proof -
  from stage_a_frame_Inr [OF assms] obtain sel ud rows where
    sel: "load_selected_ids lib ids = Inr sel" and
    ud: "process_users lib sel users = Inr ud" and
    cf: "compute_features lib now ud rows = Inr final_df"
    by blast
  from compute_features_rows [OF cf] have
    ids: "map f_user_id final_df = map u_user_id ud" and
    scores: "map f_profile_completeness_score final_df = map u_profile_completeness_score ud"
    by blast+
  have "map (\<lambda>r. (f_user_id r, f_profile_completeness_score r)) final_df =
        map (\<lambda>r. (u_user_id r, u_profile_completeness_score r)) ud"
    using ids scores by (rule map_pair_eq)
  also have "\<dots> = map (\<lambda>(uid, kvs). (uid, completeness_points kvs)) (selected_records lib sel users)"
    using ud by (rule process_users_records)
  finally show ?thesis using sel by blast
qed

lemma stage_a_frame_created:
  assumes "stage_a_frame lib now ids users lines = Inr final_df"
  shows "\<exists>ucol. to_datetime_column lib (map f_user_created_at final_df) = Inr ucol \<and>
           map f_user_created_at_dt final_df = stamps ucol"
proof -
  from stage_a_frame_Inr [OF assms] obtain sel ud rows where
    cf: "compute_features lib now ud rows = Inr final_df"
    by blast
  from compute_features_rows [OF cf] obtain ucol where
    "to_datetime_column lib (map u_user_created_at ud) = Inr ucol"
    "map f_user_created_at final_df = map u_user_created_at ud"
    "map f_user_created_at_dt final_df = stamps ucol"
    by blast
  then show ?thesis by auto
qed

lemma dropWhile_all:
  "\<forall>c\<in>set ws. P c \<Longrightarrow> dropWhile P (ws @ xs) = dropWhile P xs"
  by (induction ws) auto

lemma py_strip_whitespace:
  assumes "\<forall>c\<in>set ws1 \<union> set ws2. py_isspace c"
  shows "py_strip (ws1 @ line @ ws2) = py_strip line"
proof -
  from assms have l: "dropWhile py_isspace (ws1 @ line @ ws2) = dropWhile py_isspace (line @ ws2)"
    by (simp add: dropWhile_all)
  show ?thesis
  proof (cases "\<forall>c\<in>set line. py_isspace c")
    case True
    with assms have "dropWhile py_isspace (line @ ws2) = []"
      unfolding dropWhile_eq_Nil_conv by auto
    moreover from True have "dropWhile py_isspace line = []"
      unfolding dropWhile_eq_Nil_conv by auto
    ultimately show ?thesis by (simp only: py_strip_def l rev.simps dropWhile.simps)
  next
    case False
    then have "dropWhile py_isspace (line @ ws2) = dropWhile py_isspace line @ ws2"
      by (auto simp: dropWhile_append1)
    moreover from assms have "\<forall>c\<in>set (rev ws2). py_isspace c" by simp
    then have "dropWhile py_isspace (rev ws2 @ rev (dropWhile py_isspace line)) =
               dropWhile py_isspace (rev (dropWhile py_isspace line))"
      by (rule dropWhile_all)
    ultimately show ?thesis by (simp add: py_strip_def l)
  qed
qed

lemma length_filter_eq_all:
  "length (filter P xs) = length xs \<longleftrightarrow> (\<forall>x\<in>set xs. P x)"
proof (induction xs)
  case Nil
  then show ?case by simp
next
  case (Cons x xs)
  have le: "length (filter P xs) < Suc (length xs)"
    by (rule le_imp_less_Suc) (rule length_filter_le)
  show ?case
  proof (cases "P x")
    case True
    then show ?thesis using Cons.IH by simp
  next
    case False
    with le have "length (filter P (x # xs)) \<noteq> length (x # xs)" by auto
    with False show ?thesis by auto
  qed
qed

lemma merge_left_map_fst:
  "map fst (merge_left lk rk l r) =
     concat (map (\<lambda>x. replicate (max 1 (length (filter (\<lambda>y. rk y = Some (lk x)) r))) x) l)"
proof (induction l)
  case Nil
  then show ?case by (simp add: merge_left_def)
next
  case (Cons x l)
  have one: "map fst (case filter (\<lambda>y. rk y = Some (lk x)) r of
                         [] \<Rightarrow> [(x, None)]
                       | ms \<Rightarrow> map (\<lambda>y. (x, Some y)) ms) =
             replicate (max 1 (length (filter (\<lambda>y. rk y = Some (lk x)) r))) x"
  proof (cases "filter (\<lambda>y. rk y = Some (lk x)) r")
    case Nil
    then show ?thesis by simp
  next
    case (Cons m ms)
    then show ?thesis by (simp add: comp_def map_replicate_const)
  qed
  from Cons.IH one show ?case
    by (simp add: merge_left_def)
qed

lemma concat_replicate_replicate:
  "concat (replicate n (replicate k y)) = replicate (n * k) y"
  by (induction n) (simp_all add: replicate_add)

lemma features_of_filled:
  "features_of
     ((\<lambda>((f, s), l).
                \<lparr>user_id = user_id f,
                 profile_completeness_score = profile_completeness_score f,
                 total_likes_received = total_likes_received f,
                 total_replies_received = total_replies_received f,
                 avg_tweets_per_day = avg_tweets_per_day f,
                 avg_tweet_text_length = avg_tweet_text_length f,
                 follower_following_ratio = follower_following_ratio f,
                 split = fillna_unknown (joined_cell s),
                 label = fillna_unknown (joined_cell l)\<rparr>) x) = fst (fst x)"
  by (cases x, cases "fst x") (simp add: features_of_def)

lemma merge_and_fill_features:
  "map features_of (merge_and_fill fs sp lb) =
     concat (map (\<lambda>f. replicate (matches sp f * matches lb f) f) fs)"
proof -
  let ?m1 = "merge_left user_id fst fs sp"
  let ?m2 = "merge_left (\<lambda>(f, s). user_id f) fst ?m1 lb"
  have "map features_of (merge_and_fill fs sp lb) = map (\<lambda>p. fst (fst p)) ?m2"
    by (simp add: merge_and_fill_def Let_def features_of_filled)
  also have "\<dots> = map fst (map fst ?m2)" by (simp add: comp_def)
  also have "map fst ?m2 =
     concat (map (\<lambda>p. replicate (max 1 (length (filter (\<lambda>y. fst y = Some ((\<lambda>(f, s). user_id f) p)) lb))) p) ?m1)"
    by (rule merge_left_map_fst)
  also have "map fst \<dots> = concat (map (\<lambda>p. replicate (matches lb (fst p)) (fst p)) ?m1)"
    by (simp add: map_concat comp_def matches_def case_prod_beta)
  also have "\<dots> = concat (map (\<lambda>f. replicate (matches sp f * matches lb f) f) fs)"
  proof (induction fs)
    case Nil
    then show ?case by (simp add: merge_left_def)
  next
    case (Cons f fs)
    have hd: "concat (map (\<lambda>p. replicate (matches lb (fst p)) (fst p))
                (case filter (\<lambda>y. fst y = Some (user_id f)) sp of
                         [] \<Rightarrow> [(f, None)]
                       | ms \<Rightarrow> map (\<lambda>y. (f, Some y)) ms)) =
              replicate (matches sp f * matches lb f) f"
    proof (cases "filter (\<lambda>y. fst y = Some (user_id f)) sp")
      case Nil
      then show ?thesis by (simp add: matches_def)
    next
      case (Cons m ms)
      have "concat (map (\<lambda>p. replicate (matches lb (fst p)) (fst p))
                (map (\<lambda>y. (f, Some y)) (m # ms))) =
            concat (map (\<lambda>x. replicate (matches lb f) f) (m # ms))"
        by (simp add: comp_def)
      also have "\<dots> = concat (replicate (length (m # ms)) (replicate (matches lb f) f))"
        by (simp only: map_replicate_const)
      also have "\<dots> = replicate (length (m # ms) * matches lb f) f"
        by (rule concat_replicate_replicate)
      finally show ?thesis using Cons by (simp add: matches_def)
    qed
    from Cons.IH hd show ?case
      by (simp add: merge_left_def)
  qed
  finally show ?thesis .
qed


lemma int_keys_count:
  "count_list (int_keys tbl) k = length (filter (\<lambda>y. fst y = Some k) tbl)"
  by (induction tbl) (auto simp: int_keys_def split: option.splits)

lemma load_optional_count:
  assumes "load_optional lib what warning file = Inr (sp, out)"
  shows "matches sp f = join_count lib file (user_id f)"
  using load_optional_normalized [OF assms]
  by (simp add: matches_def join_count_def table_keys_def int_keys_count)

lemma count_list_distinct_le:
  "distinct xs \<Longrightarrow> count_list xs k \<le> 1"
  by (induction xs) (auto simp: count_list_0_iff)

lemma join_count_distinct:
  "distinct (table_keys lib tbl) \<Longrightarrow> join_count lib tbl k = 1"
  using count_list_distinct_le [of "table_keys lib tbl" k]
  by (simp add: join_count_def max_def)

lemma concat_replicate_one:
  "concat (map (\<lambda>f. replicate (Suc 0) f) fs) = fs"
  by (induction fs) simp_all


lemma example_run_b_large:
  "case stage_b example_lib (Some example_large_features) (Some example_large_split) None of
     Inl e \<Rightarrow> False
   | Inr st \<Rightarrow>
       map (\<lambda>(name, t). (name, map (\<lambda>r. (user_id r, split r, label r)) t)) (files st) =
         [(OUTPUT_FULL, [(9007199254740992, ''train'', ''unknown'')]),
          (OUTPUT_TRAIN, [(9007199254740992, ''train'', ''unknown'')]),
          (OUTPUT_VAL, []), (OUTPUT_TEST, [])]"
  by code_simp

lemma example_run_b_large2:
  "case stage_b example_lib (Some example_large_features) (Some example_large_split2) None of
     Inl e \<Rightarrow> False
   | Inr st \<Rightarrow>
       map (\<lambda>(name, t). (name, map (\<lambda>r. (user_id r, split r, label r)) t)) (files st) =
         [(OUTPUT_FULL, [(9007199254740992, ''train'', ''unknown''),
                         (9007199254740992, ''val'', ''unknown'')]),
          (OUTPUT_TRAIN, [(9007199254740992, ''train'', ''unknown'')]),
          (OUTPUT_VAL, [(9007199254740992, ''val'', ''unknown'')]), (OUTPUT_TEST, [])]"
  by code_simp

lemma example_keys_large:
  "table_keys example_lib (Some example_large_split) = [9007199254740992] \<and>
   table_keys example_lib (Some example_large_split2) = [9007199254740992, 9007199254740992] \<and>
   normalize_id example_lib [(''u9223372036854775808'', Some ''train'')] = Inl TypeError \<and>
   stage_b example_lib (Some example_large_features)
     (Some [(''u9223372036854775808'', Some ''train'')]) None = Inl TypeError"
  by code_simp


lemma replace_u_strip:
  "CHR ''u'' \<notin> set (strip_u_prefix k) \<Longrightarrow> replace_u k = strip_u_prefix k"
  by (cases k) (auto simp: strip_u_prefix_def replace_u_def filter_id_conv split: if_splits)

lemma int_lits_all:
  "\<forall>c\<in>set cells. \<exists>n x. c = IntLit n x \<Longrightarrow> map Some (int_lits cells) = map lit_value cells"
  by (induction cells) (auto simp: lit_value_def)

lemma int_lits_set:
  "n \<in> set (int_lits cells) \<longleftrightarrow> (\<exists>x. IntLit n x \<in> set cells)"
  by (induction cells) (auto split: pd_numeric.splits)

lemma float_cells_exact:
  "\<forall>c\<in>set cells. c = NotNumeric \<or> (\<exists>n. c = IntLit n n \<and> in_int64 n) \<Longrightarrow>
     map_err float_cell_Int64 cells = Inr (map lit_value cells)"
proof (induction cells)
  case Nil
  then show ?case by simp
next
  case (Cons c cells)
  then have IH: "map_err float_cell_Int64 cells = Inr (map lit_value cells)" by simp
  from Cons.prems have "c = NotNumeric \<or> (\<exists>n. c = IntLit n n \<and> in_int64 n)" by simp
  then have "float_cell_Int64 c = Inr (lit_value c)"
    by (auto simp: float_cell_Int64_def lit_value_def)
  with IH show ?case by simp
qed

lemma to_numeric_Int64_exact:
  assumes "(\<forall>c\<in>set cells. \<exists>n x. c = IntLit n x \<and> in_int64 n) \<or>
           (\<forall>c\<in>set cells. c = NotNumeric \<or> (\<exists>n. c = IntLit n n \<and> in_int64 n))"
  shows "to_numeric_Int64 cells = Inr (map lit_value cells)"
proof (cases "NotNumeric \<in> set cells")
  case True
  with assms have small: "\<forall>c\<in>set cells. c = NotNumeric \<or> (\<exists>n. c = IntLit n n \<and> in_int64 n)"
    by auto
  then have "OtherNumber \<notin> set cells" by auto
  with True float_cells_exact [OF small] show ?thesis
    by (simp add: to_numeric_Int64_def)
next
  case False
  with assms have ints: "\<forall>c\<in>set cells. \<exists>n x. c = IntLit n x \<and> in_int64 n"
    by auto
  then have "OtherNumber \<notin> set cells" by auto
  moreover from ints have "list_all in_int64 (int_lits cells)"
    by (auto simp: list_all_iff int_lits_set)
  moreover from ints have "map Some (int_lits cells) = map lit_value cells"
    by (intro int_lits_all) auto
  ultimately show ?thesis using False
    by (simp add: to_numeric_Int64_def)
qed

lemma int_lits_length:
  "OtherNumber \<notin> set cells \<Longrightarrow> NotNumeric \<notin> set cells \<Longrightarrow>
     length (int_lits cells) = length cells"
  by (induction cells) (auto split: pd_numeric.splits)

lemma to_numeric_Int64_length:
  "to_numeric_Int64 cells = Inr ids \<Longrightarrow> length ids = length cells"
  by (auto simp: to_numeric_Int64_def map_err_length int_lits_length split: if_splits)

lemma to_numeric_Int64_NA:
  assumes "to_numeric_Int64 cells = Inr ids" and "i < length cells" and "cells ! i = NotNumeric"
  shows "ids ! i = None"
proof -
  from assms(2,3) have nn: "NotNumeric \<in> set cells" by (metis nth_mem)
  with assms(1) have "map_err float_cell_Int64 cells = Inr ids"
    by (auto simp: to_numeric_Int64_def split: if_splits)
  then have "list_all2 (\<lambda>c y. float_cell_Int64 c = Inr y) cells ids"
    by (simp add: map_err_Inr_iff)
  with assms(2) have "float_cell_Int64 (cells ! i) = Inr (ids ! i)"
    by (auto simp: list_all2_conv_all_nth)
  with assms(3) show ?thesis by (simp add: float_cell_Int64_def)
qed

lemma zip_map_snd:
  "zip (map f xs) (map snd xs) = map (\<lambda>(k, v). (f (k, v), v)) xs"
  by (induction xs) auto
section \<open>Properties of Stage A\<close>

subsection \<open>Profile completeness score\<close>

text \<open>
  C2. The row that the loop over the users builds for a selected record carries, as
  \<^verbatim>\<open>profile_completeness_score\<close>, one point when \<^verbatim>\<open>verified\<close> is exactly \<^verbatim>\<open>true\<close>, one when
  the description is present (the empty string included), one more when it is not empty,
  one when \<^verbatim>\<open>profile_image_url\<close> is present and one when \<^verbatim>\<open>location\<close> is present; and the
  column of the final table holds, row by row, these points of the selected records, each
  an integer from 0 to 5. Absent fields add nothing and raise nothing: for a record whose
  description is a string or absent the score is computed without an exception, and the
  row is built whenever the id and the ratio are. A user with all the fields scores
  exactly 5.
\<close>

theorem profile_score_value:
  "(process_user lib sel (JObj u) = Inr (Some row) \<longrightarrow>
      u_profile_completeness_score row = completeness_points u) \<and>
   (stage_a lib now ids users lines = Inr out \<longrightarrow>
      (\<exists>selected. load_selected_ids lib ids = Inr selected \<and>
         map (\<lambda>r. (user_id r, profile_completeness_score r)) out =
           map (\<lambda>(uid, kvs). (uid, completeness_points kvs)) (selected_records lib selected users)) \<and>
      (\<forall>r\<in>set out. 0 \<le> profile_completeness_score r \<and> profile_completeness_score r \<le> 5)) \<and>
   (dict_get u ''description'' = JNull \<or> (\<exists>s. dict_get u ''description'' = JStr s) \<longrightarrow>
      profile_score u = Inr (completeness_points u) \<and>
      (\<forall>uid ratio. user_id_of lib (JObj u) = Inr uid \<and> uid \<in> set sel \<and>
          follower_following_ratio_of u = Inr ratio \<longrightarrow>
          process_user lib sel (JObj u) =
            Inr (Some \<lparr>u_user_id = uid, u_profile_completeness_score = completeness_points u,
                       u_follower_following_ratio = ratio,
                       u_user_created_at = dict_get u ''created_at''\<rparr>))) \<and>
   0 \<le> completeness_points u \<and> completeness_points u \<le> 5 \<and>
   (dict_get u ''verified'' = JBool True \<and> field_present u ''description'' \<and>
    nonempty (dict_get u ''description'') \<and> field_present u ''profile_image_url'' \<and>
    field_present u ''location'' \<longrightarrow> completeness_points u = 5)"
proof -
  have a: "process_user lib sel (JObj u) = Inr (Some row) \<longrightarrow>
      u_profile_completeness_score row = completeness_points u"
  proof
    assume "process_user lib sel (JObj u) = Inr (Some row)"
    from process_user_row [OF this]
    have "profile_score u = Inr (u_profile_completeness_score row)" by auto
    then show "u_profile_completeness_score row = completeness_points u"
      by (rule profile_score_points)
  qed
  have b: "stage_a lib now ids users lines = Inr out \<longrightarrow>
      (\<exists>selected. load_selected_ids lib ids = Inr selected \<and>
         map (\<lambda>r. (user_id r, profile_completeness_score r)) out =
           map (\<lambda>(uid, kvs). (uid, completeness_points kvs)) (selected_records lib selected users)) \<and>
      (\<forall>r\<in>set out. 0 \<le> profile_completeness_score r \<and> profile_completeness_score r \<le> 5)"
  proof
    assume "stage_a lib now ids users lines = Inr out"
    then obtain final_df where fd: "stage_a_frame lib now ids users lines = Inr final_df"
      and out: "out = map output_row final_df"
      by (auto simp: stage_a_Inr)
    from stage_a_frame_scores [OF fd] obtain selected where
      sel: "load_selected_ids lib ids = Inr selected" and
      m: "map (\<lambda>r. (f_user_id r, f_profile_completeness_score r)) final_df =
             map (\<lambda>(uid, kvs). (uid, completeness_points kvs)) (selected_records lib selected users)"
      by blast
    have eq: "map (\<lambda>r. (user_id r, profile_completeness_score r)) out =
           map (\<lambda>(uid, kvs). (uid, completeness_points kvs)) (selected_records lib selected users)"
      using m by (simp add: out output_row_def comp_def)
    have rng: "\<forall>r\<in>set out. 0 \<le> profile_completeness_score r \<and> profile_completeness_score r \<le> 5"
    proof
      fix r assume "r \<in> set out"
      then have "(user_id r, profile_completeness_score r)
                   \<in> set (map (\<lambda>r. (user_id r, profile_completeness_score r)) out)"
        by force
      then obtain uid kvs where "profile_completeness_score r = completeness_points kvs"
        unfolding eq by auto
      then show "0 \<le> profile_completeness_score r \<and> profile_completeness_score r \<le> 5"
        using profile_score_range [of kvs] by simp
    qed
    from sel eq rng show "(\<exists>selected. load_selected_ids lib ids = Inr selected \<and>
         map (\<lambda>r. (user_id r, profile_completeness_score r)) out =
           map (\<lambda>(uid, kvs). (uid, completeness_points kvs)) (selected_records lib selected users)) \<and>
      (\<forall>r\<in>set out. 0 \<le> profile_completeness_score r \<and> profile_completeness_score r \<le> 5)"
      by blast
  qed
  have c: "dict_get u ''description'' = JNull \<or> (\<exists>s. dict_get u ''description'' = JStr s) \<longrightarrow>
      profile_score u = Inr (completeness_points u) \<and>
      (\<forall>uid ratio. user_id_of lib (JObj u) = Inr uid \<and> uid \<in> set sel \<and>
          follower_following_ratio_of u = Inr ratio \<longrightarrow>
          process_user lib sel (JObj u) =
            Inr (Some \<lparr>u_user_id = uid, u_profile_completeness_score = completeness_points u,
                       u_follower_following_ratio = ratio,
                       u_user_created_at = dict_get u ''created_at''\<rparr>))"
  proof
    assume d: "dict_get u ''description'' = JNull \<or> (\<exists>s. dict_get u ''description'' = JStr s)"
    then have ps: "profile_score u = Inr (completeness_points u)"
      by (auto simp: profile_score_def completeness_points_def field_present_def nonempty_def
            plus_one_if_def Let_def)
    then show "profile_score u = Inr (completeness_points u) \<and>
      (\<forall>uid ratio. user_id_of lib (JObj u) = Inr uid \<and> uid \<in> set sel \<and>
          follower_following_ratio_of u = Inr ratio \<longrightarrow>
          process_user lib sel (JObj u) =
            Inr (Some \<lparr>u_user_id = uid, u_profile_completeness_score = completeness_points u,
                       u_follower_following_ratio = ratio,
                       u_user_created_at = dict_get u ''created_at''\<rparr>))"
      by (auto simp: process_user_def user_id_of_def split: sum.splits)
  qed
  have e: "dict_get u ''verified'' = JBool True \<and> field_present u ''description'' \<and>
    nonempty (dict_get u ''description'') \<and> field_present u ''profile_image_url'' \<and>
    field_present u ''location'' \<longrightarrow> completeness_points u = 5"
    by (simp add: completeness_points_def plus_one_if_def)
  from a b c e profile_score_range [of u] show ?thesis by blast
qed

theorem profile_score_value_witness:
  "process_user example_lib [1, 2] user_1 =
     Inr (Some \<lparr>u_user_id = 1, u_profile_completeness_score = 5, u_follower_following_ratio = 5 / 2,
                u_user_created_at = JStr ''2020-01-01 00:00:00+00:00''\<rparr>) \<and>
   completeness_points user_1_fields = 5 \<and>
   (\<exists>out. stage_a example_lib 0 [JInt 1, JStr ''2'', JInt 3] [user_1, user_2, user_3] example_lines
            = Inr out \<and>
          map (\<lambda>r. (user_id r, profile_completeness_score r)) out = [(1, 5), (2, 1), (3, 0)])"
proof -
  have p: "process_user example_lib [1, 2] (JObj user_1_fields) =
     Inr (Some \<lparr>u_user_id = 1, u_profile_completeness_score = 5, u_follower_following_ratio = 5 / 2,
                u_user_created_at = JStr ''2020-01-01 00:00:00+00:00''\<rparr>)"
    by code_simp
  have d: "dict_get user_1_fields ''verified'' = JBool True \<and>
           field_present user_1_fields ''description'' \<and>
           nonempty (dict_get user_1_fields ''description'') \<and>
           field_present user_1_fields ''profile_image_url'' \<and>
           field_present user_1_fields ''location''"
    by code_simp
  have run: "case stage_a example_lib 0 [JInt 1, JStr ''2'', JInt 3] [user_1, user_2, user_3] example_lines of
               Inl e \<Rightarrow> False
             | Inr out \<Rightarrow>
                 map (\<lambda>(uid, kvs). (uid, completeness_points kvs))
                   (selected_records example_lib [1, 2, 3] [user_1, user_2, user_3]) =
                 [(1, 5), (2, 1), (3, 0)]"
    by code_simp
  then obtain out where out:
    "stage_a example_lib 0 [JInt 1, JStr ''2'', JInt 3] [user_1, user_2, user_3] example_lines = Inr out"
    and recs: "map (\<lambda>(uid, kvs). (uid, completeness_points kvs))
                   (selected_records example_lib [1, 2, 3] [user_1, user_2, user_3]) =
                 [(1, 5), (2, 1), (3, 0)]"
    by (auto split: sum.splits)
  have sel: "load_selected_ids example_lib [JInt 1, JStr ''2'', JInt 3] = Inr [1, 2, 3]"
    by code_simp
  note inst = profile_score_value [where lib = example_lib and sel = "[1, 2]" and u = user_1_fields
      and row = "\<lparr>u_user_id = 1, u_profile_completeness_score = 5, u_follower_following_ratio = 5 / 2,
                u_user_created_at = JStr ''2020-01-01 00:00:00+00:00''\<rparr>"
      and now = 0 and ids = "[JInt 1, JStr ''2'', JInt 3]" and users = "[user_1, user_2, user_3]"
      and lines = example_lines and out = out]
  from inst p have five: "completeness_points user_1_fields = 5" by simp
  from inst out sel recs
  have "map (\<lambda>r. (user_id r, profile_completeness_score r)) out = [(1, 5), (2, 1), (3, 0)]"
    by simp
  with p five out show ?thesis by (simp add: user_1_def)
qed

subsection \<open>Lines of the tweet stream\<close>

text \<open>
  C3, as stated: a malformed or partial record is skipped and never ends the run. The
  helper catches \<^verbatim>\<open>json.JSONDecodeError\<close> only: the line \<^verbatim>\<open>{}\<close> decodes to a dict
  without \<^verbatim>\<open>author_id\<close>, and \<^verbatim>\<open>tweet['author_id']\<close> raises \<^verbatim>\<open>KeyError\<close>, which ends a run
  that returns a table without that line.
\<close>

theorem partial_record_counterexample:
  "stream_tweets example_lib [1, 2] [tweet_a_text, ''{}'', tweet_b_text] = Inl KeyError \<and>
   stage_a example_lib 0 [JInt 1, JStr ''2''] [user_1, user_2] [tweet_a_text, ''{}'', tweet_b_text]
     = Inl KeyError \<and>
   stage_a example_lib 0 [JInt 1, JStr ''2''] [user_1, user_2] [tweet_a_text, tweet_b_text] =
     Inr [\<lparr>user_id = 1, profile_completeness_score = 5, total_likes_received = 3,
           total_replies_received = 1, avg_tweets_per_day = Some 1, avg_tweet_text_length = 4,
           follower_following_ratio = 5 / 2\<rparr>,
          \<lparr>user_id = 2, profile_completeness_score = 1, total_likes_received = 0,
           total_replies_received = 0, avg_tweets_per_day = Some 0, avg_tweet_text_length = 0,
           follower_following_ratio = 0\<rparr>]"
  by code_simp

text \<open>
  C3, amended. Stage A strips the whitespace around a line and drops one trailing comma.
  When what is left is an opening or closing bracket, or \<^verbatim>\<open>json.loads\<close> refuses it or
  reads it as \<^verbatim>\<open>null\<close>, the line is skipped: the rows collected from the stream and the
  outcome of the run are those of the stream without the line. A line that is read as a
  dict without \<^verbatim>\<open>author_id\<close> is not skipped: the loop raises \<^verbatim>\<open>KeyError\<close> at it.
  Whitespace around a line, the no-break space and the next-line control included, does
  not change what the line is read as.
\<close>

theorem undecodable_line_skipped:
  assumes "cleaned = (let s = py_strip line
                      in if s \<noteq> [] \<and> last s = CHR '','' then butlast s else s)"
    and "cleaned = ''['' \<or> cleaned = '']'' \<or> json_loads lib cleaned = None \<or>
         json_loads lib cleaned = Some JNull"
  shows "parse_line lib line = JNull \<and>
         stream_tweets lib sel (pre @ line # post) = stream_tweets lib sel (pre @ post) \<and>
         stage_a lib now ids users (pre @ line # post) = stage_a lib now ids users (pre @ post) \<and>
         (\<forall>kvs. parse_line lib other = JObj kvs \<and> map_of kvs ''author_id'' = None \<longrightarrow>
            stream_tweets lib sel (other # post) = Inl KeyError) \<and>
         (\<forall>ws1 ws2. (\<forall>c\<in>set ws1 \<union> set ws2. py_isspace c) \<longrightarrow>
            parse_line lib (ws1 @ other @ ws2) = parse_line lib other)"
proof -
  from assms have p: "parse_line lib line = JNull"
    by (auto simp: parse_line_def Let_def)
  then have s: "\<And>sel. stream_tweets lib sel (pre @ line # post) = stream_tweets lib sel (pre @ post)"
    by (rule stream_tweets_skip)
  have "stage_a lib now ids users (pre @ line # post) = stage_a lib now ids users (pre @ post)"
    by (simp add: stage_a_def stage_a_frame_def s cong: sum.case_cong)
  moreover have "\<forall>kvs. parse_line lib other = JObj kvs \<and> map_of kvs ''author_id'' = None \<longrightarrow>
            stream_tweets lib sel (other # post) = Inl KeyError"
    by (simp add: Let_def process_tweet_def)
  moreover have "\<forall>ws1 ws2. (\<forall>c\<in>set ws1 \<union> set ws2. py_isspace c) \<longrightarrow>
            parse_line lib (ws1 @ other @ ws2) = parse_line lib other"
    by (simp add: parse_line_def py_strip_whitespace)
  ultimately show ?thesis using p s by simp
qed

theorem undecodable_line_skipped_witness:
  "parse_line example_lib (''  [,'' @ [CHR 0x0A]) = JNull \<and>
   parse_line example_lib ''{\"id\": 12, \"author_id\": 1, \"te'' = JNull \<and>
   stream_tweets example_lib [1, 2]
     ([tweet_a_text] @ ''{\"id\": 12, \"author_id\": 1, \"te'' # [tweet_b_text]) =
   stream_tweets example_lib [1, 2] ([tweet_a_text] @ [tweet_b_text]) \<and>
   parse_line example_lib ([CHR 0xA0, CHR 0x09] @ tweet_a_text @ [CHR 0x85, CHR 0x0A]) = tweet_a"
proof -
  have c1: "''['' = (let s = py_strip (''  [,'' @ [CHR 0x0A])
                      in if s \<noteq> [] \<and> last s = CHR '','' then butlast s else s)"
    by code_simp
  have c2: "''{\"id\": 12, \"author_id\": 1, \"te'' =
      (let s = py_strip ''{\"id\": 12, \"author_id\": 1, \"te''
       in if s \<noteq> [] \<and> last s = CHR '','' then butlast s else s)"
    by code_simp
  have n2: "json_loads example_lib ''{\"id\": 12, \"author_id\": 1, \"te'' = None"
    by code_simp
  have ws: "\<forall>c\<in>set [CHR 0xA0, CHR 0x09] \<union> set [CHR 0x85, CHR 0x0A]. py_isspace c"
    by (simp add: py_isspace_def)
  have pa: "parse_line example_lib tweet_a_text = tweet_a"
    by code_simp
  from undecodable_line_skipped [OF c1, where lib = example_lib]
  have a: "parse_line example_lib (''  [,'' @ [CHR 0x0A]) = JNull" by simp
  from undecodable_line_skipped [OF c2, where lib = example_lib and sel = "[1, 2]"
      and pre = "[tweet_a_text]" and post = "[tweet_b_text]" and other = tweet_a_text] n2
  have b: "parse_line example_lib ''{\"id\": 12, \"author_id\": 1, \"te'' = JNull \<and>
   stream_tweets example_lib [1, 2]
     ([tweet_a_text] @ ''{\"id\": 12, \"author_id\": 1, \"te'' # [tweet_b_text]) =
   stream_tweets example_lib [1, 2] ([tweet_a_text] @ [tweet_b_text])"
    and w: "\<forall>ws1 ws2. (\<forall>c\<in>set ws1 \<union> set ws2. py_isspace c) \<longrightarrow>
            parse_line example_lib (ws1 @ tweet_a_text @ ws2) = parse_line example_lib tweet_a_text"
    by simp_all
  from w ws have "parse_line example_lib ([CHR 0xA0, CHR 0x09] @ tweet_a_text @ [CHR 0x85, CHR 0x0A])
      = parse_line example_lib tweet_a_text"
    by blast
  with pa a b show ?thesis by simp
qed

subsection \<open>The reference time\<close>

text \<open>
  C4. When Stage A gets a reference time, some tweet matched and the time is the latest
  timestamp of the column that \<^verbatim>\<open>pd.to_datetime\<close> returns for the \<^verbatim>\<open>created_at\<close> of the
  matched tweets (\<^verbatim>\<open>NaT\<close> when the column has no timestamp). When no tweet matched, the
  frame built from the empty list has no column \<^verbatim>\<open>created_at\<close> and line 146 raises
  \<^verbatim>\<open>KeyError\<close> before the branch that would take the current time: the run does not
  complete, and the clock is never the reference time.
\<close>

theorem dataset_end_date_max_or_raises:
  "(dataset_end_date lib now rows = Inr end_date \<longrightarrow>
      rows \<noteq> [] \<and>
      (\<exists>col. to_datetime lib (map t_created_at rows) = Inr col \<and>
         length (stamps col) = length rows \<and>
         (\<forall>m. end_date = Some m \<longrightarrow>
            Some m \<in> set (stamps col) \<and> (\<forall>x. Some x \<in> set (stamps col) \<longrightarrow> x \<le> m)) \<and>
         (end_date = None \<longrightarrow> (\<forall>x. Some x \<notin> set (stamps col))))) \<and>
   dataset_end_date lib now [] = Inl KeyError \<and>
   (load_selected_ids lib ids = Inr sel \<and> process_users lib sel users = Inr users_data \<and>
    stream_tweets lib sel lines = Inr [] \<longrightarrow>
      stage_a lib now ids users lines = Inl KeyError)"
proof -
  have a: "dataset_end_date lib now rows = Inr end_date \<longrightarrow>
      rows \<noteq> [] \<and>
      (\<exists>col. to_datetime lib (map t_created_at rows) = Inr col \<and>
         length (stamps col) = length rows \<and>
         (\<forall>m. end_date = Some m \<longrightarrow>
            Some m \<in> set (stamps col) \<and> (\<forall>x. Some x \<in> set (stamps col) \<longrightarrow> x \<le> m)) \<and>
         (end_date = None \<longrightarrow> (\<forall>x. Some x \<notin> set (stamps col))))"
  proof
    assume "dataset_end_date lib now rows = Inr end_date"
    then obtain col where col: "created_at_dt lib rows = Inr col"
      and e: "end_date = series_max (stamps col)"
      by (auto simp: dataset_end_date_Inr)
    from created_at_dt_Inr [OF col] have ne: "rows \<noteq> []"
      and len: "length (stamps col) = length rows"
      and td: "to_datetime lib (map t_created_at rows) = Inr col"
      by (auto simp: to_datetime_column_def split: sum.splits if_splits)
    have mx: "\<forall>m. end_date = Some m \<longrightarrow>
            Some m \<in> set (stamps col) \<and> (\<forall>x. Some x \<in> set (stamps col) \<longrightarrow> x \<le> m)"
      using series_max_Some [of "stamps col"] e by auto
    have nn: "end_date = None \<longrightarrow> (\<forall>x. Some x \<notin> set (stamps col))"
      using series_max_None [of "stamps col"] e by auto
    from ne len td mx nn show "rows \<noteq> [] \<and>
      (\<exists>col. to_datetime lib (map t_created_at rows) = Inr col \<and>
         length (stamps col) = length rows \<and>
         (\<forall>m. end_date = Some m \<longrightarrow>
            Some m \<in> set (stamps col) \<and> (\<forall>x. Some x \<in> set (stamps col) \<longrightarrow> x \<le> m)) \<and>
         (end_date = None \<longrightarrow> (\<forall>x. Some x \<notin> set (stamps col))))"
      by blast
  qed
  have b: "dataset_end_date lib now [] = Inl KeyError"
    by (simp add: dataset_end_date_def created_at_dt_def)
  have c: "load_selected_ids lib ids = Inr sel \<and> process_users lib sel users = Inr users_data \<and>
    stream_tweets lib sel lines = Inr [] \<longrightarrow>
      stage_a lib now ids users lines = Inl KeyError"
    by (simp add: stage_a_def stage_a_frame_def compute_features_def created_at_dt_def)
  from a b c show ?thesis by blast
qed

theorem dataset_end_date_max_or_raises_witness:
  "load_selected_ids example_lib [JInt 1] = Inr [1] \<and>
   (\<exists>users_data. process_users example_lib [1] [user_1] = Inr users_data) \<and>
   stream_tweets example_lib [1] [] = Inr [] \<and>
   stage_a example_lib 0 [JInt 1] [user_1] [] = Inl KeyError \<and>
   stage_a example_lib 0 [JInt 1] [user_1] [''['', '']''] = Inl KeyError"
proof -
  have a: "load_selected_ids example_lib [JInt 1] = Inr [1]" by simp
  have b: "process_users example_lib [1] [user_1] =
     Inr [\<lparr>u_user_id = 1, u_profile_completeness_score = 5, u_follower_following_ratio = 5 / 2,
           u_user_created_at = JStr ''2020-01-01 00:00:00+00:00''\<rparr>]"
    by code_simp
  have c: "stream_tweets example_lib [1] [] = Inr []" by simp
  have d: "stream_tweets example_lib [1] [''['', '']''] = Inr []" by code_simp
  from dataset_end_date_max_or_raises [where lib = example_lib and ids = "[JInt 1]" and sel = "[1]"
      and users = "[user_1]" and lines = "[]" and now = 0] a b c
  have e: "stage_a example_lib 0 [JInt 1] [user_1] [] = Inl KeyError" by simp
  from dataset_end_date_max_or_raises [where lib = example_lib and ids = "[JInt 1]" and sel = "[1]"
      and users = "[user_1]" and lines = "[''['', '']'']" and now = 0] a b d
  have f: "stage_a example_lib 0 [JInt 1] [user_1] [''['', '']''] = Inl KeyError" by simp
  from a b c e f show ?thesis by simp
qed

subsection \<open>Account age\<close>

text \<open>
  C8. In every row of the final frame of Stage A an account age that is a number is at
  least 1: it is the day difference between the reference time and the user's creation
  time, clipped below at 1, and it is exactly 1 when the two times are equal; the rate
  then divides by it. The clip leaves \<^verbatim>\<open>NaN\<close> as it is: the age of a row is \<^verbatim>\<open>NaN\<close>, and
  so is its rate, exactly when the creation time that \<^verbatim>\<open>pd.to_datetime\<close> gives the user
  or the reference time is \<^verbatim>\<open>NaT\<close>. A user record without \<^verbatim>\<open>created_at\<close> gives such a
  row, whose age is not at least 1.
\<close>

theorem account_age_clamped:
  assumes "stage_a_frame lib now ids users lines = Inr final_df" and "r \<in> set final_df"
  shows "(\<forall>d. f_account_age_days r = Some d \<longrightarrow> 1 \<le> d) \<and>
         (\<exists>rows end_date.
            stage_a_intermediate lib ids users lines = Inr rows \<and>
            dataset_end_date lib now rows = Inr end_date \<and>
            f_account_age_days r = clip_lower 1 (whole_days end_date (f_user_created_at_dt r)) \<and>
            (end_date \<noteq> None \<and> f_user_created_at_dt r = end_date \<longrightarrow>
               f_account_age_days r = Some 1) \<and>
            (f_account_age_days r = None \<longleftrightarrow> end_date = None \<or> f_user_created_at_dt r = None)) \<and>
         (\<forall>d. f_account_age_days r = Some d \<longrightarrow>
            f_avg_tweets_per_day r = Some (of_nat (f_obs_tweet_count r) / of_int d)) \<and>
         (f_account_age_days r = None \<longrightarrow> f_avg_tweets_per_day r = None) \<and>
         (\<exists>users_dt. to_datetime lib (map f_user_created_at final_df) = Inr users_dt \<and>
            map f_user_created_at_dt final_df = stamps users_dt)"
proof -
  from stage_a_frame_ids [OF assms(1)] assms(2) obtain rows tcol where
    inter: "stage_a_intermediate lib ids users lines = Inr rows" and
    tcol: "created_at_dt lib rows = Inr tcol" and
    age: "f_account_age_days r =
            clip_lower 1 (whole_days (series_max (stamps tcol)) (f_user_created_at_dt r))" and
    avg: "f_avg_tweets_per_day r =
            map_option (\<lambda>d. of_nat (f_obs_tweet_count r) / of_int d) (f_account_age_days r)"
    by blast
  define end_date where "end_date = series_max (stamps tcol)"
  from tcol have ed: "dataset_end_date lib now rows = Inr end_date"
    by (auto simp: dataset_end_date_Inr end_date_def)
  have age': "f_account_age_days r = clip_lower 1 (whole_days end_date (f_user_created_at_dt r))"
    using age by (simp add: end_date_def)
  have ge: "\<forall>d. f_account_age_days r = Some d \<longrightarrow> 1 \<le> d"
    using age' clip_lower_ge by simp
  have same: "end_date \<noteq> None \<and> f_user_created_at_dt r = end_date \<longrightarrow>
               f_account_age_days r = Some 1"
    using age' by (auto simp: clip_lower_def whole_days_def)
  have nan: "f_account_age_days r = None \<longleftrightarrow> end_date = None \<or> f_user_created_at_dt r = None"
    using age' by (auto simp: clip_lower_def whole_days_def split: option.splits)
  have rate: "\<forall>d. f_account_age_days r = Some d \<longrightarrow>
            f_avg_tweets_per_day r = Some (of_nat (f_obs_tweet_count r) / of_int d)"
    using avg by simp
  have rate': "f_account_age_days r = None \<longrightarrow> f_avg_tweets_per_day r = None"
    using avg by simp
  from stage_a_frame_created [OF assms(1)] obtain ucol where
    "to_datetime_column lib (map f_user_created_at final_df) = Inr ucol"
    and st: "map f_user_created_at_dt final_df = stamps ucol"
    by blast
  then have "to_datetime lib (map f_user_created_at final_df) = Inr ucol"
    by (auto simp: to_datetime_column_def split: sum.splits if_splits)
  with st have col: "\<exists>users_dt. to_datetime lib (map f_user_created_at final_df) = Inr users_dt \<and>
            map f_user_created_at_dt final_df = stamps users_dt"
    by blast
  from inter ed age' same nan have "\<exists>rows end_date.
            stage_a_intermediate lib ids users lines = Inr rows \<and>
            dataset_end_date lib now rows = Inr end_date \<and>
            f_account_age_days r = clip_lower 1 (whole_days end_date (f_user_created_at_dt r)) \<and>
            (end_date \<noteq> None \<and> f_user_created_at_dt r = end_date \<longrightarrow>
               f_account_age_days r = Some 1) \<and>
            (f_account_age_days r = None \<longleftrightarrow> end_date = None \<or> f_user_created_at_dt r = None)"
    by - (rule exI [of _ rows], rule exI [of _ end_date], (intro conjI; assumption))
  with ge rate rate' col show ?thesis by blast
qed

theorem account_age_clamped_witness:
  "\<exists>final_df r2 r3.
     stage_a_frame example_lib 0 [JInt 1, JStr ''2'', JInt 3] [user_1, user_2, user_3]
       example_lines = Inr final_df \<and>
     r2 \<in> set final_df \<and> f_user_id r2 = 2 \<and>
     f_user_created_at_dt r2 = Some 1578009600000000000 \<and> f_account_age_days r2 = Some 1 \<and>
     r3 \<in> set final_df \<and> f_user_id r3 = 3 \<and> f_user_created_at r3 = JNull \<and>
     f_user_created_at_dt r3 = None \<and> f_account_age_days r3 = None \<and>
     f_avg_tweets_per_day r3 = None \<and> avg_tweets_per_day (output_row r3) = None"
proof -
  define r2 where "r2 = \<lparr>f_user_id = 2, f_profile_completeness_score = 1, f_follower_following_ratio = 0,
           f_user_created_at = JStr ''2020-01-03 00:00:00+00:00'',
           f_total_likes_received = 0, f_total_replies_received = 0,
           f_avg_tweet_text_length = 0, f_obs_tweet_count = 0,
           f_user_created_at_dt = Some 1578009600000000000,
           f_account_age_days = Some 1, f_avg_tweets_per_day = Some 0\<rparr>"
  define r3 where "r3 = \<lparr>f_user_id = 3, f_profile_completeness_score = 0, f_follower_following_ratio = 0,
           f_user_created_at = JNull,
           f_total_likes_received = 0, f_total_replies_received = 0,
           f_avg_tweet_text_length = 0, f_obs_tweet_count = 0,
           f_user_created_at_dt = None,
           f_account_age_days = None, f_avg_tweets_per_day = None\<rparr>"
  define final_df where "final_df = projr (stage_a_frame example_lib 0 [JInt 1, JStr ''2'', JInt 3]
      [user_1, user_2, user_3] example_lines)"
  have run: "stage_a_frame example_lib 0 [JInt 1, JStr ''2'', JInt 3] [user_1, user_2, user_3]
       example_lines = Inr final_df"
    unfolding final_df_def example_run_a3 by simp
  have mem2: "r2 \<in> set final_df" and mem3: "r3 \<in> set final_df"
    unfolding final_df_def example_run_a3 r2_def r3_def by simp_all
  have c3: "f_user_created_at_dt r3 = None" by (simp add: r3_def)
  from account_age_clamped [OF run mem3] c3
  have a3: "f_account_age_days r3 = None" and v3: "f_avg_tweets_per_day r3 = None"
    by auto
  from account_age_clamped [OF run mem2]
  have a2: "\<forall>d. f_account_age_days r2 = Some d \<longrightarrow> 1 \<le> d" by blast
  then have a2': "f_account_age_days r2 = Some 1" by (simp add: r2_def)
  have rest: "f_user_id r2 = 2 \<and> f_user_created_at_dt r2 = Some 1578009600000000000 \<and>
     f_user_id r3 = 3 \<and> f_user_created_at r3 = JNull \<and> f_user_created_at_dt r3 = None \<and>
     avg_tweets_per_day (output_row r3) = None"
    by (simp add: r2_def r3_def output_row_def)
  from run mem2 mem3 a2' a3 v3 rest show ?thesis by blast
qed

subsection \<open>Tweets per day\<close>

text \<open>
  C9. In every row of the final frame of Stage A, \<^verbatim>\<open>avg_tweets_per_day\<close> is
  \<^verbatim>\<open>obs_tweet_count\<close> divided by \<^verbatim>\<open>account_age_days\<close>, and the output row carries that
  value. \<^verbatim>\<open>obs_tweet_count\<close> is pandas' \<^verbatim>\<open>count\<close> of the tweet ids of the user: the number
  of the rows of the intermediate table for that user whose tweet id is not null, which
  is the number of lines of the stream that hold a tweet of that author with an id. The
  matched rows of the user are as many as the lines that hold a tweet of that author;
  \<^verbatim>\<open>obs_tweet_count\<close> is at most that number, and equal to it exactly when no tweet of the
  user has the id \<^verbatim>\<open>null\<close>. A matched tweet with the id \<^verbatim>\<open>null\<close> is not counted.
\<close>

theorem avg_tweets_per_day_observed:
  assumes "stage_a_frame lib now ids users lines = Inr final_df" and "r \<in> set final_df"
  shows "f_avg_tweets_per_day r =
           map_option (\<lambda>d. of_nat (f_obs_tweet_count r) / of_int d) (f_account_age_days r) \<and>
         avg_tweets_per_day (output_row r) = f_avg_tweets_per_day r \<and>
         (\<exists>rows. stage_a_intermediate lib ids users lines = Inr rows \<and>
            f_obs_tweet_count r =
              length (filter (\<lambda>t. t_user_id t = f_user_id r \<and> t_tweet_id t \<noteq> JNull) rows) \<and>
            f_obs_tweet_count r =
              length (filter (\<lambda>l. line_author lib l = Some (f_user_id r) \<and>
                                   line_tweet_id lib l \<noteq> JNull) lines) \<and>
            length (filter (\<lambda>t. t_user_id t = f_user_id r) rows) =
              length (filter (\<lambda>l. line_author lib l = Some (f_user_id r)) lines) \<and>
            f_obs_tweet_count r \<le> length (filter (\<lambda>t. t_user_id t = f_user_id r) rows) \<and>
            (f_obs_tweet_count r = length (filter (\<lambda>t. t_user_id t = f_user_id r) rows) \<longleftrightarrow>
               (\<forall>t\<in>set rows. t_user_id t = f_user_id r \<longrightarrow> t_tweet_id t \<noteq> JNull)))"
proof -
  from stage_a_frame_ids [OF assms(1)] assms(2) obtain sel rows where
    inter: "stage_a_intermediate lib ids users lines = Inr rows" and
    st: "stream_tweets lib sel lines = Inr rows" and
    insel: "f_user_id r \<in> set sel" and
    obs: "f_obs_tweet_count r =
                length (filter (\<lambda>t. t_user_id t = f_user_id r \<and> t_tweet_id t \<noteq> JNull) rows)" and
    avg: "f_avg_tweets_per_day r =
                map_option (\<lambda>d. of_nat (f_obs_tweet_count r) / of_int d) (f_account_age_days r)"
    by blast
  from stream_tweets_rows [OF st] insel have cnt:
    "length (filter (\<lambda>t. t_user_id t = f_user_id r) rows) =
     length (filter (\<lambda>l. line_author lib l = Some (f_user_id r)) lines)"
    and cnt': "length (filter (\<lambda>t. t_user_id t = f_user_id r \<and> t_tweet_id t \<noteq> JNull) rows) =
     length (filter (\<lambda>l. line_author lib l = Some (f_user_id r) \<and>
                          line_tweet_id lib l \<noteq> JNull) lines)"
    by blast+
  have split: "filter (\<lambda>t. t_user_id t = f_user_id r \<and> t_tweet_id t \<noteq> JNull) rows =
               filter (\<lambda>t. t_tweet_id t \<noteq> JNull) (filter (\<lambda>t. t_user_id t = f_user_id r) rows)"
    by (simp add: conj_commute)
  have le: "f_obs_tweet_count r \<le> length (filter (\<lambda>t. t_user_id t = f_user_id r) rows)"
    unfolding obs split by (rule length_filter_le)
  have eq: "f_obs_tweet_count r = length (filter (\<lambda>t. t_user_id t = f_user_id r) rows) \<longleftrightarrow>
               (\<forall>t\<in>set rows. t_user_id t = f_user_id r \<longrightarrow> t_tweet_id t \<noteq> JNull)"
  proof -
    have "length (filter (\<lambda>t. t_tweet_id t \<noteq> JNull) (filter (\<lambda>t. t_user_id t = f_user_id r) rows)) =
          length (filter (\<lambda>t. t_user_id t = f_user_id r) rows) \<longleftrightarrow>
          (\<forall>t\<in>set (filter (\<lambda>t. t_user_id t = f_user_id r) rows). t_tweet_id t \<noteq> JNull)"
      by (rule length_filter_eq_all)
    also have "\<dots> \<longleftrightarrow> (\<forall>t\<in>set rows. t_user_id t = f_user_id r \<longrightarrow> t_tweet_id t \<noteq> JNull)"
      by auto
    finally show ?thesis unfolding obs split .
  qed
  have out: "avg_tweets_per_day (output_row r) = f_avg_tweets_per_day r"
    by (simp add: output_row_def)
  from inter obs cnt cnt' le eq have "\<exists>rows. stage_a_intermediate lib ids users lines = Inr rows \<and>
            f_obs_tweet_count r =
              length (filter (\<lambda>t. t_user_id t = f_user_id r \<and> t_tweet_id t \<noteq> JNull) rows) \<and>
            f_obs_tweet_count r =
              length (filter (\<lambda>l. line_author lib l = Some (f_user_id r) \<and>
                                   line_tweet_id lib l \<noteq> JNull) lines) \<and>
            length (filter (\<lambda>t. t_user_id t = f_user_id r) rows) =
              length (filter (\<lambda>l. line_author lib l = Some (f_user_id r)) lines) \<and>
            f_obs_tweet_count r \<le> length (filter (\<lambda>t. t_user_id t = f_user_id r) rows) \<and>
            (f_obs_tweet_count r = length (filter (\<lambda>t. t_user_id t = f_user_id r) rows) \<longleftrightarrow>
               (\<forall>t\<in>set rows. t_user_id t = f_user_id r \<longrightarrow> t_tweet_id t \<noteq> JNull))"
    by auto
  with avg out show ?thesis by blast
qed

theorem avg_tweets_per_day_observed_witness:
  "\<exists>final_df rows r.
     stage_a_frame example_lib 0 [JInt 1, JStr ''2''] [user_1, user_2]
       [tweet_a_text, tweet_c_text] = Inr final_df \<and>
     stage_a_intermediate example_lib [JInt 1, JStr ''2''] [user_1, user_2]
       [tweet_a_text, tweet_c_text] = Inr rows \<and>
     r \<in> set final_df \<and> f_user_id r = 1 \<and> f_account_age_days r = Some 2 \<and>
     length (filter (\<lambda>t. t_user_id t = 1) rows) = 2 \<and>
     length (filter (\<lambda>l. line_author example_lib l = Some 1) [tweet_a_text, tweet_c_text]) = 2 \<and>
     f_obs_tweet_count r = 1 \<and>
     f_avg_tweets_per_day r = Some (1 / 2) \<and> avg_tweets_per_day (output_row r) = Some (1 / 2)"
proof -
  define r where "r = \<lparr>f_user_id = 1, f_profile_completeness_score = 5, f_follower_following_ratio = 5 / 2,
           f_user_created_at = JStr ''2020-01-01 00:00:00+00:00'',
           f_total_likes_received = 3, f_total_replies_received = 1,
           f_avg_tweet_text_length = 5, f_obs_tweet_count = 1,
           f_user_created_at_dt = Some 1577836800000000000,
           f_account_age_days = Some 2, f_avg_tweets_per_day = Some (1 / 2)\<rparr>"
  define final_df where "final_df = projr (stage_a_frame example_lib 0 [JInt 1, JStr ''2'']
      [user_1, user_2] [tweet_a_text, tweet_c_text])"
  define rows where "rows = projr (stage_a_intermediate example_lib [JInt 1, JStr ''2'']
      [user_1, user_2] [tweet_a_text, tweet_c_text])"
  have run: "stage_a_frame example_lib 0 [JInt 1, JStr ''2''] [user_1, user_2]
       [tweet_a_text, tweet_c_text] = Inr final_df"
    unfolding final_df_def example_run_a_null by simp
  have inter: "stage_a_intermediate example_lib [JInt 1, JStr ''2''] [user_1, user_2]
       [tweet_a_text, tweet_c_text] = Inr rows"
    unfolding rows_def example_rows_a_null by simp
  have mem: "r \<in> set final_df"
    unfolding final_df_def example_run_a_null r_def by simp
  have two: "length (filter (\<lambda>t. t_user_id t = 1) rows) = 2"
    unfolding rows_def example_rows_a_null by simp
  from avg_tweets_per_day_observed [OF run mem] inter
  have "length (filter (\<lambda>t. t_user_id t = f_user_id r) rows) =
          length (filter (\<lambda>l. line_author example_lib l = Some (f_user_id r))
                    [tweet_a_text, tweet_c_text])"
    and "avg_tweets_per_day (output_row r) = f_avg_tweets_per_day r"
    by auto
  with two have "length (filter (\<lambda>l. line_author example_lib l = Some 1)
                    [tweet_a_text, tweet_c_text]) = 2"
    and "avg_tweets_per_day (output_row r) = Some (1 / 2)"
    by (simp_all add: r_def)
  moreover have "f_user_id r = 1 \<and> f_account_age_days r = Some 2 \<and> f_obs_tweet_count r = 1 \<and>
     f_avg_tweets_per_day r = Some (1 / 2)"
    by (simp add: r_def)
  ultimately show ?thesis using run inter mem two by blast
qed

subsection \<open>One row per selected profile record\<close>

text \<open>
  C1, as stated: every selected user of the profile source appears exactly once in the
  final table. The loop over the profile source appends a row for every record of a
  selected user and nothing removes duplicates: a source that lists user 1 twice gives two
  rows for user 1.
\<close>

theorem duplicate_profile_counterexample:
  "stage_a example_lib 0 [JInt 1] [user_1, user_1] [tweet_a_text] =
     Inr [\<lparr>user_id = 1, profile_completeness_score = 5, total_likes_received = 3,
           total_replies_received = 1, avg_tweets_per_day = Some (1 / 2), avg_tweet_text_length = 5,
           follower_following_ratio = 5 / 2\<rparr>,
          \<lparr>user_id = 1, profile_completeness_score = 5, total_likes_received = 3,
           total_replies_received = 1, avg_tweets_per_day = Some (1 / 2), avg_tweet_text_length = 5,
           follower_following_ratio = 5 / 2\<rparr>]"
  by code_simp

text \<open>
  C1, amended. In every run of Stage A that returns a table, the \<^verbatim>\<open>user_id\<close> column of
  the table is the list of the ids of the profile source, in order, restricted to the
  selected ids: a selected user has as many rows as the profile source has records for it,
  which is exactly one when the ids of the profile source are distinct. A user without a
  matched tweet is kept, with 0 in \<^verbatim>\<open>total_likes_received\<close>, \<^verbatim>\<open>total_replies_received\<close>,
  \<^verbatim>\<open>avg_tweet_text_length\<close> and \<^verbatim>\<open>obs_tweet_count\<close>.
\<close>

theorem selected_users_rows:
  assumes "stage_a lib now ids users lines = Inr out"
  shows "\<exists>sel uids rows final_df.
           load_selected_ids lib ids = Inr sel \<and>
           map_err (user_id_of lib) users = Inr uids \<and>
           stage_a_intermediate lib ids users lines = Inr rows \<and>
           stage_a_frame lib now ids users lines = Inr final_df \<and>
           out = map output_row final_df \<and>
           map user_id out = filter (\<lambda>i. i \<in> set sel) uids \<and>
           (\<forall>uid\<in>set sel. count_list (map user_id out) uid = count_list uids uid) \<and>
           (distinct uids \<longrightarrow>
              (\<forall>uid\<in>set sel \<inter> set uids. count_list (map user_id out) uid = 1)) \<and>
           (\<forall>r\<in>set final_df.
              (\<forall>t\<in>set rows. t_user_id t \<noteq> f_user_id r) \<longrightarrow>
                f_total_likes_received r = 0 \<and> f_total_replies_received r = 0 \<and>
                f_avg_tweet_text_length r = 0 \<and> f_obs_tweet_count r = 0 \<and>
                total_likes_received (output_row r) = 0 \<and>
                total_replies_received (output_row r) = 0 \<and>
                avg_tweet_text_length (output_row r) = 0)"
proof -
  from assms obtain final_df where
    fr: "stage_a_frame lib now ids users lines = Inr final_df" and
    out: "out = map output_row final_df"
    by (auto simp: stage_a_Inr)
  from stage_a_frame_ids [OF fr] obtain sel uids rows where
    sel: "load_selected_ids lib ids = Inr sel" and
    uids: "map_err (user_id_of lib) users = Inr uids" and
    inter: "stage_a_intermediate lib ids users lines = Inr rows" and
    fm: "map f_user_id final_df = filter (\<lambda>i. i \<in> set sel) uids" and
    z: "\<forall>r\<in>set final_df.
              ((\<forall>t\<in>set rows. t_user_id t \<noteq> f_user_id r) \<longrightarrow>
                 f_total_likes_received r = 0 \<and> f_total_replies_received r = 0 \<and>
                 f_avg_tweet_text_length r = 0 \<and> f_obs_tweet_count r = 0)"
    by blast
  have m: "map user_id out = filter (\<lambda>i. i \<in> set sel) uids"
    by (simp only: out output_row_user_id fm)
  have c: "\<forall>uid\<in>set sel. count_list (map user_id out) uid = count_list uids uid"
    by (simp add: m count_list_filter)
  have d: "distinct uids \<longrightarrow>
              (\<forall>uid\<in>set sel \<inter> set uids. count_list (map user_id out) uid = 1)"
    by (simp add: m count_list_filter count_list_distinct)
  have z': "\<forall>r\<in>set final_df.
              (\<forall>t\<in>set rows. t_user_id t \<noteq> f_user_id r) \<longrightarrow>
                f_total_likes_received r = 0 \<and> f_total_replies_received r = 0 \<and>
                f_avg_tweet_text_length r = 0 \<and> f_obs_tweet_count r = 0 \<and>
                total_likes_received (output_row r) = 0 \<and>
                total_replies_received (output_row r) = 0 \<and>
                avg_tweet_text_length (output_row r) = 0"
    using z by (simp add: output_row_def)
  from sel uids inter fr out m c d z' show ?thesis by blast
qed

theorem selected_users_rows_witness:
  "\<exists>out. stage_a example_lib 0 [JInt 1, JStr ''2''] [user_1, user_2] example_lines = Inr out \<and>
     load_selected_ids example_lib [JInt 1, JStr ''2''] = Inr [1, 2] \<and>
     map_err (user_id_of example_lib) [user_1, user_2] = Inr [1, 2] \<and>
     map user_id out = [1, 2] \<and>
     count_list (map user_id out) 1 = 1 \<and> count_list (map user_id out) 2 = 1 \<and>
     map total_likes_received out = [3, 0] \<and> map avg_tweet_text_length out = [4, 0]"
proof -
  have sel: "load_selected_ids example_lib [JInt 1, JStr ''2''] = Inr [1, 2]" by code_simp
  have uids: "map_err (user_id_of example_lib) [user_1, user_2] = Inr [1, 2]" by code_simp
  have run: "stage_a example_lib 0 [JInt 1, JStr ''2''] [user_1, user_2] example_lines =
      Inr (map output_row (projr (stage_a_frame example_lib 0 [JInt 1, JStr ''2''] [user_1, user_2] example_lines)))"
    unfolding stage_a_def example_run_a by simp
  from selected_users_rows [OF run] sel uids
  have ids: "map user_id (map output_row (projr (stage_a_frame example_lib 0 [JInt 1, JStr ''2''] [user_1, user_2] example_lines)))
      = filter (\<lambda>i. i \<in> set [1, 2]) [1, 2]"
    by auto
  have vals: "map total_likes_received (map output_row (projr (stage_a_frame example_lib 0 [JInt 1, JStr ''2''] [user_1, user_2] example_lines))) = [3, 0] \<and>
      map avg_tweet_text_length (map output_row (projr (stage_a_frame example_lib 0 [JInt 1, JStr ''2''] [user_1, user_2] example_lines))) = [4, 0]"
    unfolding example_run_a by (simp add: output_row_def)
  from ids have ids': "map user_id (map output_row (projr (stage_a_frame example_lib 0 [JInt 1, JStr ''2''] [user_1, user_2] example_lines)))
      = [1, 2]" by simp
  show ?thesis
    apply (rule exI [of _ "map output_row (projr (stage_a_frame example_lib 0 [JInt 1, JStr ''2''] [user_1, user_2] example_lines))"])
    using run sel uids vals
    apply (simp only: ids')
    apply simp
    done
qed

section \<open>Properties of Stage B\<close>

subsection \<open>Partition by split\<close>

text \<open>
  C6. In a run of Stage B that writes its outputs, the train, val and test files hold the
  rows of the augmented table whose \<^verbatim>\<open>split\<close> is exactly that string. Their row counts add
  up to the number of augmented rows whose split is one of the three strings, no row is in
  two of them, and a row with any other split, \<^verbatim>\<open>unknown\<close> included, is in none.
\<close>

theorem split_partition:
  assumes "stage_b lib (Some fs) sf lf = Inr st"
  shows "\<exists>m train val test.
           files st = [(OUTPUT_FULL, m), (OUTPUT_TRAIN, train), (OUTPUT_VAL, val), (OUTPUT_TEST, test)] \<and>
           train = filter (\<lambda>r. split r = ''train'') m \<and>
           val = filter (\<lambda>r. split r = ''val'') m \<and>
           test = filter (\<lambda>r. split r = ''test'') m \<and>
           length train + length val + length test =
             length (filter (\<lambda>r. split r \<in> {''train'', ''val'', ''test''}) m) \<and>
           set train \<inter> set val = {} \<and> set train \<inter> set test = {} \<and> set val \<inter> set test = {} \<and>
           (\<forall>r\<in>set m. split r \<notin> {''train'', ''val'', ''test''} \<longrightarrow>
                r \<notin> set train \<and> r \<notin> set val \<and> r \<notin> set test)"
proof -
  from stage_b_files [OF assms] obtain sp lb where
    f: "files st =
             [(OUTPUT_FULL, merge_and_fill fs sp lb),
              (OUTPUT_TRAIN, filter (\<lambda>r. split r = ''train'') (merge_and_fill fs sp lb)),
              (OUTPUT_VAL, filter (\<lambda>r. split r = ''val'') (merge_and_fill fs sp lb)),
              (OUTPUT_TEST, filter (\<lambda>r. split r = ''test'') (merge_and_fill fs sp lb))]"
    by blast
  define m where "m = merge_and_fill fs sp lb"
  have len: "length (filter (\<lambda>r. split r = ''train'') m) + length (filter (\<lambda>r. split r = ''val'') m)
           + length (filter (\<lambda>r. split r = ''test'') m)
         = length (filter (\<lambda>r. split r \<in> {''train'', ''val'', ''test''}) m)"
    by (rule filter_three_lengths) simp_all
  have d1: "set (filter (\<lambda>r. split r = ''train'') m) \<inter> set (filter (\<lambda>r. split r = ''val'') m) = {}"
    by auto
  have d2: "set (filter (\<lambda>r. split r = ''train'') m) \<inter> set (filter (\<lambda>r. split r = ''test'') m) = {}"
    by auto
  have d3: "set (filter (\<lambda>r. split r = ''val'') m) \<inter> set (filter (\<lambda>r. split r = ''test'') m) = {}"
    by auto
  have ex: "\<forall>r\<in>set m. split r \<notin> {''train'', ''val'', ''test''} \<longrightarrow>
                r \<notin> set (filter (\<lambda>r. split r = ''train'') m) \<and>
                r \<notin> set (filter (\<lambda>r. split r = ''val'') m) \<and>
                r \<notin> set (filter (\<lambda>r. split r = ''test'') m)"
    by auto
  from f len d1 d2 d3 ex show ?thesis
    unfolding m_def by blast
qed

theorem split_partition_witness:
  "\<exists>st m train val test.
     stage_b example_lib (Some example_features) (Some example_split) None = Inr st \<and>
     files st = [(OUTPUT_FULL, m), (OUTPUT_TRAIN, train), (OUTPUT_VAL, val), (OUTPUT_TEST, test)] \<and>
     map user_id m = [1, 2, 12] \<and> map split m = [''train'', ''unknown'', ''unknown''] \<and>
     map user_id train = [1] \<and> val = [] \<and> test = [] \<and>
     length train + length val + length test =
       length (filter (\<lambda>r. split r \<in> {''train'', ''val'', ''test''}) m)"
proof -
  obtain st where st: "stage_b example_lib (Some example_features) (Some example_split) None = Inr st"
    using example_run_b
    by (cases "stage_b example_lib (Some example_features) (Some example_split) None") auto
  from split_partition [OF st] obtain m train val test where
    f: "files st = [(OUTPUT_FULL, m), (OUTPUT_TRAIN, train), (OUTPUT_VAL, val), (OUTPUT_TEST, test)]"
    and len: "length train + length val + length test =
             length (filter (\<lambda>r. split r \<in> {''train'', ''val'', ''test''}) m)"
    by blast
  from example_run_b st f have vals:
    "map user_id m = [1, 2, 12] \<and> map split m = [''train'', ''unknown'', ''unknown''] \<and>
     map user_id train = [1] \<and> val = [] \<and> test = []"
    by (auto simp: comp_def)
  show ?thesis
    by (rule exI [of _ st], rule exI [of _ m], rule exI [of _ train], rule exI [of _ val],
        rule exI [of _ test]) (use st f len vals in simp)
qed

subsection \<open>Feature columns are carried over\<close>

text \<open>
  C10. In a run of Stage B that writes its outputs, every row of the augmented table and
  of the train, val and test tables has the \<^verbatim>\<open>user_id\<close> and the six feature columns of a
  row of the input feature table. The feature columns of the augmented table are the input
  rows in their order, each repeated once for every pair of a split row and a label row
  whose normalized key is its id (once when there is none), so they are the input table
  itself when no normalized key occurs twice in the split table or in the label table:
  the run only adds the columns \<^verbatim>\<open>split\<close> and \<^verbatim>\<open>label\<close>. The normalized keys are those of
  the column as pandas converts it: two keys that differ as strings may be the same
  normalized key.
\<close>

theorem features_unchanged:
  assumes "stage_b lib (Some fs) sf lf = Inr st"
  shows "(\<forall>(name, tbl)\<in>set (files st). \<forall>r\<in>set tbl. features_of r \<in> set fs) \<and>
         (\<exists>m. map_of (files st) OUTPUT_FULL = Some m \<and>
              map features_of m =
                concat (map (\<lambda>f. replicate (join_count lib sf (user_id f) *
                                            join_count lib lf (user_id f)) f) fs) \<and>
              features_of ` set m = set fs \<and>
              (distinct (table_keys lib sf) \<and> distinct (table_keys lib lf) \<longrightarrow>
                 map features_of m = fs))"
proof -
  from stage_b_files [OF assms] obtain sp lb out_s out_l where
    ls: "load_optional lib ''split'' split_warning sf = Inr (sp, out_s)" and
    ll: "load_optional lib ''labels'' label_warning lf = Inr (lb, out_l)" and
    f: "files st =
             [(OUTPUT_FULL, merge_and_fill fs sp lb),
              (OUTPUT_TRAIN, filter (\<lambda>r. split r = ''train'') (merge_and_fill fs sp lb)),
              (OUTPUT_VAL, filter (\<lambda>r. split r = ''val'') (merge_and_fill fs sp lb)),
              (OUTPUT_TEST, filter (\<lambda>r. split r = ''test'') (merge_and_fill fs sp lb))]"
    by blast
  define m where "m = merge_and_fill fs sp lb"
  have row: "\<And>r. r \<in> set m \<Longrightarrow> features_of r \<in> set fs"
    unfolding m_def using merge_and_fill_row by blast
  have a: "\<forall>(name, tbl)\<in>set (files st). \<forall>r\<in>set tbl. features_of r \<in> set fs"
    unfolding f m_def [symmetric] using row by auto
  have img: "features_of ` set m = set fs"
    unfolding m_def using row [unfolded m_def] merge_and_fill_covers [of _ fs sp lb]
    by (auto simp: image_iff)
  have pos: "map features_of m =
                concat (map (\<lambda>f. replicate (join_count lib sf (user_id f) *
                                            join_count lib lf (user_id f)) f) fs)"
    unfolding m_def merge_and_fill_features
    by (simp add: load_optional_count [OF ls] load_optional_count [OF ll])
  have dist: "distinct (table_keys lib sf) \<and> distinct (table_keys lib lf) \<longrightarrow>
                 map features_of m = fs"
  proof
    assume d: "distinct (table_keys lib sf) \<and> distinct (table_keys lib lf)"
    have "\<And>k. join_count lib sf k = 1" "\<And>k. join_count lib lf k = 1"
      using d by (simp_all add: join_count_distinct)
    with pos show "map features_of m = fs"
      by (simp add: concat_replicate_one)
  qed
  have "map_of (files st) OUTPUT_FULL = Some m"
    by (simp add: f m_def)
  with pos img dist have "\<exists>m. map_of (files st) OUTPUT_FULL = Some m \<and>
              map features_of m =
                concat (map (\<lambda>f. replicate (join_count lib sf (user_id f) *
                                            join_count lib lf (user_id f)) f) fs) \<and>
              features_of ` set m = set fs \<and>
              (distinct (table_keys lib sf) \<and> distinct (table_keys lib lf) \<longrightarrow>
                 map features_of m = fs)"
    by blast
  with a show ?thesis ..
qed


theorem features_unchanged_witness:
  "\<exists>st m. stage_b example_lib (Some example_features) (Some example_split) None = Inr st \<and>
     map_of (files st) OUTPUT_FULL = Some m \<and>
     distinct (table_keys example_lib (Some example_split)) \<and>
     distinct (table_keys example_lib None) \<and>
     map features_of m = example_features \<and>
     map user_id m = [1, 2, 12] \<and>
     (\<exists>st' m'. stage_b example_lib (Some example_large_features) (Some example_large_split2) None
          = Inr st' \<and>
        map_of (files st') OUTPUT_FULL = Some m' \<and>
        join_count example_lib (Some example_large_split2) 9007199254740992 = 2 \<and>
        map features_of m' = example_large_features @ example_large_features)"
proof -
  obtain st where st: "stage_b example_lib (Some example_features) (Some example_split) None = Inr st"
    using example_run_b
    by (cases "stage_b example_lib (Some example_features) (Some example_split) None") auto
  have d1: "distinct (table_keys example_lib (Some example_split))" by code_simp
  have d2: "distinct (table_keys example_lib None)" by code_simp
  from features_unchanged [OF st] d1 d2 obtain m where
    m: "map_of (files st) OUTPUT_FULL = Some m" and fm: "map features_of m = example_features"
    by blast
  from example_run_b st m have ids: "map user_id m = [1, 2, 12]"
    by (cases "files st") (auto simp: comp_def OUTPUT_FULL_def split: if_splits)
  obtain st' where st': "stage_b example_lib (Some example_large_features)
      (Some example_large_split2) None = Inr st'"
    using example_run_b_large2
    by (cases "stage_b example_lib (Some example_large_features) (Some example_large_split2) None") auto
  have j1: "join_count example_lib (Some example_large_split2) 9007199254740992 = 2"
    and j2: "join_count example_lib None 9007199254740992 = 1"
    by code_simp+
  from features_unchanged [OF st'] obtain m' where
    m': "map_of (files st') OUTPUT_FULL = Some m'" and
    fm': "map features_of m' =
            concat (map (\<lambda>f. replicate (join_count example_lib (Some example_large_split2) (user_id f) *
                                         join_count example_lib None (user_id f)) f)
                      example_large_features)"
    by blast
  from fm' j1 j2 have dup: "map features_of m' = example_large_features @ example_large_features"
    by (simp add: example_large_features_def numeral_2_eq_2)
  from st' m' j1 dup have "\<exists>st' m'. stage_b example_lib (Some example_large_features)
          (Some example_large_split2) None = Inr st' \<and>
        map_of (files st') OUTPUT_FULL = Some m' \<and>
        join_count example_lib (Some example_large_split2) 9007199254740992 = 2 \<and>
        map features_of m' = example_large_features @ example_large_features"
    by blast
  with st m fm d1 d2 ids show ?thesis
    by (intro exI [of _ st] exI [of _ m]) simp
qed

subsection \<open>Missing tables and unmatched keys\<close>

text \<open>
  C7. A missing split or label file does not end the run: Stage B ends without its outputs
  only when the key normalization of a table that is there raises (or is outside the
  model). When it returns, the warning for each missing file is among the lines printed,
  all four outputs are written, and in every output a row whose user id is the normalized
  key of no row of the split table (of the label table) has the split (the label)
  \<^verbatim>\<open>unknown\<close>; for a missing file that is every row.
\<close>

theorem missing_table_unknown:
  "case stage_b lib (Some fs) sf lf of
     Inl e \<Rightarrow> (\<exists>df. sf = Some df \<and> normalize_id lib df = Inl e) \<or>
              (\<exists>df. lf = Some df \<and> normalize_id lib df = Inl e)
   | Inr st \<Rightarrow>
       (sf = None \<longrightarrow> Msg split_warning \<in> set (stdout st)) \<and>
       (lf = None \<longrightarrow> Msg label_warning \<in> set (stdout st)) \<and>
       map fst (files st) = [OUTPUT_FULL, OUTPUT_TRAIN, OUTPUT_VAL, OUTPUT_TEST] \<and>
       (\<forall>(name, tbl)\<in>set (files st). \<forall>r\<in>set tbl.
          (user_id r \<notin> set (table_keys lib sf) \<longrightarrow> split r = ''unknown'') \<and>
          (user_id r \<notin> set (table_keys lib lf) \<longrightarrow> label r = ''unknown''))"
proof (cases "stage_b lib (Some fs) sf lf")
  case (Inl e)
  have "(\<exists>df. sf = Some df \<and> normalize_id lib df = Inl e) \<or>
              (\<exists>df. lf = Some df \<and> normalize_id lib df = Inl e)"
  proof (cases "load_optional lib ''split'' split_warning sf")
    case l1: (Inl e1)
    with Inl have "e1 = e" by (simp add: stage_b_Inl1)
    with l1 show ?thesis using load_optional_Inl by blast
  next
    case r1: (Inr a)
    show ?thesis
    proof (cases "load_optional lib ''labels'' label_warning lf")
      case l2: (Inl e2)
      with Inl r1 have "e2 = e" by (simp add: stage_b_Inl2)
      with l2 show ?thesis using load_optional_Inl by blast
    next
      case r2: (Inr b)
      obtain sp out_s where a: "a = (sp, out_s)" by (cases a)
      obtain lb out_l where b: "b = (lb, out_l)" by (cases b)
      from stage_b_Inr [OF r1 [unfolded a] r2 [unfolded b], of fs] Inl show ?thesis by simp
    qed
  qed
  with Inl show ?thesis by simp
next
  case (Inr st)
  from stage_b_files [OF Inr] obtain sp lb out_s out_l where
    ls: "load_optional lib ''split'' split_warning sf = Inr (sp, out_s)" and
    ll: "load_optional lib ''labels'' label_warning lf = Inr (lb, out_l)" and
    out: "set out_s \<union> set out_l \<subseteq> set (stdout st)" and
    f: "files st =
             [(OUTPUT_FULL, merge_and_fill fs sp lb),
              (OUTPUT_TRAIN, filter (\<lambda>r. split r = ''train'') (merge_and_fill fs sp lb)),
              (OUTPUT_VAL, filter (\<lambda>r. split r = ''val'') (merge_and_fill fs sp lb)),
              (OUTPUT_TEST, filter (\<lambda>r. split r = ''test'') (merge_and_fill fs sp lb))]"
    by blast
  have w1: "sf = None \<longrightarrow> Msg split_warning \<in> set (stdout st)"
    using ls out by (auto simp: load_optional_None)
  have w2: "lf = None \<longrightarrow> Msg label_warning \<in> set (stdout st)"
    using ll out by (auto simp: load_optional_None)
  have names: "map fst (files st) = [OUTPUT_FULL, OUTPUT_TRAIN, OUTPUT_VAL, OUTPUT_TEST]"
    by (simp add: f)
  have row: "\<And>r. r \<in> set (merge_and_fill fs sp lb) \<Longrightarrow>
          (user_id r \<notin> set (table_keys lib sf) \<longrightarrow> split r = ''unknown'') \<and>
          (user_id r \<notin> set (table_keys lib lf) \<longrightarrow> label r = ''unknown'')"
  proof -
    fix r assume r: "r \<in> set (merge_and_fill fs sp lb)"
    from merge_and_fill_row [OF r] load_optional_keys [OF ls] load_optional_keys [OF ll]
    show "(user_id r \<notin> set (table_keys lib sf) \<longrightarrow> split r = ''unknown'') \<and>
          (user_id r \<notin> set (table_keys lib lf) \<longrightarrow> label r = ''unknown'')"
      by (metis fst_conv image_eqI)
  qed
  have sub: "\<forall>(name, tbl)\<in>set (files st). set tbl \<subseteq> set (merge_and_fill fs sp lb)"
    unfolding f by auto
  have rows: "\<forall>(name, tbl)\<in>set (files st). \<forall>r\<in>set tbl.
          (user_id r \<notin> set (table_keys lib sf) \<longrightarrow> split r = ''unknown'') \<and>
          (user_id r \<notin> set (table_keys lib lf) \<longrightarrow> label r = ''unknown'')"
  proof (intro ballI, clarify)
    fix name tbl r
    assume "(name, tbl) \<in> set (files st)" and "r \<in> set tbl"
    with sub have "r \<in> set (merge_and_fill fs sp lb)" by auto
    then show "(user_id r \<notin> set (table_keys lib sf) \<longrightarrow> split r = ''unknown'') \<and>
          (user_id r \<notin> set (table_keys lib lf) \<longrightarrow> label r = ''unknown'')"
      by (rule row)
  qed
  from w1 w2 names rows show ?thesis unfolding Inr by simp
qed


theorem missing_table_unknown_witness:
  "\<exists>st m. stage_b example_lib (Some example_features) None None = Inr st \<and>
     Msg split_warning \<in> set (stdout st) \<and> Msg label_warning \<in> set (stdout st) \<and>
     map_of (files st) OUTPUT_FULL = Some m \<and>
     map user_id m = [1, 2, 12] \<and>
     map split m = [''unknown'', ''unknown'', ''unknown''] \<and>
     map label m = [''unknown'', ''unknown'', ''unknown''] \<and>
     table_keys example_lib (Some example_large_split) = [9007199254740992] \<and>
     (\<exists>st' m'. stage_b example_lib (Some example_large_features) (Some example_large_split) None
          = Inr st' \<and>
        map_of (files st') OUTPUT_FULL = Some m' \<and>
        map (\<lambda>r. (user_id r, split r, label r)) m' = [(9007199254740992, ''train'', ''unknown'')]) \<and>
     stage_b example_lib (Some example_large_features)
       (Some [(''u9223372036854775808'', Some ''train'')]) None = Inl TypeError"
proof -
  obtain st where st: "stage_b example_lib (Some example_features) None None = Inr st"
    using example_run_b_missing
    by (cases "stage_b example_lib (Some example_features) None None") auto
  from missing_table_unknown [where lib = example_lib and fs = example_features and sf = None and lf = None]
  have w: "Msg split_warning \<in> set (stdout st) \<and> Msg label_warning \<in> set (stdout st)"
    and rows: "\<forall>(name, tbl)\<in>set (files st). \<forall>r\<in>set tbl.
          (user_id r \<notin> set (table_keys example_lib None) \<longrightarrow> split r = ''unknown'') \<and>
          (user_id r \<notin> set (table_keys example_lib None) \<longrightarrow> label r = ''unknown'')"
    unfolding st by simp_all
  from example_run_b_missing st obtain m where
    m: "map_of (files st) OUTPUT_FULL = Some m" and ids: "map user_id m = [1, 2, 12]"
    by (cases "files st") (auto simp: comp_def OUTPUT_FULL_def split: if_splits)
  from m have "(OUTPUT_FULL, m) \<in> set (files st)" by (rule map_of_SomeD)
  with rows have u: "\<forall>r\<in>set m. split r = ''unknown'' \<and> label r = ''unknown''"
    by (auto simp: table_keys_def normalized_table_def int_keys_def)
  from ids have len: "length m = 3" by (metis length_map length_Cons list.size(3) numeral_3_eq_3)
  from u have "map split m = replicate (length m) ''unknown''"
    and "map label m = replicate (length m) ''unknown''"
    by (simp_all add: map_replicate_const [symmetric] cong: map_cong)
  with len have un: "map split m = [''unknown'', ''unknown'', ''unknown'']"
    "map label m = [''unknown'', ''unknown'', ''unknown'']"
    by (simp_all add: numeral_3_eq_3)
  obtain st' where st': "stage_b example_lib (Some example_large_features)
      (Some example_large_split) None = Inr st'"
    using example_run_b_large
    by (cases "stage_b example_lib (Some example_large_features) (Some example_large_split) None") auto
  from example_run_b_large st' obtain m' where
    m': "map_of (files st') OUTPUT_FULL = Some m'" and
    v': "map (\<lambda>r. (user_id r, split r, label r)) m' = [(9007199254740992, ''train'', ''unknown'')]"
    by (cases "files st'") (auto simp: comp_def OUTPUT_FULL_def split: if_splits)
  from st' m' v' have large: "\<exists>st' m'. stage_b example_lib (Some example_large_features)
          (Some example_large_split) None = Inr st' \<and>
        map_of (files st') OUTPUT_FULL = Some m' \<and>
        map (\<lambda>r. (user_id r, split r, label r)) m' = [(9007199254740992, ''train'', ''unknown'')]"
    by - (rule exI [of _ st'], rule exI [of _ m'], (intro conjI; assumption))
  from st w m ids un large example_keys_large show ?thesis
    by (intro exI [of _ st] exI [of _ m]) simp
qed
subsection \<open>Key normalization\<close>

text \<open>
  C5, as stated: normalization drops a one-character alphabetic prefix, whatever the
  letter, and reads the rest as an integer. The code strips the letter \<^verbatim>\<open>u\<close> and no
  other: the key \<^verbatim>\<open>t12\<close> is read as it stands, is not numeric, and becomes \<^verbatim>\<open><NA>\<close>
  and not 12, so it is the key of no row.
\<close>

theorem prefix_strip_counterexample:
  "normalize_id example_lib [(''t12'', Some ''test'')] = Inr [(None, Some ''test'')] \<and>
   lit_value (to_numeric example_lib (prefix_strip_spec ''t12'')) = Some 12 \<and>
   table_keys example_lib (Some [(''t12'', Some ''test'')]) = []"
  by code_simp

text \<open>
  C5, amended. For a table whose keys have no letter \<^verbatim>\<open>u\<close> but a leading one,
  normalization strips the prefix \<^verbatim>\<open>u\<close> (and no other letter) and reads the rest as a
  number with \<^verbatim>\<open>pd.to_numeric\<close>. The normalized key is the integer the rest denotes when
  every key of the table is an integer of the int64 range, and also when every key is
  either not numeric or an integer of that range that its float holds exactly. A rest
  that is not numeric becomes \<^verbatim>\<open><NA>\<close> in every table that normalization returns, and
  it raises nothing. A table row with the key \<^verbatim>\<open><NA>\<close> joins no feature row, and a
  feature row whose id is the normalized key of no row of the split (label) table has the
  split (label) \<^verbatim>\<open>unknown\<close>.
\<close>

theorem normalize_id_strips_u:
  assumes "\<forall>(k, v)\<in>set df. CHR ''u'' \<notin> set (strip_u_prefix k)"
  shows "normalize_id lib df =
           (case to_numeric_Int64 (map (\<lambda>(k, v). key_number lib k) df) of
              Inl e \<Rightarrow> Inl e
            | Inr ids \<Rightarrow> Inr (zip ids (map snd df))) \<and>
         ((\<forall>(k, v)\<in>set df. \<exists>n x. key_number lib k = IntLit n x \<and> in_int64 n) \<or>
          (\<forall>(k, v)\<in>set df. key_number lib k = NotNumeric \<or>
                             (\<exists>n. key_number lib k = IntLit n n \<and> in_int64 n)) \<longrightarrow>
            normalize_id lib df = Inr (map (\<lambda>(k, v). (lit_value (key_number lib k), v)) df)) \<and>
         (\<forall>tbl. normalize_id lib df = Inr tbl \<longrightarrow>
            length tbl = length df \<and> map snd tbl = map snd df \<and>
            (\<forall>i<length df. key_number lib (fst (df ! i)) = NotNumeric \<longrightarrow> fst (tbl ! i) = None)) \<and>
         merge_and_fill fs ((None, cell) # sp) lb = merge_and_fill fs sp lb \<and>
         merge_and_fill fs sp ((None, cell) # lb) = merge_and_fill fs sp lb \<and>
         (\<forall>r\<in>set (merge_and_fill fs sp lb).
            (Some (user_id r) \<notin> fst ` set sp \<longrightarrow> split r = ''unknown'') \<and>
            (Some (user_id r) \<notin> fst ` set lb \<longrightarrow> label r = ''unknown''))"
proof -
  let ?cells = "map (\<lambda>(k, v). key_number lib k) df"
  have cells: "map (\<lambda>(k, v). to_numeric lib (replace_u k)) df = ?cells"
    using assms by (auto simp: key_number_def replace_u_strip)
  have a: "normalize_id lib df =
           (case to_numeric_Int64 ?cells of
              Inl e \<Rightarrow> Inl e
            | Inr ids \<Rightarrow> Inr (zip ids (map snd df)))"
    by (simp only: normalize_id_def cells)
  have b: "(\<forall>(k, v)\<in>set df. \<exists>n x. key_number lib k = IntLit n x \<and> in_int64 n) \<or>
          (\<forall>(k, v)\<in>set df. key_number lib k = NotNumeric \<or>
                             (\<exists>n. key_number lib k = IntLit n n \<and> in_int64 n)) \<longrightarrow>
            normalize_id lib df = Inr (map (\<lambda>(k, v). (lit_value (key_number lib k), v)) df)"
  proof
    assume h: "(\<forall>(k, v)\<in>set df. \<exists>n x. key_number lib k = IntLit n x \<and> in_int64 n) \<or>
          (\<forall>(k, v)\<in>set df. key_number lib k = NotNumeric \<or>
                             (\<exists>n. key_number lib k = IntLit n n \<and> in_int64 n))"
    then have "(\<forall>c\<in>set ?cells. \<exists>n x. c = IntLit n x \<and> in_int64 n) \<or>
           (\<forall>c\<in>set ?cells. c = NotNumeric \<or> (\<exists>n. c = IntLit n n \<and> in_int64 n))"
      by (auto simp: case_prod_beta)
    then have "to_numeric_Int64 ?cells = Inr (map lit_value ?cells)"
      by (rule to_numeric_Int64_exact)
    with a have "normalize_id lib df = Inr (zip (map lit_value ?cells) (map snd df))"
      by simp
    also have "zip (map lit_value ?cells) (map snd df) =
               map (\<lambda>(k, v). (lit_value (key_number lib k), v)) df"
      by (induction df) auto
    finally show "normalize_id lib df = Inr (map (\<lambda>(k, v). (lit_value (key_number lib k), v)) df)" .
  qed
  have c: "\<forall>tbl. normalize_id lib df = Inr tbl \<longrightarrow>
            length tbl = length df \<and> map snd tbl = map snd df \<and>
            (\<forall>i<length df. key_number lib (fst (df ! i)) = NotNumeric \<longrightarrow> fst (tbl ! i) = None)"
  proof (intro allI impI)
    fix tbl assume "normalize_id lib df = Inr tbl"
    with a obtain ids where ids: "to_numeric_Int64 ?cells = Inr ids"
      and tbl: "tbl = zip ids (map snd df)"
      by (auto split: sum.splits)
    from to_numeric_Int64_length [OF ids] have len: "length ids = length df" by simp
    have na: "\<forall>i<length df. key_number lib (fst (df ! i)) = NotNumeric \<longrightarrow> fst (tbl ! i) = None"
    proof (intro allI impI)
      fix i assume i: "i < length df" and nn: "key_number lib (fst (df ! i)) = NotNumeric"
      from i nn have "?cells ! i = NotNumeric" by (simp add: case_prod_beta)
      with to_numeric_Int64_NA [OF ids, of i] i have "ids ! i = None" by simp
      with i len show "fst (tbl ! i) = None" by (simp add: tbl)
    qed
    from len na show "length tbl = length df \<and> map snd tbl = map snd df \<and>
            (\<forall>i<length df. key_number lib (fst (df ! i)) = NotNumeric \<longrightarrow> fst (tbl ! i) = None)"
      by (simp add: tbl)
  qed
  have d: "merge_and_fill fs ((None, cell) # sp) lb = merge_and_fill fs sp lb"
    by (simp add: merge_and_fill_def merge_left_drop_None_key)
  have e: "merge_and_fill fs sp ((None, cell) # lb) = merge_and_fill fs sp lb"
    by (simp add: merge_and_fill_def merge_left_drop_None_key)
  have f: "\<forall>r\<in>set (merge_and_fill fs sp lb).
      (Some (user_id r) \<notin> fst ` set sp \<longrightarrow> split r = ''unknown'') \<and>
      (Some (user_id r) \<notin> fst ` set lb \<longrightarrow> label r = ''unknown'')"
  proof
    fix r assume "r \<in> set (merge_and_fill fs sp lb)"
    from merge_and_fill_row [OF this]
    show "(Some (user_id r) \<notin> fst ` set sp \<longrightarrow> split r = ''unknown'') \<and>
      (Some (user_id r) \<notin> fst ` set lb \<longrightarrow> label r = ''unknown'')"
      by (metis fst_conv image_eqI)
  qed
  from a b c d e f show ?thesis by blast
qed

theorem normalize_id_strips_u_witness:
  "list_all (\<lambda>(k, v). CHR ''u'' \<notin> set (strip_u_prefix k)) example_split \<and>
   strip_u_prefix ''u12'' = ''12'' \<and> strip_u_prefix ''t12'' = ''t12'' \<and>
   normalize_id example_lib example_split =
     Inr [(Some 1, Some ''train''), (None, Some ''test''), (Some 7, Some ''val'')] \<and>
   map (\<lambda>r. (user_id r, split r))
     (merge_and_fill example_features [(None, Some ''test''), (Some 1, Some ''train'')] []) =
     [(1, ''train''), (2, ''unknown''), (12, ''unknown'')]"
proof -
  have h: "\<forall>(k, v)\<in>set example_split. CHR ''u'' \<notin> set (strip_u_prefix k)"
    by code_simp
  have k1: "key_number example_lib ''u1'' = IntLit 1 1"
    and k2: "key_number example_lib ''t12'' = NotNumeric"
    and k3: "key_number example_lib ''u7'' = IntLit 7 7"
    by code_simp+
  have h2: "\<forall>(k, v)\<in>set example_split. key_number example_lib k = NotNumeric \<or>
              (\<exists>n. key_number example_lib k = IntLit n n \<and> in_int64 n)"
    by (simp add: example_split_def k1 k2 k3 in_int64_def)
  note inst = normalize_id_strips_u [OF h, where lib = example_lib
      and fs = example_features and cell = "Some ''test''" and sp = "[(Some 1, Some ''train'')]"
      and lb = "[]"]
  have ev: "map (\<lambda>(k, v). (lit_value (key_number example_lib k), v)) example_split =
      [(Some 1, Some ''train''), (None, Some ''test''), (Some 7, Some ''val'')]"
    by code_simp
  from inst h2 have "normalize_id example_lib example_split =
      Inr (map (\<lambda>(k, v). (lit_value (key_number example_lib k), v)) example_split)"
    by blast
  with ev have a: "normalize_id example_lib example_split =
     Inr [(Some 1, Some ''train''), (None, Some ''test''), (Some 7, Some ''val'')]"
    by simp
  have s: "strip_u_prefix ''u12'' = ''12'' \<and> strip_u_prefix ''t12'' = ''t12''"
    by code_simp
  have "map (\<lambda>r. (user_id r, split r)) (merge_and_fill example_features [(Some 1, Some ''train'')] []) =
     [(1, ''train''), (2, ''unknown''), (12, ''unknown'')]"
    by code_simp
  with inst have c: "map (\<lambda>r. (user_id r, split r))
     (merge_and_fill example_features [(None, Some ''test''), (Some 1, Some ''train'')] []) =
     [(1, ''train''), (2, ''unknown''), (12, ''unknown'')]"
    by simp
  from h have h': "list_all (\<lambda>(k, v). CHR ''u'' \<notin> set (strip_u_prefix k)) example_split"
    by (simp add: list_all_iff)
  from h' s a c show ?thesis by blast
qed
end
